(* ===== verification/Prelude.thy ===== *)
theory Prelude
  imports Main "HOL-Library.Word" "HOL-Library.AList" "HOL-Library.Sublist"
begin

text \<open>
  Shared vocabulary of the development: the machine types of the Go sources as words, byte
  strings, the standard-library functions on byte slices the sources call, the big-endian
  arithmetic facts the wire formats rest on, and the collections of simplification rules the
  component theories fill.

  A Go \<open>int64\<close> and a Go \<open>uint64\<close> are both a 64-bit word: the conversions
  \<open>int64(x)\<close> and \<open>uint64(x)\<close> are the identity on the bits. Where the source
  compares signed values the model reads the word with \<open>sint\<close>.
\<close>

unbundle bit_operations_syntax

subsection \<open>Types\<close>

type_synonym byte = "8 word"
type_synonym bytes = "byte list"
type_synonym u32 = "32 word"
type_synonym u64 = "64 word"
type_synonym i64 = "64 word"

subsection \<open>Rule collections\<close>

named_theorems wire_simps "reading back what an encoder wrote"
named_theorems key_simps "store keys: first byte, injectivity, separation"
named_theorems frame_simps "what an operation leaves unchanged"

subsection \<open>Byte slices\<close>

text \<open>\<open>bytes.HasPrefix\<close> and \<open>bytes.Contains\<close> of the standard library.\<close>

definition HasPrefix :: "bytes \<Rightarrow> bytes \<Rightarrow> bool" where
  "HasPrefix tx p = (take (length p) tx = p)"

fun Contains :: "bytes \<Rightarrow> bytes \<Rightarrow> bool" where
  "Contains [] sub = (sub = [])"
| "Contains (x # xs) sub = (HasPrefix (x # xs) sub \<or> Contains xs sub)"

text \<open>\<open>copy(make([]byte, n), src)\<close>: the first \<open>n\<close> bytes, padded with zeros.\<close>

definition copy_pad :: "nat \<Rightarrow> bytes \<Rightarrow> bytes" where
  "copy_pad n src = take n src @ replicate (n - length src) 0"

lemma HasPrefix_append [wire_simps]: "HasPrefix (p @ xs) p"
  by (simp add: HasPrefix_def)

lemma HasPrefix_iff: "HasPrefix tx p \<longleftrightarrow> (\<exists>ys. tx = p @ ys)"
  by (metis HasPrefix_append HasPrefix_def append_take_drop_id)

lemma HasPrefix_same_length: "HasPrefix tx p \<Longrightarrow> HasPrefix tx q \<Longrightarrow> length p = length q \<Longrightarrow> p = q"
  by (simp add: HasPrefix_def)

lemma Contains_iff: "Contains xs sub \<longleftrightarrow> (\<exists>ps ss. xs = ps @ sub @ ss)"
proof (induction xs)
  case Nil
  then show ?case by auto
next
  case (Cons x xs)
  show ?case
  proof
    assume "Contains (x # xs) sub"
    then consider "HasPrefix (x # xs) sub" | "Contains xs sub" by auto
    then show "\<exists>ps ss. x # xs = ps @ sub @ ss"
    proof cases
      case 1
      then show ?thesis by (metis HasPrefix_iff append_Nil)
    next
      case 2
      then show ?thesis using Cons.IH by (metis append_Cons)
    qed
  next
    assume "\<exists>ps ss. x # xs = ps @ sub @ ss"
    then obtain ps ss where eq: "x # xs = ps @ sub @ ss" by blast
    show "Contains (x # xs) sub"
    proof (cases ps)
      case Nil
      then have "HasPrefix (x # xs) sub" using eq by (auto simp: HasPrefix_iff)
      then show ?thesis by simp
    next
      case (Cons p ps')
      then have "xs = ps' @ sub @ ss" using eq by simp
      then show ?thesis using Cons.IH by auto
    qed
  qed
qed

lemma length_copy_pad [simp]: "length (copy_pad n src) = n"
  by (simp add: copy_pad_def)

lemma copy_pad_id [simp]: "length src = n \<Longrightarrow> copy_pad n src = src"
  by (simp add: copy_pad_def)

subsection \<open>Words as bytes\<close>

text \<open>
  The bits of a number cut into bytes and put together again, for the two widths the wire
  formats use.
\<close>

lemma take_bit_step_word:
  fixes v :: "'a::len word"
  assumes "8 < LENGTH('a)"
  shows "push_bit k (ucast (ucast (drop_bit k v) :: byte)) OR take_bit k v = take_bit (k + 8) v"
  by (rule bit_word_eqI) (use assms in \<open>auto simp: bit_simps\<close>)

lemma low_byte_word:
  fixes v :: "'a::len word"
  assumes "8 < LENGTH('a)"
  shows "ucast (ucast v :: byte) = take_bit 8 v"
  by (rule bit_word_eqI) (use assms in \<open>auto simp: bit_simps\<close>)

lemma join_bytes64 [wire_simps]:
  fixes v :: u64
  shows "push_bit 56 (ucast (ucast (drop_bit 56 v) :: byte)) OR
     push_bit 48 (ucast (ucast (drop_bit 48 v) :: byte)) OR
     push_bit 40 (ucast (ucast (drop_bit 40 v) :: byte)) OR
     push_bit 32 (ucast (ucast (drop_bit 32 v) :: byte)) OR
     push_bit 24 (ucast (ucast (drop_bit 24 v) :: byte)) OR
     push_bit 16 (ucast (ucast (drop_bit 16 v) :: byte)) OR
     push_bit 8 (ucast (ucast (drop_bit 8 v) :: byte)) OR
     ucast (ucast v :: byte) = v"
  using take_bit_step_word [of 8 v] take_bit_step_word [of 16 v] take_bit_step_word [of 24 v]
    take_bit_step_word [of 32 v] take_bit_step_word [of 40 v] take_bit_step_word [of 48 v]
    take_bit_step_word [of 56 v]
  by (simp add: low_byte_word take_bit_word_eq_self)

lemma join_bytes32 [wire_simps]:
  fixes v :: u32
  shows "push_bit 24 (ucast (ucast (drop_bit 24 v) :: byte)) OR
     push_bit 16 (ucast (ucast (drop_bit 16 v) :: byte)) OR
     push_bit 8 (ucast (ucast (drop_bit 8 v) :: byte)) OR
     ucast (ucast v :: byte) = v"
  using take_bit_step_word [of 8 v] take_bit_step_word [of 16 v] take_bit_step_word [of 24 v]
  by (simp add: low_byte_word take_bit_word_eq_self)

lemma take_bit_step_nat:
  "push_bit k (unat (word_of_nat (drop_bit k n) :: byte)) OR take_bit k n = take_bit (k + 8) n"
  by (rule bit_eqI) (auto simp: bit_simps unsigned_of_nat)

lemma low_byte_nat: "unat (word_of_nat n :: byte) = take_bit 8 n"
  by (simp add: unsigned_of_nat)

lemma join_nat32 [wire_simps]:
  "push_bit 24 (unat (word_of_nat (drop_bit 24 n) :: byte)) OR
   push_bit 16 (unat (word_of_nat (drop_bit 16 n) :: byte)) OR
   push_bit 8 (unat (word_of_nat (drop_bit 8 n) :: byte)) OR
   unat (word_of_nat n :: byte) = take_bit 32 n"
  using take_bit_step_nat [of 8 n] take_bit_step_nat [of 16 n] take_bit_step_nat [of 24 n]
  by (simp add: low_byte_nat)

lemma join_nat16 [wire_simps]:
  "push_bit 8 (unat (word_of_nat (drop_bit 8 n) :: byte)) OR unat (word_of_nat n :: byte)
   = take_bit 16 n"
  using take_bit_step_nat [of 8 n] by (simp add: low_byte_nat)

lemma take_bit_small [wire_simps]: "n < 2 ^ k \<Longrightarrow> take_bit k n = (n :: nat)"
  by (rule take_bit_nat_eq_self)

lemma unat_byte_less: "unat (a :: byte) < 256"
  using unsigned_less [of a, where ?'a = nat] by simp

lemma unat_u32_less: "unat (a :: u32) < 2 ^ 32"
  using unsigned_less [of a, where ?'a = nat] by simp

text \<open>The other direction: reading a byte out of a big-endian join.\<close>

lemma nobit: "8 \<le> n \<Longrightarrow> \<not> bit (a :: byte) n"
  by (auto dest: bit_imp_le_length)

lemma byte_bit_less: "bit (a :: byte) n \<Longrightarrow> n < 8"
  by (auto dest: bit_imp_le_length)

lemma byte_hi_word:
  fixes r :: "'a::len word"
  assumes "take_bit k r = r" "k + 8 \<le> LENGTH('a)"
  shows "(ucast (drop_bit k (push_bit k (ucast (a :: byte)) OR r)) :: byte) = a"
proof (rule bit_word_eqI)
  fix n assume n: "n < LENGTH(8)"
  have "\<not> bit r (k + n)" using assms(1) by (metis bit_take_bit_iff not_add_less1)
  then show "bit (ucast (drop_bit k (push_bit k (ucast a) OR r)) :: byte) n = bit a n"
    using n assms(2) by (auto simp: bit_simps)
qed

lemma byte_lo_word:
  fixes r :: "'a::len word"
  assumes "j + 8 \<le> k"
  shows "(ucast (drop_bit j (push_bit k x OR r)) :: byte) = ucast (drop_bit j r)"
  by (rule bit_word_eqI) (use assms in \<open>auto simp: bit_simps\<close>)

lemma small_word:
  fixes r :: "'a::len word"
  assumes "take_bit j r = r" "j + 8 \<le> k"
  shows "take_bit k (push_bit j (ucast (a :: byte)) OR r) = push_bit j (ucast a) OR r"
proof (rule bit_word_eqI)
  fix n assume "n < LENGTH('a)"
  have "bit r n \<Longrightarrow> n < j" using assms(1) by (metis bit_take_bit_iff)
  then show "bit (take_bit k (push_bit j (ucast a) OR r)) n = bit (push_bit j (ucast a) OR r) n"
    using assms(2) by (auto simp: bit_simps nobit dest: byte_bit_less)
qed

lemma small_byte_word:
  assumes "8 \<le> k" shows "take_bit k (ucast (a :: byte) :: 'a::len word) = ucast a"
  by (rule bit_word_eqI) (use assms in \<open>auto simp: bit_simps dest: bit_imp_le_length\<close>)

lemma byte_id_word: "8 \<le> LENGTH('a::len) \<Longrightarrow> (ucast (ucast (a :: byte) :: 'a word) :: byte) = a"
  by (rule bit_word_eqI) (auto simp: bit_simps)

lemma unat_join32:
  "push_bit 24 (unat (a :: byte)) OR push_bit 16 (unat (b :: byte)) OR push_bit 8 (unat (c :: byte)) OR unat (d :: byte)
   = unat (push_bit 24 (ucast a) OR push_bit 16 (ucast b) OR push_bit 8 (ucast c) OR ucast d :: u32)"
  by (rule bit_eqI) (auto simp: bit_simps nobit dest: byte_bit_less)

lemma split_nat16:
  "[word_of_nat (drop_bit 8 (push_bit 8 (unat a) OR unat b)), word_of_nat (push_bit 8 (unat a) OR unat b)]
   = [a, b :: byte]"
  by (auto simp: bit_simps nobit dest: byte_bit_less intro!: bit_word_eqI)

lemma join_nat16_less: "push_bit 8 (unat (a :: byte)) OR unat (b :: byte) < 2 ^ 16"
  by (subst take_bit_nat_eq_self_iff [symmetric], rule bit_eqI)
     (auto simp: bit_simps nobit dest: byte_bit_less)

lemmas split_join =
  byte_hi_word byte_lo_word byte_lo_word [where j = 0, simplified] small_word small_byte_word
  byte_id_word

lemma take_8:
  "8 \<le> length xs \<Longrightarrow>
   take 8 xs = [xs ! 0, xs ! 1, xs ! 2, xs ! 3, xs ! 4, xs ! 5, xs ! 6, xs ! 7]"
  by (auto simp: numeral_eq_Suc Suc_le_length_iff)

lemma take_4: "4 \<le> length xs \<Longrightarrow> take 4 xs = [xs ! 0, xs ! 1, xs ! 2, xs ! 3]"
  by (auto simp: numeral_eq_Suc Suc_le_length_iff)

lemma unat_word_of_nat_u32: "n < 2 ^ 32 \<Longrightarrow> unat (word_of_nat n :: u32) = n"
  by (simp add: unsigned_of_nat take_bit_nat_eq_self)

lemma take_2: "2 \<le> length xs \<Longrightarrow> take 2 xs = [xs ! 0, xs ! 1]"
  by (auto simp: numeral_eq_Suc Suc_le_length_iff)

subsection \<open>Lists and signed words\<close>

lemma sint_eq_iff [simp]: "sint v = sint w \<longleftrightarrow> v = w"
  by (auto intro: signed_word_eqI)

lemma sint_ucast_byte [simp]: "sint (ucast (b :: byte) :: i64) = uint b"
proof -
  have lo: "0 \<le> uint b" and hi: "uint b < 2 ^ 8"
    using unsigned_less [of b, where ?'a = int] by simp_all
  have "signed_take_bit 63 (uint b) = uint b"
    by (rule signed_take_bit_int_eq_self [OF order_trans [OF _ lo] less_trans [OF hi]]) simp_all
  then show ?thesis by (simp add: signed_ucast_eq)
qed

lemma find_distinct: "distinct (map f xs) \<Longrightarrow> r \<in> set xs \<Longrightarrow> find (\<lambda>q. f q = f r) xs = Some r"
  by (induction xs) auto

lemma find_None_distinct: "distinct (map f (r # rows)) \<Longrightarrow> find (\<lambda>q. f q = f r) rows = None"
  by (simp add: find_None_iff) (metis image_eqI)

lemma find_SomeD: "find P xs = Some x \<Longrightarrow> x \<in> set xs \<and> P x"
  by (auto simp: find_Some_iff)

lemma map_filter_cong: "(\<And>r. r \<in> set rows \<Longrightarrow> f r = g r) \<Longrightarrow> List.map_filter f rows = List.map_filter g rows"
  by (induction rows) (auto simp: map_filter_simps split: option.split)

end
