(* ===== verification/Lean_Keys.thy ===== *)
theory Lean_Keys
  imports Prelude
begin

text \<open>
  \<open>x/leanval/types/keys.go\<close>, \<open>errors.go\<close>: the store prefixes, the store keys, the
  big-endian integer codecs and the height-to-period map. All keys of the module live in one
  key-value tree, so the facts the keeper needs are that a key determines its period and its
  subject and that keys of different prefixes never meet. These go into \<open>key_simps\<close>.
\<close>

subsection \<open>Errors\<close>

text \<open>
  \<open>types/errors.go\<close>: the sentinel errors of the codespace, next to the formatted errors of
  \<open>fmt.Errorf\<close> (kept by their message) and a run-time panic.
\<close>

datatype lean_error =
    ErrSudoLeanVerifier
  | ErrSudoNotPermitted
  | ErrMempoolLNPR
  | ErrMempoolSSLE
  | Errorf string
  | Panic string

subsection \<open>Prefixes\<close>

definition OwnsValsetPrefix :: byte where "OwnsValsetPrefix = 0x00"
definition BondedPrefix :: byte where "BondedPrefix = 0x01"
definition SubjectIndexPrefix :: byte where "SubjectIndexPrefix = 0x02"
definition LastUpdatesPrefix :: byte where "LastUpdatesPrefix = 0x03"
definition ObjectRootsPrefix :: byte where "ObjectRootsPrefix = 0x04"
definition PendingJoinPrefix :: byte where "PendingJoinPrefix = 0x05"
definition PendingLeavePrefix :: byte where "PendingLeavePrefix = 0x06"
definition BitfieldPrefix :: byte where "BitfieldPrefix = 0x10"
definition DepositIndexPrefix :: byte where "DepositIndexPrefix = 0x11"
definition NextDepositIndexPrefix :: byte where "NextDepositIndexPrefix = 0x12"
definition EBPrefix :: byte where "EBPrefix = 0x13"
definition DailyKeyPrefix :: byte where "DailyKeyPrefix = 0x14"
definition WithdrawCommitPrefix :: byte where "WithdrawCommitPrefix = 0x15"
definition NoWithdrawAccPrefix :: byte where "NoWithdrawAccPrefix = 0x16"
definition PeriodParamPrefix :: byte where "PeriodParamPrefix = 0x17"

lemmas prefix_defs =
  OwnsValsetPrefix_def BondedPrefix_def SubjectIndexPrefix_def LastUpdatesPrefix_def
  ObjectRootsPrefix_def PendingJoinPrefix_def PendingLeavePrefix_def BitfieldPrefix_def
  DepositIndexPrefix_def NextDepositIndexPrefix_def EBPrefix_def DailyKeyPrefix_def
  WithdrawCommitPrefix_def NoWithdrawAccPrefix_def PeriodParamPrefix_def

definition ObjectRootsSize :: nat where "ObjectRootsSize = 96"

text \<open>The four-byte ASCII classes: proposer injections, and the membership transactions.\<close>

definition PrefixHMVE :: bytes where "PrefixHMVE = [0x48, 0x4D, 0x56, 0x45]"
definition PrefixLNPR :: bytes where "PrefixLNPR = [0x4C, 0x4E, 0x50, 0x52]"
definition PrefixSSLE :: bytes where "PrefixSSLE = [0x53, 0x53, 0x4C, 0x45]"
definition PrefixJOIN :: bytes where "PrefixJOIN = [0x4A, 0x4F, 0x49, 0x4E]"
definition PrefixLEAV :: bytes where "PrefixLEAV = [0x4C, 0x45, 0x41, 0x56]"

lemmas class_defs =
  PrefixHMVE_def PrefixLNPR_def PrefixSSLE_def PrefixJOIN_def PrefixLEAV_def

lemma length_class [simp]:
  "length PrefixHMVE = 4" "length PrefixLNPR = 4" "length PrefixSSLE = 4" "length PrefixJOIN = 4"
  "length PrefixLEAV = 4"
  by (simp_all add: class_defs)

lemma classes_distinct: "distinct [PrefixHMVE, PrefixLNPR, PrefixSSLE, PrefixJOIN, PrefixLEAV]"
  by (simp add: class_defs)

subsection \<open>Integer codecs\<close>

text \<open>\<open>putU64(dst, v)\<close> writes eight bytes; the model returns them.\<close>

definition putU64 :: "u64 \<Rightarrow> bytes" where
  "putU64 v =
    [ucast (drop_bit 56 v), ucast (drop_bit 48 v), ucast (drop_bit 40 v), ucast (drop_bit 32 v),
     ucast (drop_bit 24 v), ucast (drop_bit 16 v), ucast (drop_bit 8 v), ucast v]"

definition GetU64 :: "bytes \<Rightarrow> u64" where
  "GetU64 src =
    (if length src < 8 then 0
     else push_bit 56 (ucast (src ! 0)) OR push_bit 48 (ucast (src ! 1)) OR
          push_bit 40 (ucast (src ! 2)) OR push_bit 32 (ucast (src ! 3)) OR
          push_bit 24 (ucast (src ! 4)) OR push_bit 16 (ucast (src ! 5)) OR
          push_bit 8 (ucast (src ! 6)) OR ucast (src ! 7))"

definition PutI64 :: "i64 \<Rightarrow> bytes" where "PutI64 v = putU64 v"
definition GetI64 :: "bytes \<Rightarrow> i64" where "GetI64 src = GetU64 src"

definition PutU32 :: "u32 \<Rightarrow> bytes" where
  "PutU32 v = [ucast (drop_bit 24 v), ucast (drop_bit 16 v), ucast (drop_bit 8 v), ucast v]"

definition GetU32 :: "bytes \<Rightarrow> u32" where
  "GetU32 src =
    (if length src < 4 then 0
     else push_bit 24 (ucast (src ! 0)) OR push_bit 16 (ucast (src ! 1)) OR
          push_bit 8 (ucast (src ! 2)) OR ucast (src ! 3))"

definition DepositIndexBytes :: "u32 \<Rightarrow> bytes" where
  "DepositIndexBytes index = [0] @ PutU32 index"

subsection \<open>Keys\<close>

definition TestLeanVerifierAcc :: bytes where "TestLeanVerifierAcc = replicate 20 0"

definition OwnsValsetKey :: bytes where "OwnsValsetKey = [OwnsValsetPrefix]"
definition ObjectRootsKey :: bytes where "ObjectRootsKey = [ObjectRootsPrefix]"
definition PeriodParamKey :: bytes where "PeriodParamKey = [PeriodParamPrefix]"
definition BitfieldKey :: bytes where "BitfieldKey = [BitfieldPrefix]"
definition NextDepositIndexKey :: bytes where "NextDepositIndexKey = [NextDepositIndexPrefix]"

definition PendingJoinKey :: "u64 \<Rightarrow> bytes \<Rightarrow> bytes" where
  "PendingJoinKey period subject = PendingJoinPrefix # putU64 period @ subject"

definition PendingJoinPrefixForPeriod :: "u64 \<Rightarrow> bytes" where
  "PendingJoinPrefixForPeriod period = PendingJoinPrefix # putU64 period"

definition PendingLeaveKey :: "u64 \<Rightarrow> bytes \<Rightarrow> bytes" where
  "PendingLeaveKey period subject = PendingLeavePrefix # putU64 period @ subject"

definition PendingLeavePrefixForPeriod :: "u64 \<Rightarrow> bytes" where
  "PendingLeavePrefixForPeriod period = PendingLeavePrefix # putU64 period"

definition DepositIndexKey :: "bytes \<Rightarrow> bytes" where
  "DepositIndexKey subject = DepositIndexPrefix # subject"

definition EBKey :: "u32 \<Rightarrow> bytes" where
  "EBKey index =
    [EBPrefix, ucast (drop_bit 24 index), ucast (drop_bit 16 index), ucast (drop_bit 8 index),
     ucast index]"

definition DailyKeyKey :: "u64 \<Rightarrow> bytes" where
  "DailyKeyKey period = DailyKeyPrefix # putU64 period"

definition WithdrawCommitKey :: "u64 \<Rightarrow> bytes" where
  "WithdrawCommitKey period = WithdrawCommitPrefix # putU64 period"

definition NoWithdrawAccKey :: "u64 \<Rightarrow> bytes" where
  "NoWithdrawAccKey period = NoWithdrawAccPrefix # putU64 period"

definition BondedKey :: "u64 \<Rightarrow> bytes \<Rightarrow> bytes" where
  "BondedKey period subject = BondedPrefix # putU64 period @ subject"

definition BondedPrefixForPeriod :: "u64 \<Rightarrow> bytes" where
  "BondedPrefixForPeriod period = BondedPrefix # putU64 period"

definition LastPowerKey :: "bytes \<Rightarrow> bytes" where
  "LastPowerKey subject = LastUpdatesPrefix # subject"

lemmas key_defs =
  OwnsValsetKey_def ObjectRootsKey_def PeriodParamKey_def BitfieldKey_def
  NextDepositIndexKey_def PendingJoinKey_def PendingJoinPrefixForPeriod_def PendingLeaveKey_def
  PendingLeavePrefixForPeriod_def DepositIndexKey_def EBKey_def DailyKeyKey_def
  WithdrawCommitKey_def NoWithdrawAccKey_def BondedKey_def BondedPrefixForPeriod_def
  LastPowerKey_def

subsection \<open>Periods\<close>

text \<open>
  \<open>liveBlocksPerPeriod\<close> is a process-wide atomic the genesis sets; the model passes its
  value. Zero, its value before any store, reads as the default of 600.
\<close>

definition BlocksPerPeriod :: i64 where "BlocksPerPeriod = 600"

definition SetBlocksPerPeriod :: "i64 \<Rightarrow> i64" where
  "SetBlocksPerPeriod n = (if sint n \<le> 0 then BlocksPerPeriod else n)"

definition BlocksPerPeriodLive :: "i64 \<Rightarrow> i64" where
  "BlocksPerPeriodLive live = (if sint live \<le> 0 then BlocksPerPeriod else live)"

definition PeriodFromHeight :: "i64 \<Rightarrow> i64 \<Rightarrow> u64" where
  "PeriodFromHeight live height =
    (if sint height < 0 then 0
     else word_of_int (sint height div sint (BlocksPerPeriodLive live)))"

subsection \<open>Round trips\<close>

lemma length_putU64 [simp]: "length (putU64 v) = 8"
  by (simp add: putU64_def)

lemma length_PutI64 [simp]: "length (PutI64 v) = 8"
  by (simp add: PutI64_def)

lemma length_PutU32 [simp]: "length (PutU32 v) = 4"
  by (simp add: PutU32_def)

lemma GetU64_putU64_append [wire_simps]: "GetU64 (putU64 v @ xs) = v"
  by (simp add: GetU64_def putU64_def join_bytes64)

lemma GetU64_putU64 [wire_simps]: "GetU64 (putU64 v) = v"
  using GetU64_putU64_append [of v "[]"] by simp

lemma GetI64_PutI64_append [wire_simps]: "GetI64 (PutI64 v @ xs) = v"
  by (simp add: GetI64_def PutI64_def GetU64_putU64_append)

lemma GetI64_PutI64 [wire_simps]: "GetI64 (PutI64 v) = v"
  using GetI64_PutI64_append [of v "[]"] by simp

lemma GetU32_PutU32 [wire_simps]: "GetU32 (PutU32 v) = v"
  by (simp add: GetU32_def PutU32_def join_bytes32)

lemma GetU32_DepositIndexBytes [wire_simps]: "GetU32 (drop (Suc 0) (DepositIndexBytes v)) = v"
  by (simp add: DepositIndexBytes_def GetU32_PutU32)

lemma length_DepositIndexBytes [simp]: "length (DepositIndexBytes v) = 5"
  by (simp add: DepositIndexBytes_def)

lemma putU64_inject [simp]: "putU64 v = putU64 w \<longleftrightarrow> v = w"
  by (metis GetU64_putU64)

lemma PutU32_inject [simp]: "PutU32 v = PutU32 w \<longleftrightarrow> v = w"
  by (metis GetU32_PutU32)

lemma putU64_append_inject [simp]: "putU64 v @ xs = putU64 w @ ys \<longleftrightarrow> v = w \<and> xs = ys"
  by auto

text \<open>Every eight (four) bytes are the encoding of what is read from them.\<close>

lemma putU64_join:
  "putU64 (push_bit 56 (ucast a) OR push_bit 48 (ucast b) OR push_bit 40 (ucast c) OR
    push_bit 32 (ucast d) OR push_bit 24 (ucast e) OR push_bit 16 (ucast f) OR
    push_bit 8 (ucast g) OR ucast h) = [a, b, c, d, e, f, g, h :: byte]"
  by (simp add: putU64_def del: drop_bit_or take_bit_or unsigned_or_eq 
      add: split_join)
lemma PutU32_join:
  "PutU32 (push_bit 24 (ucast a) OR push_bit 16 (ucast b) OR push_bit 8 (ucast c) OR ucast d)
   = [a, b, c, d :: byte]"
  by (simp add: PutU32_def del: drop_bit_or take_bit_or unsigned_or_eq 
      add: split_join)

lemma PutU32_word_of_nat: "n < 2 ^ 32 \<Longrightarrow>
   [word_of_nat (drop_bit 24 n), word_of_nat (drop_bit 16 n), word_of_nat (drop_bit 8 n), word_of_nat n]
    = PutU32 (word_of_nat n)"
  unfolding PutU32_def
  by (auto simp: bit_simps  intro!: bit_word_eqI)

lemma putU64_GetU64: "8 \<le> length xs \<Longrightarrow> putU64 (GetU64 xs) = take 8 xs"
  by (simp add: GetU64_def putU64_join take_8)

lemma PutU32_GetU32: "4 \<le> length xs \<Longrightarrow> PutU32 (GetU32 xs) = take 4 xs"
  by (simp add: GetU32_def PutU32_join take_4)

subsection \<open>Keys determine what they index\<close>

lemma EBKey_eq: "EBKey index = EBPrefix # PutU32 index"
  by (simp add: EBKey_def PutU32_def)

lemma key_inject [key_simps]:
  "PendingJoinKey p s = PendingJoinKey p' s' \<longleftrightarrow> p = p' \<and> s = s'"
  "PendingLeaveKey p s = PendingLeaveKey p' s' \<longleftrightarrow> p = p' \<and> s = s'"
  "BondedKey p s = BondedKey p' s' \<longleftrightarrow> p = p' \<and> s = s'"
  "DepositIndexKey s = DepositIndexKey s' \<longleftrightarrow> s = s'"
  "LastPowerKey s = LastPowerKey s' \<longleftrightarrow> s = s'"
  "EBKey i = EBKey i' \<longleftrightarrow> i = i'"
  "DailyKeyKey p = DailyKeyKey p' \<longleftrightarrow> p = p'"
  "WithdrawCommitKey p = WithdrawCommitKey p' \<longleftrightarrow> p = p'"
  "NoWithdrawAccKey p = NoWithdrawAccKey p' \<longleftrightarrow> p = p'"
  by (auto simp: EBKey_eq PendingJoinKey_def PendingLeaveKey_def BondedKey_def DepositIndexKey_def
      LastPowerKey_def DailyKeyKey_def WithdrawCommitKey_def NoWithdrawAccKey_def)

lemma key_hd [key_simps]:
  "hd OwnsValsetKey = 0x00" "hd ObjectRootsKey = 0x04" "hd PeriodParamKey = 0x17"
  "hd BitfieldKey = 0x10" "hd NextDepositIndexKey = 0x12" "hd (PendingJoinKey p s) = 0x05"
  "hd (PendingLeaveKey p s) = 0x06" "hd (DepositIndexKey s) = 0x11" "hd (EBKey i) = 0x13"
  "hd (DailyKeyKey p) = 0x14" "hd (WithdrawCommitKey p) = 0x15" "hd (NoWithdrawAccKey p) = 0x16"
  "hd (BondedKey p s) = 0x01" "hd (LastPowerKey s) = 0x03"
  by (simp_all add: key_defs prefix_defs)

lemma HasPrefix_BondedKey [key_simps]:
  "HasPrefix (BondedKey p s) (BondedPrefixForPeriod p') \<longleftrightarrow> p = p'"
  by (auto simp: BondedKey_def BondedPrefixForPeriod_def HasPrefix_def)

lemma drop_BondedPrefixForPeriod [key_simps]:
  "drop (length (BondedPrefixForPeriod p')) (BondedKey p s) = s"
  by (simp add: BondedKey_def BondedPrefixForPeriod_def)

lemma HasPrefix_bonded_iff:
  "HasPrefix k (BondedPrefixForPeriod p) \<longleftrightarrow> (\<exists>s. k = BondedKey p s)"
  by (auto simp: HasPrefix_iff BondedKey_def BondedPrefixForPeriod_def)

lemma HasPrefix_pending_join_iff:
  "HasPrefix k (PendingJoinPrefixForPeriod p) \<longleftrightarrow> (\<exists>s. k = PendingJoinKey p s)"
  by (auto simp: HasPrefix_iff PendingJoinKey_def PendingJoinPrefixForPeriod_def)

lemma HasPrefix_pending_leave_iff:
  "HasPrefix k (PendingLeavePrefixForPeriod p) \<longleftrightarrow> (\<exists>s. k = PendingLeaveKey p s)"
  by (auto simp: HasPrefix_iff PendingLeaveKey_def PendingLeavePrefixForPeriod_def)

lemma keys_ne_by_hd: "hd k \<noteq> hd k' \<Longrightarrow> k \<noteq> k'"
  by auto

end
