(* ===== verification/Lean_Store.thy ===== *)
theory Lean_Store
  imports Lean_Keys
begin

text \<open>
  \<open>x/leanval/keeper/store.go\<close>: the \<open>Store\<close> interface of the keeper and its in-memory
  implementation. The interface is the locale \<open>kv_store\<close>; \<open>memStore\<close> is an association
  list whose order is the order an iteration visits the entries in, which Go leaves open, so
  that a statement for every list is a statement for every iteration order.

  \<open>IteratePrefix\<close> hands the visited pairs to a callback; the model returns the pairs and
  each caller folds over them, stopping where its callback returns \<open>false\<close>.
\<close>

subsection \<open>The interface\<close>

locale kv_store =
  fixes get :: "'s \<Rightarrow> bytes \<Rightarrow> bytes option"
    and put :: "bytes \<Rightarrow> bytes \<Rightarrow> 's \<Rightarrow> 's"
    and del :: "bytes \<Rightarrow> 's \<Rightarrow> 's"
    and iter :: "bytes \<Rightarrow> 's \<Rightarrow> (bytes \<times> bytes) list"
    and ok :: "'s \<Rightarrow> bool"
  assumes get_put: "get (put k v s) k' = (if k' = k then Some v else get s k')"
    and get_del: "ok s \<Longrightarrow> get (del k s) k' = (if k' = k then None else get s k')"
    and ok_put: "ok s \<Longrightarrow> ok (put k v s)"
    and ok_del: "ok s \<Longrightarrow> ok (del k s)"
    and iter_set: "ok s \<Longrightarrow> set (iter p s) = {(k, v). get s k = Some v \<and> HasPrefix k p}"
    and iter_distinct: "ok s \<Longrightarrow> distinct (map fst (iter p s))"
begin

lemma iter_get: "ok s \<Longrightarrow> (k, v) \<in> set (iter p s) \<Longrightarrow> get s k = Some v \<and> HasPrefix k p"
  by (simp add: iter_set)

lemma iter_Nil_iff: "ok s \<Longrightarrow> iter p s = [] \<longleftrightarrow> (\<forall>k. HasPrefix k p \<longrightarrow> get s k = None)"
  using iter_set [of s p] by (auto simp flip: set_empty)

lemma iter_functional:
  "ok s \<Longrightarrow> (k, v) \<in> set (iter p s) \<Longrightarrow> (k, w) \<in> set (iter p s) \<Longrightarrow> v = w"
  by (auto simp: iter_set)

text \<open>Searching the visited pairs for one that a predicate singles out.\<close>

lemma find_iter_unique:
  assumes "ok s" "get s k = Some v" "HasPrefix k p" "P (k, v)"
    and uniq: "\<And>k' v'. get s k' = Some v' \<Longrightarrow> HasPrefix k' p \<Longrightarrow> P (k', v') \<Longrightarrow> k' = k"
  shows "find P (iter p s) = Some (k, v)"
proof -
  have mem: "(k, v) \<in> set (iter p s)" using assms(1-3) by (simp add: iter_set)
  then obtain kv where f: "find P (iter p s) = Some kv"
    using assms(4) by (cases "find P (iter p s)") (auto simp: find_None_iff)
  then have "P kv" "kv \<in> set (iter p s)" by (auto simp: find_Some_iff)
  then have "fst kv = k"
    using uniq [of "fst kv" "snd kv"] iter_get [OF assms(1), of "fst kv" "snd kv" p] by simp
  then have "kv = (k, snd kv)" by (simp add: prod_eq_iff)
  then have "kv = (k, v)"
    using iter_functional [OF assms(1), of k "snd kv" p v] \<open>kv \<in> set (iter p s)\<close> mem by metis
  with f show ?thesis by simp
qed

lemma find_iter_None:
  assumes "ok s" "\<And>k v. get s k = Some v \<Longrightarrow> HasPrefix k p \<Longrightarrow> \<not> P (k, v)"
  shows "find P (iter p s) = None"
  using assms by (auto simp: find_None_iff iter_set)

end

subsection \<open>The in-memory store\<close>

type_synonym store = "(bytes \<times> bytes) list"

definition memGet :: "store \<Rightarrow> bytes \<Rightarrow> bytes option" where
  "memGet s key = map_of s key"

definition memSet :: "bytes \<Rightarrow> bytes \<Rightarrow> store \<Rightarrow> store" where
  "memSet key value s = AList.update key value s"

definition memDelete :: "bytes \<Rightarrow> store \<Rightarrow> store" where
  "memDelete key s = AList.delete key s"

definition memIteratePrefix :: "bytes \<Rightarrow> store \<Rightarrow> (bytes \<times> bytes) list" where
  "memIteratePrefix pref s = filter (\<lambda>(k, v). HasPrefix k pref) s"

definition NewMemStore :: store where "NewMemStore = []"

definition store_ok :: "store \<Rightarrow> bool" where
  "store_ok s \<longleftrightarrow> distinct (map fst s)"

interpretation mem: kv_store memGet memSet memDelete memIteratePrefix store_ok
proof
  fix s :: store and k v k' p :: bytes
  show "memGet (memSet k v s) k' = (if k' = k then Some v else memGet s k')"
    by (simp add: memGet_def memSet_def update_conv')
  show "memGet (memDelete k s) k' = (if k' = k then None else memGet s k')"
    by (simp add: memGet_def memDelete_def delete_conv')
  assume ok: "store_ok s"
  show "store_ok (memSet k v s)" "store_ok (memDelete k s)"
    using ok by (simp_all add: store_ok_def memSet_def memDelete_def distinct_update distinct_delete)
  show "set (memIteratePrefix p s) = {(k, v). memGet s k = Some v \<and> HasPrefix k p}"
    using ok by (auto simp: memIteratePrefix_def memGet_def store_ok_def)
  show "distinct (map fst (memIteratePrefix p s))"
    using ok by (auto simp: memIteratePrefix_def store_ok_def distinct_map inj_on_def)
qed

declare mem.get_put [simp] mem.ok_put [simp] mem.ok_del [simp]

lemma memGet_memDelete [simp]: "memGet (memDelete k s) k' = (if k' = k then None else memGet s k')"
  by (simp add: memGet_def memDelete_def delete_conv')

lemma store_ok_New [simp]: "store_ok NewMemStore"
  by (simp add: store_ok_def NewMemStore_def)

lemma memGet_New [simp]: "memGet NewMemStore k = None"
  by (simp add: memGet_def NewMemStore_def)

text \<open>A read whose caller does not tell a missing value from an empty one.\<close>

definition getb :: "store \<Rightarrow> bytes \<Rightarrow> bytes" where
  "getb s key = (case memGet s key of Some v \<Rightarrow> v | None \<Rightarrow> [])"

lemma getb_memSet [simp]: "getb (memSet k v s) k' = (if k' = k then v else getb s k')"
  by (simp add: getb_def)

lemma getb_memDelete [simp]: "getb (memDelete k s) k' = (if k' = k then [] else getb s k')"
  by (simp add: getb_def)

lemma getb_New [simp]: "getb NewMemStore k = []"
  by (simp add: getb_def)

lemma getb_cong: "memGet s k = memGet t k \<Longrightarrow> getb s k = getb t k"
  by (simp add: getb_def)

end
