(* ===== verification/Lean_Wire.thy ===== *)
theory Lean_Wire
  imports Lean_Keys
begin

text \<open>
  \<open>x/leanval/types/lnpr.go\<close>, \<open>membership.go\<close>, \<open>ssle.go\<close>: the transactions the module
  reads out of a block. A decoder returns \<open>None\<close> where the source returns \<open>false\<close>.
  The interface all four codecs share is the locale \<open>framed_codec\<close>: a decoder accepts
  exactly the encodings of well-formed blobs, possibly followed by bytes it ignores.
\<close>

subsection \<open>The codec interface\<close>

text \<open>The first transaction of a block a decoder accepts, with its index.\<close>

fun find_first :: "(bytes \<Rightarrow> 'a option) \<Rightarrow> bytes list \<Rightarrow> ('a \<times> nat) option" where
  "find_first dec [] = None"
| "find_first dec (tx # txs) =
    (case dec tx of
       Some blob \<Rightarrow> Some (blob, 0)
     | None \<Rightarrow> map_option (\<lambda>(blob, i). (blob, Suc i)) (find_first dec txs))"

lemma find_first_append_None:
  "find_first dec xs = None \<Longrightarrow>
   find_first dec (xs @ ys) = map_option (\<lambda>(b, i). (b, length xs + i)) (find_first dec ys)"
  by (induction xs)
    (auto split: option.splits simp: option.map_comp comp_def split_def option.map_ident)

lemma find_first_None_iff: "find_first dec xs = None \<longleftrightarrow> (\<forall>tx \<in> set xs. dec tx = None)"
  by (induction xs) (auto split: option.splits)

lemma find_first_Some_iff:
  "find_first dec xs = Some (b, i) \<longleftrightarrow>
     i < length xs \<and> dec (xs ! i) = Some b \<and> (\<forall>j < i. dec (xs ! j) = None)"
proof (induction xs arbitrary: i)
  case (Cons x xs)
  show ?case
    by (cases i) (use Cons in \<open>auto split: option.splits simp: All_less_Suc2\<close>)
qed simp

locale framed_codec =
  fixes pre :: bytes
    and enc :: "'a \<Rightarrow> bytes"
    and dec :: "bytes \<Rightarrow> 'a option"
    and wf :: "'a \<Rightarrow> bool"
    and ignored :: "bytes \<Rightarrow> bool"
  assumes dec_iff: "dec tx = Some b \<longleftrightarrow> wf b \<and> (\<exists>junk. ignored junk \<and> tx = enc b @ junk)"
    and enc_prefix: "HasPrefix (enc b) pre"
    and ignored_Nil: "ignored []"
begin

lemma dec_enc: "wf b \<Longrightarrow> dec (enc b) = Some b"
  using dec_iff ignored_Nil by fastforce

lemma dec_wf: "dec tx = Some b \<Longrightarrow> wf b"
  by (simp add: dec_iff)

lemma enc_inject: "wf b \<Longrightarrow> wf c \<Longrightarrow> enc b = enc c \<longleftrightarrow> b = c"
  using dec_enc by (metis option.inject)

lemma dec_prefix: "dec tx = Some b \<Longrightarrow> HasPrefix tx pre"
  using dec_iff enc_prefix by (metis HasPrefix_iff append_assoc)

lemma find_first_dec_append:
  "\<forall>tx \<in> set xs. \<not> HasPrefix tx pre \<Longrightarrow> wf b \<Longrightarrow>
   find_first dec (xs @ enc b # ys) = Some (b, length xs)"
proof -
  assume no: "\<forall>tx \<in> set xs. \<not> HasPrefix tx pre" and "wf b"
  have "find_first dec xs = None"
    using no dec_prefix unfolding find_first_None_iff by (metis not_None_eq)
  then show ?thesis
    using dec_enc [OF \<open>wf b\<close>] by (simp add: find_first_append_None)
qed

end

text \<open>Two codecs with different four-byte classes never read each other's transactions.\<close>

locale codec_pair =
  a: framed_codec pre1 enc1 dec1 wf1 ignored1 + b: framed_codec pre2 enc2 dec2 wf2 ignored2
  for pre1 enc1 and dec1 :: "bytes \<Rightarrow> 'a option" and wf1 ignored1
    and pre2 enc2 and dec2 :: "bytes \<Rightarrow> 'b option" and wf2 ignored2 +
  assumes same_length: "length pre1 = length pre2"
    and classes_differ: "pre1 \<noteq> pre2"
begin

lemma dec1_excludes_dec2: "dec1 tx = Some x \<Longrightarrow> dec2 tx = None"
  using a.dec_prefix b.dec_prefix HasPrefix_same_length same_length classes_differ
  by (metis not_None_eq)

lemma dec2_enc1: "dec2 (enc1 x) = None"
  using a.enc_prefix b.dec_prefix HasPrefix_same_length same_length classes_differ
  by (metis not_None_eq)

lemma dec1_enc2: "dec1 (enc2 y) = None"
  using b.enc_prefix a.dec_prefix HasPrefix_same_length same_length classes_differ
  by (metis not_None_eq)

end

subsection \<open>LNPR: the injected proposal\<close>

record SubjectProof =
  sp_Subject :: bytes
  sp_Weight :: i64
  sp_Proof :: bytes

record LNPRBlob =
  lb_Period :: u64
  lb_Subjects :: "SubjectProof list"

definition LNPRVersion :: byte where "LNPRVersion = 1"

definition encSubject :: "SubjectProof \<Rightarrow> bytes" where
  "encSubject s =
    (let subj = (if length (sp_Subject s) > 255 then take 255 (sp_Subject s) else sp_Subject s);
         pl = length (sp_Proof s)
     in [word_of_nat (length subj)] @ subj @ PutI64 (sp_Weight s) @
        [word_of_nat (drop_bit 24 pl), word_of_nat (drop_bit 16 pl), word_of_nat (drop_bit 8 pl),
         word_of_nat pl] @ sp_Proof s)"

definition EncodeLNPR :: "LNPRBlob \<Rightarrow> bytes" where
  "EncodeLNPR b =
    (let n = length (lb_Subjects b)
     in PrefixLNPR @ [LNPRVersion] @ putU64 (lb_Period b) @
        [word_of_nat (drop_bit 8 n), word_of_nat n] @ concat (map encSubject (lb_Subjects b)))"

text \<open>One turn of the decoder's loop: the subject read and the bytes left.\<close>

definition decSubject :: "bytes \<Rightarrow> (SubjectProof \<times> bytes) option" where
  "decSubject p =
    (if length p < 1 then None
     else let al = unat (p ! 0); p = drop 1 p in
       if length p < al + 8 + 4 then None
       else let subj = take al p; p = drop al p;
                w = GetI64 (take 8 p); p = drop 8 p;
                pl = push_bit 24 (unat (p ! 0)) OR push_bit 16 (unat (p ! 1)) OR
                     push_bit 8 (unat (p ! 2)) OR unat (p ! 3);
                p = drop 4 p
            in if length p < pl then None
               else Some (\<lparr>sp_Subject = subj, sp_Weight = w, sp_Proof = take pl p\<rparr>, drop pl p))"

fun decSubjects :: "nat \<Rightarrow> bytes \<Rightarrow> SubjectProof list option" where
  "decSubjects 0 p = Some []"
| "decSubjects (Suc n) p =
    (case decSubject p of
       None \<Rightarrow> None
     | Some (s, rest) \<Rightarrow> map_option ((#) s) (decSubjects n rest))"

definition DecodeLNPR :: "bytes \<Rightarrow> LNPRBlob option" where
  "DecodeLNPR tx =
    (if \<not> HasPrefix tx PrefixLNPR then None
     else let p = drop (length PrefixLNPR) tx in
       if length p < 1 + 8 + 2 \<or> p ! 0 \<noteq> LNPRVersion then None
       else let p = drop 1 p;
                period = GetU64 (take 8 p); p = drop 8 p;
                n = push_bit 8 (unat (p ! 0)) OR unat (p ! 1); p = drop 2 p
            in map_option (\<lambda>ss. \<lparr>lb_Period = period, lb_Subjects = ss\<rparr>) (decSubjects n p))"

definition MaxProofBytes :: nat where "MaxProofBytes = 2097152"
definition MaxRawStarksPerLNPR :: nat where "MaxRawStarksPerLNPR = 8"

definition RejectMempoolLNPR :: "bytes \<Rightarrow> lean_error + unit" where
  "RejectMempoolLNPR tx = (if HasPrefix tx PrefixLNPR then Inl ErrMempoolLNPR else Inr ())"

text \<open>What the length fields of the format can carry.\<close>

definition wf_subject :: "SubjectProof \<Rightarrow> bool" where
  "wf_subject s \<longleftrightarrow> length (sp_Subject s) \<le> 255 \<and> length (sp_Proof s) < 2 ^ 32"

definition wf_LNPR :: "LNPRBlob \<Rightarrow> bool" where
  "wf_LNPR b \<longleftrightarrow> length (lb_Subjects b) < 2 ^ 16 \<and> (\<forall>s \<in> set (lb_Subjects b). wf_subject s)"

lemma encSubject_wf:
  "wf_subject s \<Longrightarrow> encSubject s =
    [word_of_nat (length (sp_Subject s))] @ sp_Subject s @ PutI64 (sp_Weight s) @
    PutU32 (word_of_nat (length (sp_Proof s))) @ sp_Proof s"
  unfolding encSubject_def wf_subject_def Let_def by (simp only: PutU32_word_of_nat) simp

lemma nth_join32:
  "push_bit 24 (unat ((PutU32 v @ p) ! 0)) OR push_bit 16 (unat ((PutU32 v @ p) ! Suc 0)) OR
                     push_bit 8 (unat ((PutU32 v @ p) ! 2)) OR unat ((PutU32 v @ p) ! 3) = unat v"
  by (simp add: unat_join32 PutU32_def join_bytes32)

lemma decSubject_enc: "wf_subject s \<Longrightarrow> decSubject (encSubject s @ rest) = Some (s, rest)"
  by (simp add: encSubject_wf decSubject_def Let_def nth_join32 wf_subject_def wire_simps unsigned_of_nat)

lemma decSubject_only:
  assumes "decSubject p = Some (s, rest)"
  shows "wf_subject s \<and> p = encSubject s @ rest"
proof -
  obtain a q where p: "p = a # q" using assms by (cases p) (auto simp: decSubject_def)
  define al where "al = unat a"
  define r where "r = drop (al + 8) q"
  have len: "al + 8 + 4 \<le> length q" using assms by (auto simp: decSubject_def p al_def Let_def split: if_splits)
  define v where "v = GetU32 r"
  have 4: "4 \<le> length r" using len by (simp add: r_def)
  have pl: "push_bit 24 (unat (r ! 0)) OR push_bit 16 (unat (r ! 1)) OR
                     push_bit 8 (unat (r ! 2)) OR unat (r ! 3) = unat v"
    using 4 by (simp add: v_def GetU32_def unat_join32)
  have s: "s = \<lparr>sp_Subject = take al q, sp_Weight = GetI64 (take 8 (drop al q)), sp_Proof = take (unat v) (drop 4 r)\<rparr>"
    and rest: "rest = drop (unat v) (drop 4 r)" and lv: "unat v \<le> length r - 4"
    using assms pl len by (simp_all add: decSubject_def p al_def Let_def r_def add.commute split: if_splits)
  have al: "al \<le> 255" unfolding al_def using unat_byte_less [of a] by simp
  have lp: "length (sp_Proof s) = unat v" using lv by (simp add: s)
  then have wf: "wf_subject s" using al unat_u32_less [of v] by (simp add: wf_subject_def s)
  have q: "q = take al q @ take 8 (drop al q) @ take 4 r @ take (unat v) (drop 4 r) @ rest"
    unfolding r_def rest by (metis add.commute append_take_drop_id drop_drop)
  have w: "PutI64 (GetI64 (take 8 (drop al q))) = take 8 (drop al q)"
    using len by (simp add: PutI64_def GetI64_def putU64_GetU64)
  have "encSubject s @ rest = a # take al q @ take 8 (drop al q) @ take 4 r @ take (unat v) (drop 4 r) @ rest"
    using len al w unfolding encSubject_wf [OF wf] lp by (simp add: s al_def PutU32_GetU32 4 v_def)
  with q wf show ?thesis by (simp add: p)
qed

lemma decSubjects_iff:
  "decSubjects n p = Some ss \<longleftrightarrow>
    length ss = n \<and> (\<forall>s \<in> set ss. wf_subject s) \<and> (\<exists>junk. p = concat (map encSubject ss) @ junk)"
proof (induction n arbitrary: p ss)
  case (Suc n)
  show ?case
  proof
    assume "decSubjects (Suc n) p = Some ss"
    then obtain s rest ts where "decSubject p = Some (s, rest)" "decSubjects n rest = Some ts" "ss = s # ts"
      by (auto split: option.splits)
    then show "length ss = Suc n \<and> (\<forall>s \<in> set ss. wf_subject s) \<and> (\<exists>junk. p = concat (map encSubject ss) @ junk)"
      using decSubject_only Suc.IH by fastforce
  next
    assume R: "length ss = Suc n \<and> (\<forall>s \<in> set ss. wf_subject s) \<and> (\<exists>junk. p = concat (map encSubject ss) @ junk)"
    then obtain s ts junk where "ss = s # ts" "length ts = n" "p = encSubject s @ concat (map encSubject ts) @ junk"
      by (auto simp: length_Suc_conv)
    then show "decSubjects (Suc n) p = Some ss"
      using R Suc.IH by (auto simp: decSubject_enc)
  qed
qed auto

lemma DecodeLNPR_iff:
  "DecodeLNPR tx = Some b \<longleftrightarrow> wf_LNPR b \<and> (\<exists>junk. tx = EncodeLNPR b @ junk)"
proof
  assume D: "DecodeLNPR tx = Some b"
  obtain p where tx: "tx = PrefixLNPR @ p" using D by (auto simp: DecodeLNPR_def HasPrefix_iff split: if_splits)
  obtain q where p: "p = LNPRVersion # q" and len: "10 \<le> length q"
    using D by (cases p) (auto simp: DecodeLNPR_def tx Let_def split: if_splits)
  define n where "n = push_bit 8 (unat (drop 8 q ! 0)) OR unat (drop 8 q ! 1)"
  have n: "n < 2 ^ 16" unfolding n_def by (rule join_nat16_less)
  have d: "decSubjects n (drop 10 q) = Some (lb_Subjects b)" and per: "lb_Period b = GetU64 (take 8 q)"
    using D len by (auto simp: DecodeLNPR_def tx p n_def Let_def split: if_splits)
  obtain junk where J: "drop 10 q = concat (map encSubject (lb_Subjects b)) @ junk"
    and L: "length (lb_Subjects b) = n" and W: "\<forall>s \<in> set (lb_Subjects b). wf_subject s"
    using d by (auto simp: decSubjects_iff)
  have T8: "take 8 q = putU64 (lb_Period b)" using len per by (simp add: putU64_GetU64)
  have "take 2 (drop 8 q) = [drop 8 q ! 0, drop 8 q ! 1]"
    using len by (auto simp: take_Suc_conv_app_nth numeral_2_eq_2)
  then have T2: "take 2 (drop 8 q) = [word_of_nat (drop_bit 8 n), word_of_nat n]"
    unfolding n_def by (simp only: split_nat16)
  have "q = take 8 q @ take 2 (drop 8 q) @ drop 10 q"
    using append_take_drop_id [of 8 q] append_take_drop_id [of 2 "drop 8 q"] by simp
  also have "\<dots> = putU64 (lb_Period b) @ [word_of_nat (drop_bit 8 n), word_of_nat n] @
      concat (map encSubject (lb_Subjects b)) @ junk"
    by (simp only: T8 T2 J)
  finally have "tx = EncodeLNPR b @ junk"
    by (simp add: tx p EncodeLNPR_def Let_def L)
  then show "wf_LNPR b \<and> (\<exists>junk. tx = EncodeLNPR b @ junk)"
    using n L W by (auto simp: wf_LNPR_def)
next
  assume "wf_LNPR b \<and> (\<exists>junk. tx = EncodeLNPR b @ junk)"
  then obtain junk where wf: "wf_LNPR b" and tx: "tx = EncodeLNPR b @ junk" by blast
  define n where "n = length (lb_Subjects b)"
  have "decSubjects n (concat (map encSubject (lb_Subjects b)) @ junk) = Some (lb_Subjects b)"
    using wf by (auto simp: decSubjects_iff n_def wf_LNPR_def)
  moreover have "push_bit 8 (unat (word_of_nat (drop_bit 8 n) :: byte)) OR unat (word_of_nat n :: byte) = n"
    using wf unfolding join_nat16 by (intro take_bit_nat_eq_self) (simp add: n_def wf_LNPR_def)
  ultimately show "DecodeLNPR tx = Some b"
    unfolding DecodeLNPR_def tx EncodeLNPR_def Let_def n_def [symmetric]
    by (simp add: wire_simps)
qed

interpretation lnpr: framed_codec PrefixLNPR EncodeLNPR DecodeLNPR wf_LNPR "\<lambda>_. True"
  by unfold_locales (auto simp: DecodeLNPR_iff EncodeLNPR_def Let_def HasPrefix_append)

subsection \<open>JOIN and LEAV: membership transactions\<close>

record JoinBlob =
  jb_Period :: u64
  jb_Subject :: bytes
  jb_Weight :: i64
  jb_Proof :: bytes

record LeaveBlob =
  vb_Period :: u64
  vb_Subject :: bytes

definition MembershipVersion :: byte where "MembershipVersion = 1"

definition EncodeJoin :: "JoinBlob \<Rightarrow> bytes" where
  "EncodeJoin b =
    (let subj = (if length (jb_Subject b) > 255 then take 255 (jb_Subject b) else jb_Subject b)
     in PrefixJOIN @ [MembershipVersion] @ putU64 (jb_Period b) @ [word_of_nat (length subj)] @
        subj @ PutI64 (jb_Weight b) @ (if length (jb_Proof b) > 0 then jb_Proof b else []))"

definition DecodeJoin :: "bytes \<Rightarrow> JoinBlob option" where
  "DecodeJoin tx =
    (if \<not> HasPrefix tx PrefixJOIN then None
     else let p = drop (length PrefixJOIN) tx in
       if length p < 1 + 8 + 1 \<or> p ! 0 \<noteq> MembershipVersion then None
       else let p = drop 1 p;
                period = GetU64 (take 8 p); p = drop 8 p;
                al = unat (p ! 0); p = drop 1 p
            in if length p < al + 8 then None
               else Some \<lparr>jb_Period = period, jb_Subject = take al p,
                          jb_Weight = GetI64 (take 8 (drop al p)),
                          jb_Proof = (if length p > al + 8 then drop (al + 8) p else [])\<rparr>)"

definition EncodeLeave :: "LeaveBlob \<Rightarrow> bytes" where
  "EncodeLeave b =
    (let subj = (if length (vb_Subject b) > 255 then take 255 (vb_Subject b) else vb_Subject b)
     in PrefixLEAV @ [MembershipVersion] @ putU64 (vb_Period b) @ [word_of_nat (length subj)] @
        subj)"

definition DecodeLeave :: "bytes \<Rightarrow> LeaveBlob option" where
  "DecodeLeave tx =
    (if \<not> HasPrefix tx PrefixLEAV then None
     else let p = drop (length PrefixLEAV) tx in
       if length p < 1 + 8 + 1 \<or> p ! 0 \<noteq> MembershipVersion then None
       else let p = drop 1 p;
                period = GetU64 (take 8 p); p = drop 8 p;
                al = unat (p ! 0); p = drop 1 p
            in if length p < al then None
               else Some \<lparr>vb_Period = period, vb_Subject = take al p\<rparr>)"

definition IsMembershipTx :: "bytes \<Rightarrow> bool" where
  "IsMembershipTx tx = (HasPrefix tx PrefixJOIN \<or> HasPrefix tx PrefixLEAV)"

definition ValidateJoin :: "JoinBlob \<Rightarrow> lean_error + unit" where
  "ValidateJoin b =
    (if length (jb_Subject b) = 0 then Inl (Errorf ''leanval: join subject empty'')
     else if sint (jb_Weight b) \<le> 0 then Inl (Errorf ''leanval: join weight must be > 0'')
     else Inr ())"

definition ValidateLeave :: "LeaveBlob \<Rightarrow> lean_error + unit" where
  "ValidateLeave b =
    (if length (vb_Subject b) = 0 then Inl (Errorf ''leanval: leave subject empty'')
     else Inr ())"

definition wf_join :: "JoinBlob \<Rightarrow> bool" where
  "wf_join b \<longleftrightarrow> length (jb_Subject b) \<le> 255"

definition wf_leave :: "LeaveBlob \<Rightarrow> bool" where
  "wf_leave b \<longleftrightarrow> length (vb_Subject b) \<le> 255"

text \<open>The header both membership transactions start with: class, version, period, length.\<close>

lemma membership_header:
  assumes "HasPrefix tx pre" "length pre = 4" "14 \<le> length tx" "tx ! 4 = v"
  shows "tx = pre @ [v] @ putU64 (GetU64 (take 8 (drop 5 tx))) @ [tx ! 13] @ drop 14 tx"
proof -
  obtain p where tx: "tx = pre @ p" using assms(1) by (auto simp: HasPrefix_iff)
  with assms obtain q where p: "p = v # q" and len: "9 \<le> length q"
    by (cases p) (auto simp: nth_append)
  have "drop 8 q = q ! 8 # drop 9 q" using len Cons_nth_drop_Suc [of 8 q] by simp
  then have q: "take 8 q @ q ! 8 # drop 9 q = q"
    using append_take_drop_id [of 8 q] by simp
  have "take 8 (drop 5 tx) = take 8 q" "tx ! 13 = q ! 8" "drop 14 tx = drop 9 q"
    using assms(2) by (simp_all add: tx p nth_append)
  then show ?thesis
    using len q by (simp add: putU64_GetU64) (simp add: tx p)
qed

lemma DecodeJoin_iff: "DecodeJoin tx = Some b \<longleftrightarrow> wf_join b \<and> tx = EncodeJoin b"
proof
  assume D: "DecodeJoin tx = Some b"
  define q where "q = drop 14 tx"
  define al where "al = unat (tx ! 13)"
  have al: "al \<le> 255" unfolding al_def using unat_byte_less [of "tx ! 13"] by simp
  have H: "HasPrefix tx PrefixJOIN" "14 \<le> length tx" "tx ! 4 = MembershipVersion" "al + 8 \<le> length q"
    and b: "b = \<lparr>jb_Period = GetU64 (take 8 (drop 5 tx)), jb_Subject = take al q,
       jb_Weight = GetI64 (take 8 (drop al q)), jb_Proof = drop (al + 8) q\<rparr>"
    using D by (auto simp: DecodeJoin_def Let_def q_def al_def add.commute split: if_splits)
  have w: "PutI64 (GetI64 (take 8 (drop al q))) = take 8 (drop al q)"
    using H by (simp add: PutI64_def GetI64_def putU64_GetU64)
  have q: "take al q @ take 8 (drop al q) @ drop (al + 8) q = q"
    by (metis add.commute append_take_drop_id drop_drop)
  have al_w: "word_of_nat al = tx ! 13" by (simp add: al_def)
  have "tx = PrefixJOIN @ [MembershipVersion] @ putU64 (jb_Period b) @ [tx ! 13] @ q"
    using membership_header [OF H(1) _ H(2,3)] by (simp add: b q_def)
  also have "\<dots> = EncodeJoin b"
    using al H(4) by (simp add: EncodeJoin_def Let_def b w q al_w)
  finally show "wf_join b \<and> tx = EncodeJoin b" using al by (simp add: wf_join_def b)
next
  assume "wf_join b \<and> tx = EncodeJoin b"
  then show "DecodeJoin tx = Some b"
    by (auto simp: DecodeJoin_def EncodeJoin_def Let_def wf_join_def wire_simps unsigned_of_nat take_bit_nat_eq_self)
qed

lemma DecodeLeave_iff:
  "DecodeLeave tx = Some b \<longleftrightarrow> wf_leave b \<and> (\<exists>junk. tx = EncodeLeave b @ junk)"
proof
  assume D: "DecodeLeave tx = Some b"
  define q where "q = drop 14 tx"
  define al where "al = unat (tx ! 13)"
  have al: "al \<le> 255" unfolding al_def using unat_byte_less [of "tx ! 13"] by simp
  have H: "HasPrefix tx PrefixLEAV" "14 \<le> length tx" "tx ! 4 = MembershipVersion" "al \<le> length q"
    and b: "b = \<lparr>vb_Period = GetU64 (take 8 (drop 5 tx)), vb_Subject = take al q\<rparr>"
    using D by (auto simp: DecodeLeave_def Let_def q_def al_def add.commute split: if_splits)
  have al_w: "word_of_nat al = tx ! 13" by (simp add: al_def)
  have "tx = PrefixLEAV @ [MembershipVersion] @ putU64 (vb_Period b) @ [tx ! 13] @ q"
    using membership_header [OF H(1) _ H(2,3)] by (simp add: b q_def)
  also have "\<dots> = EncodeLeave b @ drop al q"
    using al H(4) by (simp add: EncodeLeave_def Let_def b al_w)
  finally show "wf_leave b \<and> (\<exists>junk. tx = EncodeLeave b @ junk)" using al by (auto simp: wf_leave_def b)
next
  assume "wf_leave b \<and> (\<exists>junk. tx = EncodeLeave b @ junk)"
  then show "DecodeLeave tx = Some b"
    by (auto simp: DecodeLeave_def EncodeLeave_def Let_def wf_leave_def wire_simps unsigned_of_nat take_bit_nat_eq_self)
qed

interpretation join: framed_codec PrefixJOIN EncodeJoin DecodeJoin wf_join "\<lambda>junk. junk = []"
  by unfold_locales (auto simp: DecodeJoin_iff EncodeJoin_def Let_def HasPrefix_append)

interpretation leav: framed_codec PrefixLEAV EncodeLeave DecodeLeave wf_leave "\<lambda>_. True"
  by unfold_locales (auto simp: DecodeLeave_iff EncodeLeave_def Let_def HasPrefix_append)

subsection \<open>SSLE: the hide-until-block object\<close>

record SSLEBlob =
  ss_Period :: u64
  ss_Height :: i64
  ss_Ticket :: bytes
  ss_Proposer :: bytes
  ss_Proof :: bytes

definition EncodeSSLE :: "SSLEBlob \<Rightarrow> bytes" where
  "EncodeSSLE b =
    (let proposer = (if length (ss_Proposer b) > 255 then take 255 (ss_Proposer b)
                     else ss_Proposer b);
         plen = length proposer;
         t = (if length (ss_Ticket b) < 32 then copy_pad 32 (ss_Ticket b) else ss_Ticket b)
     in PrefixSSLE @ putU64 (ss_Period b) @ putU64 (ss_Height b) @ take 32 t @
        [word_of_nat plen] @ proposer @ ss_Proof b)"

definition DecodeSSLE :: "bytes \<Rightarrow> SSLEBlob option" where
  "DecodeSSLE tx =
    (let hdr = 4 + 8 + 8 + 32 + 1 in
     if \<not> HasPrefix tx PrefixSSLE \<or> length tx < hdr then None
     else let period = GetU64 (take 8 (drop 4 tx));
              height = GetU64 (take 8 (drop 12 tx));
              ticket = take 32 (drop 20 tx);
              plen = unat (tx ! 52)
          in if 53 + plen > length tx then None
             else Some \<lparr>ss_Period = period, ss_Height = height, ss_Ticket = ticket,
                        ss_Proposer = take plen (drop 53 tx), ss_Proof = drop (53 + plen) tx\<rparr>)"

definition RejectMempoolSSLE :: "bytes \<Rightarrow> lean_error + unit" where
  "RejectMempoolSSLE tx = (if HasPrefix tx PrefixSSLE then Inl ErrMempoolSSLE else Inr ())"

definition FindSSLE :: "bytes list \<Rightarrow> (SSLEBlob \<times> nat) option" where
  "FindSSLE txs = find_first DecodeSSLE txs"

definition IsSSLEProofSTWO :: "bytes \<Rightarrow> bool" where
  "IsSSLEProofSTWO proof \<longleftrightarrow>
    length proof \<ge> 10 \<and> take 4 proof = [0x53, 0x54, 0x57, 0x4F] \<and>
    take 4 (drop 6 proof) = [0x53, 0x53, 0x4C, 0x45]"

definition wf_SSLE :: "SSLEBlob \<Rightarrow> bool" where
  "wf_SSLE b \<longleftrightarrow> length (ss_Ticket b) = 32 \<and> length (ss_Proposer b) \<le> 255"

lemma DecodeSSLE_iff: "DecodeSSLE tx = Some b \<longleftrightarrow> wf_SSLE b \<and> tx = EncodeSSLE b"
proof
  assume D: "DecodeSSLE tx = Some b"
  define plen where "plen = unat (tx ! 52)"
  have pl: "plen \<le> 255" unfolding plen_def using unat_byte_less [of "tx ! 52"] by simp
  have H: "HasPrefix tx PrefixSSLE" "53 + plen \<le> length tx"
    and b: "b = \<lparr>ss_Period = GetU64 (take 8 (drop 4 tx)), ss_Height = GetU64 (take 8 (drop 12 tx)),
      ss_Ticket = take 32 (drop 20 tx), ss_Proposer = take plen (drop 53 tx),
      ss_Proof = drop (53 + plen) tx\<rparr>"
    using D by (auto simp: DecodeSSLE_def Let_def plen_def split: if_splits)
  have "take 4 tx = PrefixSSLE" using H(1) by (simp add: HasPrefix_def)
  moreover have "drop 52 tx = tx ! 52 # drop 53 tx"
    using H(2) Cons_nth_drop_Suc [of 52 tx] by simp
  moreover have "take plen (drop 53 tx) @ drop (53 + plen) tx = drop 53 tx"
    by (metis add.commute append_take_drop_id drop_drop)
  moreover have "take 4 tx @ take 8 (drop 4 tx) @ take 8 (drop 12 tx) @ take 32 (drop 20 tx) @
      drop 52 tx = tx"
    using append_take_drop_id [of 4 tx] append_take_drop_id [of 8 "drop 4 tx"]
      append_take_drop_id [of 8 "drop 12 tx"] append_take_drop_id [of 32 "drop 20 tx"] by simp
  moreover have "word_of_nat plen = tx ! 52" by (simp add: plen_def)
  ultimately have "tx = EncodeSSLE b"
    using pl H(2) by (simp add: EncodeSSLE_def Let_def b putU64_GetU64)
  then show "wf_SSLE b \<and> tx = EncodeSSLE b" using pl H(2) by (simp add: wf_SSLE_def b)
next
  assume "wf_SSLE b \<and> tx = EncodeSSLE b"
  then have wf: "wf_SSLE b" and tx: "tx = PrefixSSLE @ putU64 (ss_Period b) @
      putU64 (ss_Height b) @ ss_Ticket b @ [word_of_nat (length (ss_Proposer b))] @
      ss_Proposer b @ ss_Proof b"
    by (auto simp: EncodeSSLE_def Let_def wf_SSLE_def)
  moreover have "tx ! 52 = word_of_nat (length (ss_Proposer b))"
    using wf by (simp add: tx wf_SSLE_def nth_append)
  ultimately show "DecodeSSLE tx = Some b"
    by (simp add: DecodeSSLE_def Let_def wf_SSLE_def wire_simps unsigned_of_nat
        take_bit_nat_eq_self)
qed

interpretation ssle: framed_codec PrefixSSLE EncodeSSLE DecodeSSLE wf_SSLE "\<lambda>junk. junk = []"
  by unfold_locales (auto simp: DecodeSSLE_iff EncodeSSLE_def Let_def HasPrefix_append)

interpretation lnpr_ssle: codec_pair PrefixLNPR EncodeLNPR DecodeLNPR wf_LNPR "\<lambda>_. True"
    PrefixSSLE EncodeSSLE DecodeSSLE wf_SSLE "\<lambda>junk. junk = []"
  using classes_distinct by unfold_locales auto

interpretation join_leav: codec_pair PrefixJOIN EncodeJoin DecodeJoin wf_join "\<lambda>junk. junk = []"
    PrefixLEAV EncodeLeave DecodeLeave wf_leave "\<lambda>_. True"
  using classes_distinct by unfold_locales auto

end
