(* ===== verification/Lean_Pairs.thy ===== *)
theory Lean_Pairs
  imports Lean_Wire
begin

text \<open>
  \<open>x/leanval/types/pairs.go\<close>, \<open>genesis.go\<close>: the protobuf pairs of a store query, unsigned
  varints, the count of a participation bitfield, and the genesis check.

  The reader computes slice bounds with \<open>int(ln)\<close>, a signed 64-bit integer, so a length
  above \<open>2^63\<close> gives a bound below the start of the slice: the run-time panic is a
  \<open>Panic\<close> value here.
\<close>

subsection \<open>Varints\<close>

fun cv_loop :: "bytes \<Rightarrow> nat \<Rightarrow> u64 \<Rightarrow> nat \<Rightarrow> u64 \<times> nat" where
  "cv_loop [] i x s = (0, 0)"
| "cv_loop (c # b) i x s =
    (if c < 0x80 then (x OR push_bit s (ucast c), i + 1)
     else let x = x OR push_bit s (ucast (c AND 0x7f)); s = s + 7
          in if i > 9 then (0, 0) else cv_loop b (i + 1) x s)"

definition consumeVarintBytes :: "bytes \<Rightarrow> u64 \<times> nat" where
  "consumeVarintBytes b = cv_loop b 0 0 0"

function appendUvarint :: "bytes \<Rightarrow> u64 \<Rightarrow> bytes" where
  "appendUvarint b x =
    (if x \<ge> 0x80 then appendUvarint (b @ [ucast x OR 0x80]) (drop_bit 7 x) else b @ [ucast x])"
  by auto

lemma drop_bit_7_less: "0x80 \<le> x \<Longrightarrow> unat (drop_bit 7 x :: u64) < unat x"
  by (simp add: drop_bit_eq_div word_le_nat_alt unat_div)

termination appendUvarint
  by (relation "measure (\<lambda>(b, x). unat x)") (simp_all add: drop_bit_7_less)

declare appendUvarint.simps [simp del]

subsection \<open>Pairs\<close>

record rawKV =
  kv_key :: bytes
  kv_value :: bytes

text \<open>\<open>bz[i : i+int(ln)]\<close> after \<open>i + int(ln) > len(bz)\<close> was refused: an upper bound below
  \<open>i\<close> panics.\<close>

definition slice_by :: "string \<Rightarrow> bytes \<Rightarrow> nat \<Rightarrow> u64 \<Rightarrow> lean_error + bytes \<times> nat" where
  "slice_by err bz i ln =
    (let hi = sint (word_of_nat i + ln :: i64)
     in if hi > int (length bz) then Inl (Errorf err)
        else if hi < int i then Inl (Panic ''slice bounds out of range'')
        else Inr (take (nat hi - i) (drop i bz), nat hi))"

lemma slice_by_bounds: "slice_by err bz i ln = Inr (v, j) \<Longrightarrow> i \<le> j \<and> j \<le> length bz"
  by (auto simp: slice_by_def Let_def split: if_splits)

text \<open>One turn of each loop: the state after a field (a pair) and the index behind it.\<close>

definition pair_field :: "bytes \<Rightarrow> nat \<Rightarrow> rawKV \<Rightarrow> lean_error + rawKV \<times> nat" where
  "pair_field bz i p =
    (let (tag, n) = consumeVarintBytes (drop i bz) in
       if n = 0 then Inl (Errorf ''bad pair tag'')
       else let i = i + n; fn = drop_bit 3 tag; wt = tag AND 7 in
         if wt \<noteq> 2 then Inl (Errorf ''pair field not bytes'')
         else let (ln, n) = consumeVarintBytes (drop i bz) in
           if n = 0 then Inl (Errorf ''pair field overflow'')
           else case slice_by ''pair field overflow'' bz (i + n) ln of
             Inl e \<Rightarrow> Inl e
           | Inr (val, j) \<Rightarrow>
               Inr (if fn = 1 then p\<lparr>kv_key := val\<rparr>
                    else if fn = 2 then p\<lparr>kv_value := val\<rparr> else p, j))"

lemma pair_field_advances: "pair_field bz i p = Inr (p', j) \<Longrightarrow> i < j \<and> j \<le> length bz"
  by (auto simp: pair_field_def Let_def split_def split: if_split_asm sum.split_asm dest!: slice_by_bounds)

function decodePair_from :: "bytes \<Rightarrow> nat \<Rightarrow> rawKV \<Rightarrow> lean_error + rawKV" where
  "decodePair_from bz i p =
    (if \<not> i < length bz then Inr p
     else case pair_field bz i p of
       Inl e \<Rightarrow> Inl e
     | Inr (p', j) \<Rightarrow> decodePair_from bz j p')"
  by auto
termination
  by (relation "measure (\<lambda>(bz, i, p). length bz - i)") (auto dest!: pair_field_advances)

definition decodePair :: "bytes \<Rightarrow> lean_error + rawKV" where
  "decodePair bz = decodePair_from bz 0 \<lparr>kv_key = [], kv_value = []\<rparr>"

definition kv_pair :: "bytes \<Rightarrow> nat \<Rightarrow> lean_error + rawKV \<times> nat" where
  "kv_pair bz i =
    (let (tag, n) = consumeVarintBytes (drop i bz) in
       if n = 0 then Inl (Errorf ''bad tag'')
       else let i = i + n; fn = drop_bit 3 tag; wt = tag AND 7 in
         if fn \<noteq> 1 \<or> wt \<noteq> 2 then Inl (Errorf ''expected pairs field 1 length-delimited'')
         else let (ln, n) = consumeVarintBytes (drop i bz) in
           if n = 0 then Inl (Errorf ''bad pair len'')
           else case slice_by ''pair overflow'' bz (i + n) ln of
             Inl e \<Rightarrow> Inl e
           | Inr (inner, j) \<Rightarrow>
              (case decodePair inner of Inl e \<Rightarrow> Inl e | Inr p \<Rightarrow> Inr (p, j)))"

lemma kv_pair_advances: "kv_pair bz i = Inr (p, j) \<Longrightarrow> i < j \<and> j \<le> length bz"
  by (auto simp: kv_pair_def Let_def split_def split: if_split_asm sum.split_asm dest!: slice_by_bounds)

function decodeKVPairs_from :: "bytes \<Rightarrow> nat \<Rightarrow> rawKV list \<Rightarrow> lean_error + rawKV list" where
  "decodeKVPairs_from bz i out =
    (if \<not> i < length bz then Inr out
     else case kv_pair bz i of
       Inl e \<Rightarrow> Inl e
     | Inr (p, j) \<Rightarrow> decodeKVPairs_from bz j (out @ [p]))"
  by auto
termination
  by (relation "measure (\<lambda>(bz, i, out). length bz - i)") (auto dest!: kv_pair_advances)

declare decodePair_from.simps [simp del] decodeKVPairs_from.simps [simp del]

definition decodeKVPairs :: "bytes \<Rightarrow> lean_error + rawKV list" where
  "decodeKVPairs bz = decodeKVPairs_from bz 0 []"

definition protoBytes :: "nat \<Rightarrow> bytes \<Rightarrow> bytes" where
  "protoBytes fn v =
    (let tag = appendUvarint [] (word_of_nat (push_bit 3 fn OR 2));
         tag = appendUvarint tag (word_of_nat (length v))
     in tag @ v)"

definition encodeKVPairs :: "rawKV list \<Rightarrow> bytes" where
  "encodeKVPairs pairs =
    concat (map (\<lambda>p. let inner = protoBytes 1 (kv_key p) @ protoBytes 2 (kv_value p)
                     in protoBytes 1 inner) pairs)"

text \<open>\<open>DecodeSubspacePairs\<close> only renames the pair type; both are \<open>rawKV\<close> here.\<close>

definition DecodeSubspacePairs :: "bytes \<Rightarrow> lean_error + rawKV list" where
  "DecodeSubspacePairs bz =
    (case decodeKVPairs bz of
       Inl e \<Rightarrow> Inl e
     | Inr raw \<Rightarrow> Inr (map (\<lambda>p. \<lparr>kv_key = kv_key p, kv_value = kv_value p\<rparr>) raw))"

record BondedSetRow =
  row_Subject :: bytes
  row_HasProof :: bool
  row_Weight :: i64

definition bonded_row :: "nat \<Rightarrow> rawKV \<Rightarrow> BondedSetRow" where
  "bonded_row lp p =
    (let hp = length (kv_value p) \<ge> 9 \<and> kv_value p ! 0 = 1
     in \<lparr>row_Subject = drop lp (kv_key p), row_HasProof = hp,
         row_Weight = (if hp then GetI64 (take 8 (drop 1 (kv_value p))) else 0)\<rparr>)"

definition DecodeBondedSubspace :: "u64 \<Rightarrow> bytes \<Rightarrow> lean_error + BondedSetRow list" where
  "DecodeBondedSubspace period bz =
    (if length bz = 0 then Inr []
     else case decodeKVPairs bz of
       Inl e \<Rightarrow> Inl e
     | Inr pairs \<Rightarrow>
         let lp = length (BondedPrefixForPeriod period)
         in Inr (map (bonded_row lp) (filter (\<lambda>p. \<not> length (kv_key p) < lp) pairs)))"

subsection \<open>Participation bits\<close>

function count_byte :: "byte \<Rightarrow> nat" where
  "count_byte b = (if b \<noteq> 0 then Suc (count_byte (b AND (b - 1))) else 0)"
  by auto

lemma clear_lowest_less: "b \<noteq> 0 \<Longrightarrow> unat (b AND (b - 1) :: byte) < unat b"
proof -
  assume "b \<noteq> 0"
  have "unat (b AND (b - 1)) \<le> unat (b - 1)"
    by (simp add: word_le_nat_alt [symmetric] word_and_le1)
  also have "\<dots> < unat b" using \<open>b \<noteq> 0\<close> by (rule measure_unat)
  finally show ?thesis .
qed

termination count_byte
  by (relation "measure unat") (simp_all add: clear_lowest_less)

declare count_byte.simps [simp del]

definition CountSetBits :: "bytes \<Rightarrow> nat" where
  "CountSetBits bf = sum_list (map count_byte bf)"

subsection \<open>Genesis\<close>

record GenesisSubject =
  gs_PubKey :: bytes
  gs_Weight :: i64

record GenesisState =
  gn_OwnsValset :: bool
  gn_VerifierAddr :: bytes
  gn_LeanCodeID :: u64
  gn_GenesisSubjects :: "GenesisSubject list"
  gn_BlocksPerPeriod :: i64

definition DefaultGenesis :: GenesisState where
  "DefaultGenesis = \<lparr>gn_OwnsValset = False, gn_VerifierAddr = [], gn_LeanCodeID = 0,
     gn_GenesisSubjects = [], gn_BlocksPerPeriod = 0\<rparr>"

definition GenesisState_Validate :: "GenesisState \<Rightarrow> lean_error + unit" where
  "GenesisState_Validate g =
    (if gn_OwnsValset g \<and> length (gn_GenesisSubjects g) = 0
     then Inl (Errorf ''leanval: leanval_owns_valset requires genesis_subjects'')
     else Inr ())"

text \<open>
  \<open>UnmarshalJSON\<close>: the JSON library fills the flat fields and the optional \<open>params\<close> object
  (\<open>params\<close> is its flag, when the object is present); a set flag under \<open>params\<close> wins.
\<close>

definition GenesisState_UnmarshalJSON ::
  "('j \<Rightarrow> lean_error + GenesisState \<times> bool option) \<Rightarrow> 'j \<Rightarrow> lean_error + GenesisState" where
  "GenesisState_UnmarshalJSON unmarshal b =
    (case unmarshal b of
       Inl e \<Rightarrow> Inl e
     | Inr (g, params) \<Rightarrow>
         Inr (case params of
                Some True \<Rightarrow> g\<lparr>gn_OwnsValset := True\<rparr>
              | _ \<Rightarrow> g))"

subsection \<open>Counting set bits\<close>


lemma clear_lowest:
  fixes b :: "'a::len word"
  assumes "bit b k" "\<And>j. j < k \<Longrightarrow> \<not> bit b j"
  shows "b AND (b - 1) = unset_bit k b"
proof -
  let ?c = "unset_bit k b"
  have "?c OR 2 ^ k = b" using assms(1) by (auto intro!: bit_word_eqI simp: bit_simps)
  moreover have "?c AND 2 ^ k = 0" by (auto intro!: bit_word_eqI simp: bit_simps)
  ultimately have b: "b = ?c + 2 ^ k" by (simp add: disjunctive_add_eq_or)
  then have "b - 1 = ?c + mask k" by (simp add: mask_eq_exp_minus_1)
  moreover have "?c AND mask k = 0" using assms(2) by (auto intro!: bit_word_eqI simp: bit_simps)
  ultimately have "b - 1 = ?c OR mask k" by (simp add: disjunctive_add_eq_or)
  then show ?thesis by (auto intro!: bit_word_eqI simp: bit_simps)
qed

lemma count_byte_eq: "count_byte b = card {j. bit b j}"
proof (induction b rule: count_byte.induct)
  case (1 b)
  show ?case
  proof (cases "b = 0")
    case False
    define k where "k = (LEAST j. bit b j)"
    have ex: "\<exists>j. bit b j" using False bit_eq_iff [of b 0] by auto
    have k: "bit b k" unfolding k_def using ex by (rule LeastI_ex)
    have lt: "\<not> bit b j" if "j < k" for j using that not_less_Least unfolding k_def by blast
    have eq: "{j. bit b j} = insert k {j. bit (b AND (b - 1)) j}"
      using k by (auto simp: clear_lowest [OF k lt] bit_simps dest: bit_imp_le_length)
    have "k \<notin> {j. bit (b AND (b - 1)) j}" by (simp add: clear_lowest [OF k lt] bit_simps)
    moreover have "finite {j. bit (b AND (b - 1)) j}"
      by (rule finite_subset [of _ "{..<LENGTH(8)}"]) (auto dest: bit_imp_le_length)
    ultimately show ?thesis using 1 False by (subst count_byte.simps) (simp add: eq)
  qed (simp add: count_byte.simps)
qed


subsection \<open>Varint round trip\<close>

lemma appendUvarint_append: "appendUvarint b x = b @ appendUvarint [] x"
proof (induction "unat x" arbitrary: b x rule: less_induct)
  case less
  show ?case
  proof (cases "0x80 \<le> x")
    case True
    have IH: "appendUvarint c (drop_bit 7 x) = c @ appendUvarint [] (drop_bit 7 x)" for c
      by (rule less) (rule drop_bit_7_less [OF True])
    show ?thesis
      using True IH [of "b @ [ucast x OR 0x80]"] IH [of "[ucast x OR 0x80]"]
      by (simp add: appendUvarint.simps [of _ x])
  qed (simp add: appendUvarint.simps)
qed

lemma appendUvarint_step:
  "0x80 \<le> x \<Longrightarrow> appendUvarint [] x = (ucast x OR 0x80) # appendUvarint [] (drop_bit 7 x)"
  using appendUvarint_append [of "[ucast x OR 0x80]" "drop_bit 7 x"]
  by (simp add: appendUvarint.simps [of _ x])

lemma cont_byte: "ucast ((ucast (x :: u64) OR 0x80 :: byte) AND 0x7f) = take_bit 7 x"
proof -
  have c: "(0x80 :: byte) = push_bit 7 1" "(0x7f :: byte) = mask 7"
    by (simp_all add: mask_eq_exp_minus_1)
  show ?thesis unfolding c by (rule bit_word_eqI) (auto simp: bit_simps simp del: push_bit_of_1)
qed

lemma cont_byte_ge: "\<not> (ucast (x :: u64) OR 0x80 :: byte) < 0x80"
  by (simp add: not_less le_word_or1)

lemma cv_loop_uvarint:
  "unat x < 2 ^ (7 * k) \<Longrightarrow> i + k \<le> 11 \<Longrightarrow>
   cv_loop (appendUvarint [] x @ rest) i acc s =
     (acc OR push_bit s x, i + length (appendUvarint [] x))"
proof (induction k arbitrary: x i acc s)
  case (Suc k)
  show ?case
  proof (cases "0x80 \<le> x")
    case True
    have "k \<noteq> 0" using Suc.prems(1) True by (cases k) (auto simp: word_le_nat_alt)
    moreover have "unat (drop_bit 7 x) < 2 ^ (7 * k)"
      using Suc.prems(1) by (simp add: drop_bit_eq_div unat_div power_add less_mult_imp_div_less mult.commute)
    moreover have "push_bit s (take_bit 7 x) OR push_bit (s + 7) (drop_bit 7 x) = push_bit s x"
      by (auto intro!: bit_word_eqI simp: bit_simps)
    ultimately show ?thesis
      using Suc.IH [of "drop_bit 7 x" "i + 1"] Suc.prems(2)
      by (simp add: appendUvarint_step [OF True] cont_byte cont_byte_ge or.assoc)
  next
    case False
    then have lt: "unat x < 128" by (simp add: word_le_nat_alt)
    then have "ucast (ucast x :: byte) = x"
      by (simp add: low_byte_word word_unat_eq_iff unsigned_take_bit_eq take_bit_nat_eq_self)
    moreover have "(ucast x :: byte) < 0x80"
      using lt by (simp add: word_less_nat_alt unsigned_ucast_eq take_bit_nat_eq_self)
    ultimately show ?thesis using False by (simp add: appendUvarint.simps [of _ x])
  qed
qed (simp add: unat_eq_zero appendUvarint.simps)

lemma consumeVarintBytes_uvarint [wire_simps]:
  "consumeVarintBytes (appendUvarint [] x @ rest) = (x, length (appendUvarint [] x))"
proof -
  have "unat x < 2 ^ 64" using unsigned_less [of x, where ?'a = nat] by simp
  then have "unat x < 2 ^ (7 * 10)" by simp
  from cv_loop_uvarint [OF this, of 0 rest 0 0] show ?thesis
    by (simp add: consumeVarintBytes_def)
qed

subsection \<open>Pairs round trip\<close>


lemma appendUvarint_not_Nil [simp]: "appendUvarint [] x \<noteq> []"
  by (subst appendUvarint.simps) (subst appendUvarint_append, simp)

lemma protoBytes_eq:
  "protoBytes fn v = appendUvarint [] (word_of_nat (push_bit 3 fn OR 2)) @
     appendUvarint [] (word_of_nat (length v)) @ v"
  unfolding protoBytes_def Let_def
  by (subst appendUvarint_append [of "appendUvarint [] _"]) simp

lemma length_protoBytes: "length v < length (protoBytes fn v)"
  by (simp add: protoBytes_eq)

lemma protoBytes_not_Nil [simp]: "protoBytes fn v \<noteq> []"
  by (simp add: protoBytes_eq)

lemma slice_by_exact:
  assumes "bz = xs @ v @ rest" "length bz < 2 ^ 63"
  shows "slice_by err bz (length xs) (word_of_nat (length v)) = Inr (v, length xs + length v)"
proof -
  have "sint (word_of_nat (length xs) + word_of_nat (length v) :: i64) = int (length xs + length v)"
    using assms by (simp add: of_nat_add [symmetric] signed_of_nat signed_take_bit_int_eq_self del: of_nat_add)
  then show ?thesis using assms by (simp add: slice_by_def Let_def)
qed

text \<open>The three reads of a length-delimited field that starts at an index.\<close>

lemma proto_reads:
  assumes bz: "bz = xs @ protoBytes fn v @ rest" and len: "length bz < 2 ^ 63"
  obtains n m where "n \<noteq> 0" "m \<noteq> 0"
    "consumeVarintBytes (drop (length xs) bz) = (word_of_nat (push_bit 3 fn OR 2), n)"
    "consumeVarintBytes (drop (length xs + n) bz) = (word_of_nat (length v), m)"
    "slice_by err bz (length xs + n + m) (word_of_nat (length v)) =
       Inr (v, length xs + length (protoBytes fn v))"
proof -
  let ?a = "appendUvarint [] (word_of_nat (push_bit 3 fn OR 2))"
  let ?b = "appendUvarint [] (word_of_nat (length v))"
  have "bz = (xs @ ?a @ ?b) @ v @ rest" by (simp add: bz protoBytes_eq)
  from slice_by_exact [OF this len, of err]
  show ?thesis
    by (intro that [of "length ?a" "length ?b"])
      (simp_all add: bz protoBytes_eq wire_simps add.assoc)
qed

lemma pair_field_proto:
  assumes "bz = xs @ protoBytes fn v @ rest" "length bz < 2 ^ 63" "fn \<in> {1, 2}"
  shows "pair_field bz (length xs) p =
    Inr (if fn = 1 then p\<lparr>kv_key := v\<rparr> else p\<lparr>kv_value := v\<rparr>, length xs + length (protoBytes fn v))"
  by (rule proto_reads [OF assms(1,2), of "''pair field overflow''"])
    (use assms(3) in \<open>auto simp: pair_field_def Let_def\<close>)

lemma decodePair_protoBytes:
  assumes "length (protoBytes 1 k @ protoBytes 2 v) < 2 ^ 63"
  shows "decodePair (protoBytes 1 k @ protoBytes 2 v) = Inr \<lparr>kv_key = k, kv_value = v\<rparr>"
proof -
  define a b where "a = protoBytes 1 k" and "b = protoBytes 2 v"
  have len: "length (a @ b) < 2 ^ 63" using assms by (simp add: a_def b_def)
  have 1: "pair_field (a @ b) 0 \<lparr>kv_key = [], kv_value = []\<rparr> =
      Inr (\<lparr>kv_key = k, kv_value = []\<rparr>, length a)"
    using pair_field_proto [of "a @ b" "[]" 1 k b] len by (simp add: a_def)
  have 2: "pair_field (a @ b) (length a) \<lparr>kv_key = k, kv_value = []\<rparr> =
      Inr (\<lparr>kv_key = k, kv_value = v\<rparr>, length a + length b)"
    using pair_field_proto [of "a @ b" a 2 v "[]"] len by (simp add: b_def)
  have "a \<noteq> []" "b \<noteq> []" by (simp_all add: a_def b_def)
  then have "decodePair (a @ b) = Inr \<lparr>kv_key = k, kv_value = v\<rparr>"
    unfolding decodePair_def using 1 2
    by (simp add: decodePair_from.simps [of _ 0] decodePair_from.simps [of _ "length a"]
        decodePair_from.simps [of _ "length a + length b"])
  then show ?thesis by (simp add: a_def b_def)
qed

lemma decodeKVPairs_from_encode:
  "length bz < 2 ^ 63 \<Longrightarrow> bz = xs @ encodeKVPairs ps \<Longrightarrow>
   decodeKVPairs_from bz (length xs) out = Inr (out @ ps)"
proof (induction ps arbitrary: xs out)
  case Nil
  then show ?case by (simp add: decodeKVPairs_from.simps encodeKVPairs_def)
next
  case (Cons p ps)
  let ?inner = "protoBytes 1 (kv_key p) @ protoBytes 2 (kv_value p)"
  have bz: "bz = xs @ protoBytes 1 ?inner @ encodeKVPairs ps"
    using Cons.prems by (simp add: encodeKVPairs_def)
  have lt: "length ?inner < length (protoBytes 1 ?inner)" by (rule length_protoBytes)
  then have "length ?inner < 2 ^ 63" using Cons.prems(1) bz by simp
  from decodePair_protoBytes [OF this] have d: "decodePair ?inner = Inr p" by simp
  have k: "kv_pair bz (length xs) = Inr (p, length xs + length (protoBytes 1 ?inner))"
    by (rule proto_reads [OF bz Cons.prems(1), of "''pair overflow''"]) (use d in \<open>auto simp: kv_pair_def Let_def\<close>)
  have "decodeKVPairs_from bz (length (xs @ protoBytes 1 ?inner)) (out @ [p]) = Inr ((out @ [p]) @ ps)"
    using Cons.prems(1) bz by (intro Cons.IH) simp_all
  then show ?case
    using k lt bz by (subst decodeKVPairs_from.simps) simp
qed

lemma decodeKVPairs_encode:
  "length (encodeKVPairs ps) < 2 ^ 63 \<Longrightarrow> decodeKVPairs (encodeKVPairs ps) = Inr ps"
  unfolding decodeKVPairs_def using decodeKVPairs_from_encode [of _ "[]" ps "[]"] by simp

end
