(* ===== verification/Lean_Bits.thy ===== *)
theory Lean_Bits
  imports Lean_Store Lean_Pairs
begin

text \<open>
  \<open>x/leanval/keeper/bitfield.go\<close>, \<open>merkle.go\<close>, \<open>roots.go\<close>: the deposit index, the
  participation bitfield, the effective-balance bytes and the object roots that commit to them.
  The operations act on the keeper's store. \<open>sha256.Sum256\<close> is the parameter \<open>H\<close>.
\<close>

subsection \<open>Bitfields\<close>

definition bitGet :: "bytes \<Rightarrow> u32 \<Rightarrow> bool" where
  "bitGet bf idx =
    (let i = unat (idx div 8)
     in if i \<ge> length bf then False
        else bf ! i AND push_bit (unat (idx mod 8)) 1 \<noteq> 0)"

definition bitSet :: "bytes \<Rightarrow> u32 \<Rightarrow> bool \<Rightarrow> bytes" where
  "bitSet bf idx on =
    (let i = unat (idx div 8);
         need = i + 1;
         bf = (if length bf < need then copy_pad need bf else bf);
         mask = push_bit (unat (idx mod 8)) 1
     in bf[i := (if on then bf ! i OR mask else bf ! i AND NOT mask)])"

subsection \<open>Merkle trees\<close>

definition hashLeaf :: "(bytes \<Rightarrow> bytes) \<Rightarrow> bytes \<Rightarrow> bytes" where
  "hashLeaf H data = H data"

definition hashNode :: "(bytes \<Rightarrow> bytes) \<Rightarrow> bytes \<Rightarrow> bytes \<Rightarrow> bytes" where
  "hashNode H left right = H (copy_pad 32 left @ copy_pad 32 right)"

fun hashPairs :: "(bytes \<Rightarrow> bytes) \<Rightarrow> bytes list \<Rightarrow> bytes list" where
  "hashPairs H (l # r # layer) = hashNode H l r # hashPairs H layer"
| "hashPairs H _ = []"

definition padOdd :: "bytes list \<Rightarrow> bytes list" where
  "padOdd layer = (if length layer mod 2 = 1 then layer @ [layer ! (length layer - 1)] else layer)"

lemma length_hashPairs: "length (hashPairs H layer) = length layer div 2"
  by (induction H layer rule: hashPairs.induct) auto

lemma length_padOdd: "length (padOdd layer) = length layer + length layer mod 2"
  by (simp add: padOdd_def mod_2_eq_odd)

function merkleFold :: "(bytes \<Rightarrow> bytes) \<Rightarrow> bytes list \<Rightarrow> bytes list" where
  "merkleFold H layer =
    (if length layer > 1 then merkleFold H (hashPairs H (padOdd layer)) else layer)"
  by auto
termination
  by (relation "measure (\<lambda>(H, layer). length layer)") (auto simp: length_hashPairs length_padOdd)

declare merkleFold.simps [simp del]

definition merkleRoot :: "(bytes \<Rightarrow> bytes) \<Rightarrow> bytes list \<Rightarrow> bytes" where
  "merkleRoot H leaves =
    (if length leaves = 0 then hashLeaf H [] else merkleFold H leaves ! 0)"

definition depositLeaf :: "(bytes \<Rightarrow> bytes) \<Rightarrow> bytes \<Rightarrow> u32 \<Rightarrow> bytes" where
  "depositLeaf H subject idx = hashLeaf H (subject @ PutU32 idx)"

definition ebLeaf :: "(bytes \<Rightarrow> bytes) \<Rightarrow> byte \<Rightarrow> bytes" where
  "ebLeaf H eb = hashLeaf H [eb]"

subsection \<open>The store of the roster\<close>

definition nextDepositIndex :: "store \<Rightarrow> u32" where
  "nextDepositIndex s = GetU32 (getb s NextDepositIndexKey)"

definition setNextDepositIndex :: "u32 \<Rightarrow> store \<Rightarrow> store" where
  "setNextDepositIndex n s = memSet NextDepositIndexKey (PutU32 n) s"

definition Bitfield :: "store \<Rightarrow> bytes" where
  "Bitfield s = (let b = getb s BitfieldKey in if length b = 0 then [0] else b)"

definition setBitfield :: "bytes \<Rightarrow> store \<Rightarrow> store" where
  "setBitfield b s = memSet BitfieldKey (if length b = 0 then [0] else b) s"

definition BitIsSet :: "store \<Rightarrow> u32 \<Rightarrow> bool" where
  "BitIsSet s idx = bitGet (Bitfield s) idx"

definition depositIndexOf :: "store \<Rightarrow> bytes \<Rightarrow> u32 option" where
  "depositIndexOf s subject =
    (let v = getb s (DepositIndexKey subject)
     in if length v < 5 then None else Some (GetU32 (drop (length v - 4) v)))"

definition ebFromWeight :: "i64 \<Rightarrow> byte" where
  "ebFromWeight w = (if sint w \<le> 0 then 0 else if sint w > 255 then 255 else ucast w)"

definition EBOf :: "store \<Rightarrow> u32 \<Rightarrow> byte" where
  "EBOf s idx = (let v = getb s (EBKey idx) in if length v = 0 then 0 else v ! 0)"

definition indexed_as :: "u32 \<Rightarrow> bytes \<times> bytes \<Rightarrow> bool" where
  "indexed_as want kv = (case kv of (key, value) \<Rightarrow>
     \<not> length value < 5 \<and> GetU32 (drop (length value - 4) value) = want)"

definition subjectByIndex :: "store \<Rightarrow> u32 \<Rightarrow> bytes" where
  "subjectByIndex s want =
    (case find (indexed_as want) (memIteratePrefix [DepositIndexPrefix] s) of
       Some (key, value) \<Rightarrow> drop 1 key
     | None \<Rightarrow> [])"

definition depositLeaves :: "(bytes \<Rightarrow> bytes) \<Rightarrow> store \<Rightarrow> bytes list" where
  "depositLeaves H s =
    map (\<lambda>i. depositLeaf H (subjectByIndex s (word_of_nat i)) (word_of_nat i))
      [0..<unat (nextDepositIndex s)]"

definition ebLeaves :: "(bytes \<Rightarrow> bytes) \<Rightarrow> store \<Rightarrow> bytes list" where
  "ebLeaves H s = map (\<lambda>i. ebLeaf H (EBOf s (word_of_nat i))) [0..<unat (nextDepositIndex s)]"

definition BitfieldRoot :: "(bytes \<Rightarrow> bytes) \<Rightarrow> store \<Rightarrow> bytes" where
  "BitfieldRoot H s = H (Bitfield s)"

definition DepositTreeRoot :: "(bytes \<Rightarrow> bytes) \<Rightarrow> store \<Rightarrow> bytes" where
  "DepositTreeRoot H s = merkleRoot H (depositLeaves H s)"

definition EBTreeRoot :: "(bytes \<Rightarrow> bytes) \<Rightarrow> store \<Rightarrow> bytes" where
  "EBTreeRoot H s = merkleRoot H (ebLeaves H s)"

subsection \<open>Object roots\<close>

definition LastObjectRoots :: "store \<Rightarrow> bytes" where
  "LastObjectRoots s = copy_pad ObjectRootsSize (getb s ObjectRootsKey)"

definition SetLastObjectRoots :: "bytes \<Rightarrow> store \<Rightarrow> store" where
  "SetLastObjectRoots roots s = memSet ObjectRootsKey (copy_pad ObjectRootsSize roots) s"

definition syncObjectRoots :: "(bytes \<Rightarrow> bytes) \<Rightarrow> store \<Rightarrow> store" where
  "syncObjectRoots H s =
    SetLastObjectRoots
      (copy_pad 32 (BitfieldRoot H s) @ copy_pad 32 (DepositTreeRoot H s) @
       copy_pad 32 (EBTreeRoot H s)) s"

subsection \<open>Operations\<close>

definition BitSet :: "(bytes \<Rightarrow> bytes) \<Rightarrow> u32 \<Rightarrow> store \<Rightarrow> store" where
  "BitSet H idx s = syncObjectRoots H (setBitfield (bitSet (Bitfield s) idx True) s)"

definition BitClear :: "(bytes \<Rightarrow> bytes) \<Rightarrow> u32 \<Rightarrow> store \<Rightarrow> store" where
  "BitClear H idx s = syncObjectRoots H (setBitfield (bitSet (Bitfield s) idx False) s)"

fun orInto :: "bytes \<Rightarrow> bytes \<Rightarrow> bytes" where
  "orInto (a # out) (b # other) = (a OR b) # orInto out other"
| "orInto out [] = out"
| "orInto [] other = []"

definition ORMergeBitfield :: "(bytes \<Rightarrow> bytes) \<Rightarrow> bytes \<Rightarrow> store \<Rightarrow> store" where
  "ORMergeBitfield H other s =
    (let cur = Bitfield s;
         n = (if length other > length cur then length other else length cur);
         out = orInto (copy_pad n cur) other
     in syncObjectRoots H (setBitfield out s))"

definition AllocateIndex :: "(bytes \<Rightarrow> bytes) \<Rightarrow> bytes \<Rightarrow> store \<Rightarrow> u32 \<times> store" where
  "AllocateIndex H subject s =
    (case depositIndexOf s subject of
       Some idx \<Rightarrow> (idx, s)
     | None \<Rightarrow>
         let n = nextDepositIndex s;
             s = memSet (DepositIndexKey subject) (DepositIndexBytes n) s;
             s = setNextDepositIndex (n + 1) s
         in (n, syncObjectRoots H s))"

definition SetEB :: "(bytes \<Rightarrow> bytes) \<Rightarrow> u32 \<Rightarrow> byte \<Rightarrow> store \<Rightarrow> store" where
  "SetEB H idx eb s = syncObjectRoots H (memSet (EBKey idx) [eb] s)"

definition admitMember :: "(bytes \<Rightarrow> bytes) \<Rightarrow> bytes \<Rightarrow> i64 \<Rightarrow> store \<Rightarrow> u32 \<times> store" where
  "admitMember H subject weight s =
    (let (idx, s) = AllocateIndex H subject s in
     if sint weight > 0
     then let s = (if length (getb s (EBKey idx)) = 0 then SetEB H idx (ebFromWeight weight) s else s)
          in (idx, BitSet H idx s)
     else (idx, s))"

record SubjectPower =
  pw_Subject :: bytes
  pw_Weight :: i64
  pw_HasProof :: bool

definition DebugSubjectsFromBits :: "store \<Rightarrow> SubjectPower list" where
  "DebugSubjectsFromBits s =
    map (\<lambda>i. let subj = subjectByIndex s i;
                 subj = (if length subj = 0 then DepositIndexBytes i else subj);
                 eb = EBOf s i
             in \<lparr>pw_Subject = subj, pw_Weight = ucast eb, pw_HasProof = (eb > 0)\<rparr>)
      (filter (BitIsSet s) (map word_of_nat [0..<unat (nextDepositIndex s)]))"

subsection \<open>Bitfield laws\<close>

lemma mask_test: "(b AND push_bit k 1 \<noteq> 0) = bit (b :: byte) k"
  by (simp add: and_exp_eq_0_iff_not_bit)

lemma bitGet_iff: "bitGet bf idx \<longleftrightarrow> unat idx div 8 < length bf \<and> bit (bf ! (unat idx div 8)) (unat idx mod 8)"
  by (auto simp: bitGet_def Let_def mask_test unat_div unat_mod not_le simp del: push_bit_of_1)

lemma bitGet_bitSet: "bitGet (bitSet bf i on) j = (if j = i then on else bitGet bf j)"
proof -
  let ?i = "unat i div 8" and ?j = "unat j div 8"
  define cf where "cf = (if length bf < ?i + 1 then copy_pad (?i + 1) bf else bf)"
  have len: "?i < length cf" by (simp add: cf_def)
  have cf: "(k < length cf \<and> bit (cf ! k) n) = (k < length bf \<and> bit (bf ! k) n)" for k n
    by (auto simp: cf_def copy_pad_def nth_append)
  have same: "i = j \<longleftrightarrow> ?i = ?j \<and> unat i mod 8 = unat j mod 8"
    by (metis div_mult_mod_eq word_unat_eq_iff)
  have lt: "unat j mod 8 < LENGTH(8)" by simp
  let ?b = "if on then cf ! ?i OR push_bit (unat i mod 8) 1 else cf ! ?i AND NOT (push_bit (unat i mod 8) 1)"
  have u: "unat (i div 8) = ?i" "unat (i mod 8) = unat i mod 8" by (simp_all add: unat_div unat_mod)
  have "bitSet bf i on = cf[?i := ?b]"
    unfolding bitSet_def Let_def u cf_def [symmetric] by (rule refl)
  then have "bitGet (bitSet bf i on) j =
    (?j < length cf \<and> bit (if ?i = ?j then ?b else cf ! ?j) (unat j mod 8))"
    using len by (auto simp: bitGet_iff nth_list_update simp del: push_bit_of_1)
  also have "\<dots> = (if ?i = ?j \<and> unat i mod 8 = unat j mod 8 then on
      else ?j < length cf \<and> bit (cf ! ?j) (unat j mod 8))"
  proof (cases "?i = ?j")
    case True
    have "bit ?b (unat j mod 8) =
        (if unat i mod 8 = unat j mod 8 then on else bit (cf ! ?i) (unat j mod 8))"
      using lt by (auto simp: bit_simps simp del: push_bit_of_1)
    then show ?thesis using True len by simp
  qed simp
  also have "\<dots> = (if j = i then on else bitGet bf j)"
    using same cf [of ?j "unat j mod 8"] by (simp add: bitGet_iff eq_commute)
  finally show ?thesis .
qed

lemma orInto_iff:
  "length other \<le> length out \<Longrightarrow>
   (k < length (orInto out other) \<and> bit (orInto out other ! k) n) =
   ((k < length out \<and> bit (out ! k) n) \<or> (k < length other \<and> bit (other ! k) n))"
  by (induction out other arbitrary: k rule: orInto.induct) (auto simp: bit_simps nth_Cons split: nat.split)

lemma bitGet_orInto:
  "bitGet (orInto (copy_pad (max (length other) (length cur)) cur) other) i = (bitGet cur i \<or> bitGet other i)"
  by (simp add: bitGet_iff orInto_iff) (auto simp: copy_pad_def nth_append)

lemma CountSetBits_card: 
  "CountSetBits bf = card {(i, j). i < length bf \<and> bit (bf ! i) j}"
proof (induction bf)
  case (Cons b bf)
  have fin: "finite {j. bit (x :: byte) j}" for x
    by (rule finite_subset [of _ "{..<LENGTH(8)}"]) (auto dest: bit_imp_le_length)
  have fin2: "finite {(i, j). i < length bf \<and> bit (bf ! i) j}"
    by (rule finite_subset [of _ "{..<length bf} \<times> {..<LENGTH(8)}"]) (auto dest: bit_imp_le_length)
  have "{(i, j). i < length (b # bf) \<and> bit ((b # bf) ! i) j} =
     Pair 0 ` {j. bit b j} \<union> (\<lambda>(i, j). (Suc i, j)) ` {(i, j). i < length bf \<and> bit (bf ! i) j}"
    by (auto simp: image_iff nth_Cons split: nat.splits)
  moreover have "card (Pair (0::nat) ` {j. bit b j}) = card {j. bit b j}"
    by (rule card_image) (auto simp: inj_on_def)
  moreover have "card ((\<lambda>(i, j). (Suc i, j)) ` {(i, j). i < length bf \<and> bit (bf ! i) j}) = card {(i, j). i < length bf \<and> bit (bf ! i) j}"
    by (rule card_image) (auto simp: inj_on_def)
  ultimately show ?case using Cons fin fin2
    by (simp add: CountSetBits_def count_byte_eq) (subst card_Un_disjoint, auto)
qed (simp add: CountSetBits_def)

lemma CountSetBits_bitGet:
  assumes "length bf \<le> 2 ^ 29"
  shows "CountSetBits bf = card {i. bitGet bf i}"
proof -
  have "bij_betw (\<lambda>i :: u32. (unat i div 8, unat i mod 8)) {i. bitGet bf i} {(i, j). i < length bf \<and> bit (bf ! i) j}"
    unfolding bij_betw_def
  proof
    show "inj_on (\<lambda>i :: u32. (unat i div 8, unat i mod 8)) {i. bitGet bf i}"
      by (auto simp: inj_on_def) (metis div_mult_mod_eq word_unat_eq_iff)
    show "(\<lambda>i :: u32. (unat i div 8, unat i mod 8)) ` {i. bitGet bf i} = {(i, j). i < length bf \<and> bit (bf ! i) j}"
    proof (intro equalityI subsetI)
      fix x assume "x \<in> {(i, j). i < length bf \<and> bit (bf ! i) j}"
      then obtain i j where x: "x = (i, j)" "i < length bf" "bit (bf ! i) j" by auto
      then have j: "j < 8" by (simp add: byte_bit_less)
      have "8 * i + j < 2 ^ 32" using x(2) j assms by simp
      then have "unat (word_of_nat (8 * i + j) :: u32) = 8 * i + j" by (rule unat_word_of_nat_u32)
      then show "x \<in> (\<lambda>i :: u32. (unat i div 8, unat i mod 8)) ` {i. bitGet bf i}"
        using x j by (intro image_eqI [of _ _ "word_of_nat (8 * i + j)"]) (auto simp: bitGet_iff simp del: of_nat_add of_nat_mult)
    qed (auto simp: bitGet_iff)
  qed
  then show ?thesis by (simp add: CountSetBits_card bij_betw_same_card)
qed

end
