(* ===== verification/Lean_Roster.thy ===== *)
theory Lean_Roster
  imports Lean_Bits
begin

text \<open>
  The roster the deposit indices, the bitfield and the effective balances describe, as an
  abstract list of members (position = deposit index), the invariant that makes the store
  describe one, and the refinement of the store operations of \<open>bitfield.go\<close> to operations on
  that list.
\<close>

subsection \<open>What the operations leave alone\<close>


lemma singleton_keys_ne [key_simps]:
  "ObjectRootsKey \<noteq> NextDepositIndexKey" "ObjectRootsKey \<noteq> BitfieldKey"
  "ObjectRootsKey \<noteq> DepositIndexKey x" "ObjectRootsKey \<noteq> EBKey i"
  "NextDepositIndexKey \<noteq> BitfieldKey" "NextDepositIndexKey \<noteq> DepositIndexKey x"
  "NextDepositIndexKey \<noteq> EBKey i" "NextDepositIndexKey \<noteq> ObjectRootsKey"
  "BitfieldKey \<noteq> DepositIndexKey x" "BitfieldKey \<noteq> EBKey i" "BitfieldKey \<noteq> ObjectRootsKey"
  "BitfieldKey \<noteq> NextDepositIndexKey"
  "DepositIndexKey x \<noteq> EBKey i" "DepositIndexKey x \<noteq> ObjectRootsKey"
  "DepositIndexKey x \<noteq> BitfieldKey" "DepositIndexKey x \<noteq> NextDepositIndexKey"
  "EBKey i \<noteq> DepositIndexKey x" "EBKey i \<noteq> ObjectRootsKey" "EBKey i \<noteq> BitfieldKey"
  "EBKey i \<noteq> NextDepositIndexKey"
  by (simp_all add: key_defs prefix_defs)

text \<open>The raw effective-balance entry, which tells an unset byte from a zero one.\<close>

definition EBraw :: "store \<Rightarrow> u32 \<Rightarrow> bytes" where
  "EBraw s i = getb s (EBKey i)"

definition roster_key :: "bytes \<Rightarrow> bool" where
  "roster_key k \<longleftrightarrow> k \<noteq> [] \<and> hd k \<in> {NextDepositIndexPrefix, BitfieldPrefix, DepositIndexPrefix, EBPrefix}"

lemma roster_key_simps [key_simps]:
  "roster_key NextDepositIndexKey" "roster_key BitfieldKey" "roster_key (DepositIndexKey x)" "roster_key (EBKey i)"
  "\<not> roster_key ObjectRootsKey" "\<not> roster_key (BondedKey p x)" "\<not> roster_key (PendingJoinKey p x)"
  "\<not> roster_key (PendingLeaveKey p x)" "\<not> roster_key (LastPowerKey x)" "\<not> roster_key OwnsValsetKey"
  "\<not> roster_key PeriodParamKey" "\<not> roster_key (DailyKeyKey p)" "\<not> roster_key (WithdrawCommitKey p)"
  "\<not> roster_key (NoWithdrawAccKey p)"
  by (simp_all add: roster_key_def key_defs prefix_defs)

text \<open>Two stores with the same roster.\<close>

definition same_roster :: "store \<Rightarrow> store \<Rightarrow> bool" where
  "same_roster s t \<longleftrightarrow> (\<forall>k. roster_key k \<longrightarrow> memGet s k = memGet t k)"

lemma same_roster_refl [simp]: "same_roster s s"
  by (simp add: same_roster_def)

lemma same_roster_trans: "same_roster s t \<Longrightarrow> same_roster t u \<Longrightarrow> same_roster s u"
  by (simp add: same_roster_def)

lemma same_roster_memSet [frame_simps]: "\<not> roster_key k \<Longrightarrow> same_roster (memSet k v s) t = same_roster s t"
  by (auto simp: same_roster_def)

lemma same_roster_memDelete [frame_simps]: "\<not> roster_key k \<Longrightarrow> same_roster (memDelete k s) t = same_roster s t"
  by (auto simp: same_roster_def)

lemma same_roster_sync [frame_simps]: "same_roster (syncObjectRoots H s) t = same_roster s t"
  by (simp add: syncObjectRoots_def SetLastObjectRoots_def frame_simps key_simps)

lemma store_ok_sync [simp]: "store_ok s \<Longrightarrow> store_ok (syncObjectRoots H s)"
  by (simp add: syncObjectRoots_def SetLastObjectRoots_def)

lemma same_rosterD:
  assumes "same_roster s t"
  shows "nextDepositIndex s = nextDepositIndex t" "Bitfield s = Bitfield t"
    "depositIndexOf s = depositIndexOf t" "EBraw s = EBraw t" "BitIsSet s = BitIsSet t" "EBOf s = EBOf t"
proof -
  have g: "getb s k = getb t k" if "roster_key k" for k
    using assms that by (simp add: same_roster_def getb_def)
  show "nextDepositIndex s = nextDepositIndex t" "Bitfield s = Bitfield t"
    by (simp_all add: nextDepositIndex_def Bitfield_def g key_simps)
  then show "BitIsSet s = BitIsSet t" by (simp add: BitIsSet_def fun_eq_iff)
  show "depositIndexOf s = depositIndexOf t" "EBraw s = EBraw t" "EBOf s = EBOf t"
    by (simp_all add: depositIndexOf_def EBraw_def EBOf_def fun_eq_iff g key_simps)
qed

text \<open>The roster after a synchronisation is the roster before it.\<close>

lemma same_roster_sync_self: "same_roster (syncObjectRoots H s) s"
  by (simp add: frame_simps)

lemmas sync_frame [simp] = same_rosterD [OF same_roster_sync_self]

lemma EBOf_raw: "EBOf s i = (case EBraw s i of [] \<Rightarrow> 0 | b # _ \<Rightarrow> b)"
  by (simp add: EBOf_def EBraw_def Let_def nth_Cons split: list.split)

lemma frame_setBitfield [simp]:
  "nextDepositIndex (setBitfield b s) = nextDepositIndex s"
  "depositIndexOf (setBitfield b s) = depositIndexOf s"
  "EBraw (setBitfield b s) = EBraw s"
  "Bitfield (setBitfield b s) = (if b = [] then [0] else b)"
  by (simp_all add: setBitfield_def nextDepositIndex_def depositIndexOf_def EBraw_def Bitfield_def fun_eq_iff key_simps)

lemma frame_EB [simp]:
  "nextDepositIndex (memSet (EBKey i) v s) = nextDepositIndex s"
  "depositIndexOf (memSet (EBKey i) v s) = depositIndexOf s"
  "EBraw (memSet (EBKey i) v s) = (EBraw s)(i := v)"
  "Bitfield (memSet (EBKey i) v s) = Bitfield s"
  by (auto simp: nextDepositIndex_def depositIndexOf_def EBraw_def Bitfield_def fun_eq_iff key_simps)

lemma frame_alloc [simp]:
  "nextDepositIndex (setNextDepositIndex n (memSet (DepositIndexKey x) (DepositIndexBytes i) s)) = n"
  "depositIndexOf (setNextDepositIndex n (memSet (DepositIndexKey x) (DepositIndexBytes i) s)) =
     (depositIndexOf s)(x \<mapsto> i)"
  "EBraw (setNextDepositIndex n (memSet (DepositIndexKey x) (DepositIndexBytes i) s)) = EBraw s"
  "Bitfield (setNextDepositIndex n (memSet (DepositIndexKey x) (DepositIndexBytes i) s)) = Bitfield s"
  by (auto simp: setNextDepositIndex_def nextDepositIndex_def depositIndexOf_def EBraw_def Bitfield_def fun_eq_iff
      key_simps wire_simps)

lemma bitSet_not_Nil [simp]: "bitSet bf i on \<noteq> []"
  by (auto simp: bitSet_def Let_def copy_pad_def)

lemma BitSet_frame [simp]:
  "nextDepositIndex (BitSet H i s) = nextDepositIndex s" "depositIndexOf (BitSet H i s) = depositIndexOf s"
  "EBraw (BitSet H i s) = EBraw s" "BitIsSet (BitSet H i s) = (BitIsSet s)(i := True)"
  by (auto simp: BitSet_def BitIsSet_def bitGet_bitSet fun_eq_iff)

lemma BitClear_frame [simp]:
  "nextDepositIndex (BitClear H i s) = nextDepositIndex s" "depositIndexOf (BitClear H i s) = depositIndexOf s"
  "EBraw (BitClear H i s) = EBraw s" "BitIsSet (BitClear H i s) = (BitIsSet s)(i := False)"
  by (auto simp: BitClear_def BitIsSet_def bitGet_bitSet fun_eq_iff)

lemma SetEB_frame [simp]:
  "nextDepositIndex (SetEB H i e s) = nextDepositIndex s" "depositIndexOf (SetEB H i e s) = depositIndexOf s"
  "EBraw (SetEB H i e s) = (EBraw s)(i := [e])" "BitIsSet (SetEB H i e s) = BitIsSet s"
  by (auto simp: SetEB_def BitIsSet_def fun_eq_iff)

lemma store_ok_roster [simp]:
  "store_ok s \<Longrightarrow> store_ok (setBitfield b s)" "store_ok s \<Longrightarrow> store_ok (setNextDepositIndex n s)"
  "store_ok s \<Longrightarrow> store_ok (BitSet H i s)" "store_ok s \<Longrightarrow> store_ok (BitClear H i s)"
  "store_ok s \<Longrightarrow> store_ok (SetEB H i e s)"
  by (simp_all add: setBitfield_def setNextDepositIndex_def BitSet_def BitClear_def SetEB_def)

subsection \<open>The invariant\<close>

text \<open>
  Deposit indices are a bijection between the enrolled subjects and the numbers below the next
  index; bits and balances exist for allocated indices only.
\<close>

definition roster_inv :: "store \<Rightarrow> bool" where
  "roster_inv s \<longleftrightarrow>
     store_ok s \<and>
     (\<forall>x i. depositIndexOf s x = Some i \<longrightarrow> x \<noteq> [] \<and> i < nextDepositIndex s) \<and>
     (\<forall>x y i. depositIndexOf s x = Some i \<and> depositIndexOf s y = Some i \<longrightarrow> x = y) \<and>
     (\<forall>i < nextDepositIndex s. \<exists>x. depositIndexOf s x = Some i) \<and>
     (\<forall>i. BitIsSet s i \<longrightarrow> i < nextDepositIndex s) \<and>
     (\<forall>i. EBraw s i \<noteq> [] \<longrightarrow> i < nextDepositIndex s)"

lemma roster_invD:
  assumes "roster_inv s"
  shows "store_ok s" "depositIndexOf s x = Some i \<Longrightarrow> x \<noteq> []"
    "depositIndexOf s x = Some i \<Longrightarrow> i < nextDepositIndex s"
    "depositIndexOf s x = Some i \<Longrightarrow> depositIndexOf s y = Some i \<Longrightarrow> x = y"
    "i < nextDepositIndex s \<Longrightarrow> \<exists>x. depositIndexOf s x = Some i"
    "BitIsSet s i \<Longrightarrow> i < nextDepositIndex s"
    "EBraw s i \<noteq> [] \<Longrightarrow> i < nextDepositIndex s"
  using assms unfolding roster_inv_def by blast+

lemma indexed_as_iff:
  "memGet s (DepositIndexKey x) = Some v \<Longrightarrow>
   indexed_as i (DepositIndexKey x, v) \<longleftrightarrow> depositIndexOf s x = Some i"
  by (auto simp: indexed_as_def depositIndexOf_def getb_def Let_def)

lemma HasPrefix_deposit_iff: "HasPrefix k [DepositIndexPrefix] \<longleftrightarrow> (\<exists>x. k = DepositIndexKey x)"
  by (auto simp: HasPrefix_iff DepositIndexKey_def)

lemma subjectByIndex_Some:
  assumes "store_ok s" "depositIndexOf s x = Some i"
    and "\<And>y. depositIndexOf s y = Some i \<Longrightarrow> y = x"
  shows "subjectByIndex s i = x"
proof -
  obtain v where v: "memGet s (DepositIndexKey x) = Some v"
    using assms(2) by (cases "memGet s (DepositIndexKey x)") (auto simp: depositIndexOf_def getb_def)
  have "find (indexed_as i) (memIteratePrefix [DepositIndexPrefix] s) = Some (DepositIndexKey x, v)"
  proof (rule mem.find_iter_unique [OF assms(1) v])
    show "HasPrefix (DepositIndexKey x) [DepositIndexPrefix]" by (auto simp: HasPrefix_deposit_iff)
    show "indexed_as i (DepositIndexKey x, v)" using v assms(2) by (simp add: indexed_as_iff)
    fix k' v' assume "memGet s k' = Some v'" "HasPrefix k' [DepositIndexPrefix]" "indexed_as i (k', v')"
    then show "k' = DepositIndexKey x"
      using assms(3) by (auto simp: HasPrefix_deposit_iff indexed_as_iff)
  qed
  then show ?thesis by (simp add: subjectByIndex_def DepositIndexKey_def)
qed

lemma subjectByIndex_inv:
  assumes "roster_inv s" "depositIndexOf s x = Some i" shows "subjectByIndex s i = x"
  using assms roster_invD [OF assms(1)] by (intro subjectByIndex_Some) blast+

lemma subjectByIndex_iff:
  assumes "roster_inv s" "i < nextDepositIndex s"
  shows "subjectByIndex s i = x \<longleftrightarrow> depositIndexOf s x = Some i"
  using assms roster_invD(5) subjectByIndex_inv by metis

subsection \<open>The abstract roster\<close>

record member =
  m_subject :: bytes
  m_active :: bool
  m_eb :: "byte option"

definition eb_entry :: "bytes \<Rightarrow> byte option" where
  "eb_entry v = (case v of [] \<Rightarrow> None | b # _ \<Rightarrow> Some b)"

definition member_at :: "store \<Rightarrow> u32 \<Rightarrow> member" where
  "member_at s i = \<lparr>m_subject = subjectByIndex s i, m_active = BitIsSet s i, m_eb = eb_entry (EBraw s i)\<rparr>"

definition roster :: "store \<Rightarrow> member list" where
  "roster s = map (\<lambda>i. member_at s (word_of_nat i)) [0..<unat (nextDepositIndex s)]"

definition spec_enrol :: "bytes \<Rightarrow> member list \<Rightarrow> member list" where
  "spec_enrol x ms =
    (if x \<in> m_subject ` set ms then ms else ms @ [\<lparr>m_subject = x, m_active = False, m_eb = None\<rparr>])"

definition on_member :: "bytes \<Rightarrow> (member \<Rightarrow> member) \<Rightarrow> member list \<Rightarrow> member list" where
  "on_member x f ms = map (\<lambda>m. if m_subject m = x then f m else m) ms"

definition spec_admit :: "bytes \<Rightarrow> i64 \<Rightarrow> member list \<Rightarrow> member list" where
  "spec_admit x w ms =
    (let ms = spec_enrol x ms in
     if sint w > 0
     then on_member x (\<lambda>m. m\<lparr>m_active := True,
            m_eb := Some (case m_eb m of None \<Rightarrow> ebFromWeight w | Some e \<Rightarrow> e)\<rparr>) ms
     else ms)"

definition spec_leave :: "bytes \<Rightarrow> member list \<Rightarrow> member list" where
  "spec_leave x ms = on_member x (\<lambda>m. m\<lparr>m_active := False, m_eb := Some 0\<rparr>) ms"

lemma length_roster [simp]: "length (roster s) = unat (nextDepositIndex s)"
  by (simp add: roster_def)

lemma unat_less_next: "n < unat (k :: u32) \<Longrightarrow> unat (word_of_nat n :: u32) = n \<and> word_of_nat n < k"
  using unat_u32_less [of k] unat_word_of_nat_u32 [of n] by (simp add: word_less_nat_alt)

lemma roster_nth: "n < unat (nextDepositIndex s) \<Longrightarrow> roster s ! n = member_at s (word_of_nat n)"
  by (simp add: roster_def)

lemma roster_subject_nth:
  assumes "roster_inv s" "n < unat (nextDepositIndex s)"
  shows "depositIndexOf s (m_subject (roster s ! n)) = Some (word_of_nat n)"
  using assms unat_less_next [OF assms(2)]
    subjectByIndex_iff [OF assms(1), of "word_of_nat n" "subjectByIndex s (word_of_nat n)"]
  by (simp add: roster_nth member_at_def)

lemma roster_subjects:
  assumes "roster_inv s"
  shows "m_subject ` set (roster s) = dom (depositIndexOf s)"
proof (intro equalityI subsetI)
  fix x assume "x \<in> m_subject ` set (roster s)"
  then obtain n where "n < unat (nextDepositIndex s)" "x = m_subject (roster s ! n)"
    by (auto simp: in_set_conv_nth)
  then show "x \<in> dom (depositIndexOf s)" using roster_subject_nth [OF assms] by blast
next
  fix x assume "x \<in> dom (depositIndexOf s)"
  then obtain i where i: "depositIndexOf s x = Some i" by blast
  then have lt: "unat i < unat (nextDepositIndex s)"
    using roster_invD(3) [OF assms] by (simp add: word_less_nat_alt)
  moreover have "m_subject (roster s ! unat i) = x"
    using i lt subjectByIndex_inv [OF assms i] by (simp add: roster_nth member_at_def)
  ultimately show "x \<in> m_subject ` set (roster s)" by (metis image_eqI length_roster nth_mem)
qed

lemma roster_distinct:
  assumes "roster_inv s" shows "distinct (map m_subject (roster s))"
proof -
  have eq: "m = n" if "m < unat (nextDepositIndex s)" "n < unat (nextDepositIndex s)"
    "m_subject (roster s ! m) = m_subject (roster s ! n)" for m n
  proof -
    have "Some (word_of_nat m :: u32) = Some (word_of_nat n)"
      by (simp only: roster_subject_nth [OF assms that(1), symmetric] that(3)
          roster_subject_nth [OF assms that(2)])
    then show ?thesis
      using unat_less_next [OF that(1)] unat_less_next [OF that(2)] by (metis option.inject)
  qed
  show ?thesis
    unfolding distinct_conv_nth length_map length_roster
  proof (intro allI impI notI)
    fix m n assume "m < unat (nextDepositIndex s)" "n < unat (nextDepositIndex s)" "m \<noteq> n"
      "map m_subject (roster s) ! m = map m_subject (roster s) ! n"
    then show False using eq [of m n] by simp
  qed
qed

subsection \<open>Refinement\<close>

lemma roster_inv_transfer:
  assumes "roster_inv s" "store_ok s'" "nextDepositIndex s' = nextDepositIndex s"
    "depositIndexOf s' = depositIndexOf s"
    "\<And>i. BitIsSet s' i \<Longrightarrow> i < nextDepositIndex s" "\<And>i. EBraw s' i \<noteq> [] \<Longrightarrow> i < nextDepositIndex s"
  shows "roster_inv s'"
  unfolding roster_inv_def assms(3,4)
  using assms(2,5,6) roster_invD(2-5) [OF assms(1)] by blast

lemma subjectByIndex_cong:
  assumes "roster_inv s" "roster_inv s'" "nextDepositIndex s' = nextDepositIndex s"
    "depositIndexOf s' = depositIndexOf s" "i < nextDepositIndex s"
  shows "subjectByIndex s' i = subjectByIndex s i"
proof -
  obtain x where x: "depositIndexOf s x = Some i" using roster_invD(5) [OF assms(1,5)] by blast
  then have "depositIndexOf s' x = Some i" by (simp add: assms(4))
  with x show ?thesis using subjectByIndex_inv assms(1,2) by simp
qed

lemma roster_point_update:
  assumes inv: "roster_inv s" and x: "depositIndexOf s x = Some i" and ok: "store_ok s'"
    and eqs: "nextDepositIndex s' = nextDepositIndex s" "depositIndexOf s' = depositIndexOf s"
      "BitIsSet s' = (BitIsSet s)(i := b)" "EBraw s' = (EBraw s)(i := e)"
  shows "roster_inv s'"
    and "roster s' = on_member x (\<lambda>m. m\<lparr>m_active := b, m_eb := eb_entry e\<rparr>) (roster s)"
proof -
  have i: "i < nextDepositIndex s" using roster_invD(3) [OF inv x] .
  show inv': "roster_inv s'"
    using roster_invD(6,7) [OF inv] i
    by (intro roster_inv_transfer [OF inv ok eqs(1,2)]) (auto simp: eqs split: if_splits)
  show "roster s' = on_member x (\<lambda>m. m\<lparr>m_active := b, m_eb := eb_entry e\<rparr>) (roster s)"
  proof (rule nth_equalityI)
    fix n assume "n < length (roster s')"
    then have n: "n < unat (nextDepositIndex s)" by (simp add: eqs)
    note n' = unat_less_next [OF n]
    have "subjectByIndex s' (word_of_nat n) = subjectByIndex s (word_of_nat n)"
      using n' by (intro subjectByIndex_cong [OF inv inv' eqs(1,2)]) simp
    moreover have "subjectByIndex s (word_of_nat n) = x \<longleftrightarrow> word_of_nat n = i"
      using n' x subjectByIndex_iff [OF inv, of "word_of_nat n" x] by auto
    ultimately show "roster s' ! n = on_member x (\<lambda>m. m\<lparr>m_active := b, m_eb := eb_entry e\<rparr>) (roster s) ! n"
      using n by (auto simp: roster_nth on_member_def member_at_def eqs)
  qed (simp add: eqs on_member_def)
qed

lemma AllocateIndex_known:
  "depositIndexOf s x = Some i \<Longrightarrow> AllocateIndex H x s = (i, s)"
  by (simp add: AllocateIndex_def)

lemma AllocateIndex_new:
  assumes inv: "roster_inv s" and x: "depositIndexOf s x = None" "x \<noteq> []"
    and room: "unat (nextDepositIndex s) < 2 ^ 32 - 1" and a: "AllocateIndex H x s = (i, s')"
  shows "i = nextDepositIndex s" "roster_inv s'" "depositIndexOf s' = (depositIndexOf s)(x \<mapsto> i)"
    "nextDepositIndex s' = nextDepositIndex s + 1" "EBraw s' = EBraw s" "BitIsSet s' = BitIsSet s"
    "roster s' = roster s @ [\<lparr>m_subject = x, m_active = False, m_eb = None\<rparr>]"
proof -
  let ?n = "nextDepositIndex s"
  have s': "s' = syncObjectRoots H (setNextDepositIndex (?n + 1) (memSet (DepositIndexKey x) (DepositIndexBytes ?n) s))"
    and i: "i = ?n"
    using a x by (auto simp: AllocateIndex_def Let_def)
  show "i = ?n" by (rule i)
  have suc: "unat (?n + 1) = unat ?n + 1" using room by (simp add: unat_word_ariths)
  have lt: "j < ?n + 1 \<longleftrightarrow> j < ?n \<or> j = ?n" for j
    using suc by (auto simp: word_less_nat_alt word_unat_eq_iff)
  show dep: "depositIndexOf s' = (depositIndexOf s)(x \<mapsto> i)" and nxt: "nextDepositIndex s' = ?n + 1"
    and eb: "EBraw s' = EBraw s" by (simp_all add: s' i)
  show bits: "BitIsSet s' = BitIsSet s" by (simp add: s' BitIsSet_def fun_eq_iff)
  have ok: "store_ok s'" using roster_invD(1) [OF inv] by (simp add: s')
  note D = roster_invD [OF inv]
  have fresh: "depositIndexOf s y \<noteq> Some ?n" for y using D(3) by (metis less_irrefl)
  have onto: "\<exists>y. y \<noteq> x \<and> depositIndexOf s y = Some j" if "j < ?n" for j
    using D(5) [OF that] x(1) by (metis option.distinct(1))
  show inv': "roster_inv s'"
    unfolding roster_inv_def dep nxt eb bits i lt
  proof (intro conjI)
    show "\<forall>j. j < ?n \<or> j = ?n \<longrightarrow> (\<exists>y. ((depositIndexOf s)(x \<mapsto> ?n)) y = Some j)"
      using onto by (metis fun_upd_apply)
  qed (use ok x(2) D(2-4,6,7) fresh in \<open>auto split: if_splits\<close>)
  show "roster s' = roster s @ [\<lparr>m_subject = x, m_active = False, m_eb = None\<rparr>]"
  proof (rule nth_equalityI)
    fix k assume "k < length (roster s')"
    then have k: "k < unat ?n \<or> k = unat ?n" by (auto simp: nxt suc)
    have sub: "subjectByIndex s' (word_of_nat k) = (if k = unat ?n then x else subjectByIndex s (word_of_nat k))"
    proof (cases "k = unat ?n")
      case True
      have "subjectByIndex s' ?n = x" by (rule subjectByIndex_inv [OF inv']) (simp add: dep i)
      then show ?thesis using True by simp
    next
      case False
      then have k: "k < unat ?n" using k by simp
      note k' = unat_less_next [OF k]
      obtain y where y: "depositIndexOf s y = Some (word_of_nat k)" using D(5) k' by blast
      then have "depositIndexOf s' y = Some (word_of_nat k)" using x(1) by (auto simp: dep)
      then show ?thesis using False subjectByIndex_inv [OF inv'] subjectByIndex_inv [OF inv y] by simp
    qed
    have "\<not> BitIsSet s ?n" "EBraw s ?n = []" using D(6,7) by (blast, metis less_irrefl)
    then show "roster s' ! k = (roster s @ [\<lparr>m_subject = x, m_active = False, m_eb = None\<rparr>]) ! k"
      using k sub by (auto simp: roster_nth member_at_def nxt suc bits eb nth_append eb_entry_def)
  qed (simp add: nxt suc)
qed


definition has_room :: "store \<Rightarrow> bytes \<Rightarrow> bool" where
  "has_room s x \<longleftrightarrow> depositIndexOf s x \<noteq> None \<or> unat (nextDepositIndex s) < 2 ^ 32 - 1"

lemma on_member_cong:
  "(\<And>m. m \<in> set ms \<Longrightarrow> m_subject m = x \<Longrightarrow> f m = g m) \<Longrightarrow> on_member x f ms = on_member x g ms"
  by (auto simp: on_member_def)

lemma roster_member:
  assumes "roster_inv s" "depositIndexOf s x = Some i" "m \<in> set (roster s)" "m_subject m = x"
  shows "m = member_at s i"
proof -
  obtain n where n: "n < unat (nextDepositIndex s)" "m = roster s ! n"
    using assms(3) by (auto simp: in_set_conv_nth)
  then have "word_of_nat n = i" using roster_subject_nth [OF assms(1) n(1)] assms(2,4) by simp
  then show ?thesis using n by (simp add: roster_nth)
qed

lemma AllocateIndex_spec:
  assumes "roster_inv s" "x \<noteq> []" "has_room s x" "AllocateIndex H x s = (i, s')"
  shows "roster_inv s' \<and> depositIndexOf s' x = Some i \<and> roster s' = spec_enrol x (roster s)"
proof (cases "depositIndexOf s x")
  case None
  have "x \<notin> m_subject ` set (roster s)" using roster_subjects [OF assms(1)] None by auto
  moreover have room: "unat (nextDepositIndex s) < 2 ^ 32 - 1" using assms(3) None by (simp add: has_room_def)
  ultimately show ?thesis
    using AllocateIndex_new [OF assms(1) None assms(2) room assms(4)] by (simp add: spec_enrol_def)
next
  case (Some j)
  then have "x \<in> m_subject ` set (roster s)" using roster_subjects [OF assms(1)] by auto
  then show ?thesis using assms Some by (simp add: AllocateIndex_known spec_enrol_def)
qed

lemma admitMember_spec:
  assumes inv: "roster_inv s" and x: "x \<noteq> []" "has_room s x" and a: "admitMember H x w s = (i, s')"
  shows "roster_inv s'" "depositIndexOf s' x = Some i" "roster s' = spec_admit x w (roster s)"
proof -
  obtain t where al: "AllocateIndex H x s = (i, t)" using a
    by (cases "AllocateIndex H x s") (auto simp: admitMember_def Let_def split: if_splits)
  note T = AllocateIndex_spec [OF inv x al]
  have "roster_inv s' \<and> depositIndexOf s' x = Some i \<and> roster s' = spec_admit x w (roster s)"
  proof (cases "sint w > 0")
    case True
    define u where "u = (if length (getb t (EBKey i)) = 0 then SetEB H i (ebFromWeight w) t else t)"
    have s': "s' = BitSet H i u" using a al True by (simp add: admitMember_def Let_def u_def)
    let ?e = "if EBraw t i = [] then [ebFromWeight w] else EBraw t i"
    have "store_ok t" using T roster_invD(1) by blast
    then have P: "store_ok s'" "nextDepositIndex s' = nextDepositIndex t" "depositIndexOf s' = depositIndexOf t"
      "BitIsSet s' = (BitIsSet t)(i := True)" "EBraw s' = (EBraw t)(i := ?e)"
      by (auto simp: s' u_def EBraw_def [symmetric])
    note U = roster_point_update [OF _ _ P, of x]
    have "roster s' = on_member x (\<lambda>m. m\<lparr>m_active := True, m_eb := eb_entry ?e\<rparr>) (spec_enrol x (roster s))"
      using U(2) T by metis
    also have "\<dots> = spec_admit x w (roster s)"
    proof -
      have "m_eb m = eb_entry (EBraw t i)"
        if "m \<in> set (spec_enrol x (roster s))" "m_subject m = x" for m
        using roster_member [of t x i m] T that by (simp add: member_at_def)
      then show ?thesis
        unfolding spec_admit_def Let_def using True
        by (auto intro!: on_member_cong simp: eb_entry_def split: list.split)
    qed
    finally show ?thesis using T U(1) P(3) by metis
  next
    case False
    then show ?thesis using a al T by (auto simp: admitMember_def Let_def spec_admit_def)
  qed
  then show "roster_inv s'" "depositIndexOf s' x = Some i" "roster s' = spec_admit x w (roster s)" by auto
qed

lemma DebugSubjectsFromBits_roster:
  assumes "roster_inv s"
  shows "DebugSubjectsFromBits s =
    map (\<lambda>m. let eb = (case m_eb m of None \<Rightarrow> 0 | Some b \<Rightarrow> b)
             in \<lparr>pw_Subject = m_subject m, pw_Weight = ucast eb, pw_HasProof = (eb > 0)\<rparr>)
      (filter m_active (roster s))"
proof -
  let ?is = "map word_of_nat [0..<unat (nextDepositIndex s)] :: u32 list"
  have "roster s = map (member_at s) ?is" by (simp add: roster_def)
  then have *: "filter m_active (roster s) = map (member_at s) (filter (BitIsSet s) ?is)"
    by (simp add: filter_map comp_def member_at_def)
  have ne: "subjectByIndex s i \<noteq> []" if "i \<in> set ?is" for i
  proof -
    have "i < nextDepositIndex s" using that unat_less_next by auto
    then show ?thesis using subjectByIndex_iff [OF assms, of i] roster_invD(2) [OF assms] by metis
  qed
  show ?thesis
    unfolding * DebugSubjectsFromBits_def map_map comp_def
    by (rule map_cong [OF refl]) (use ne in \<open>auto simp: member_at_def Let_def EBOf_raw eb_entry_def split: list.split\<close>)
qed

lemma DebugSubjects_distinct:
  assumes "roster_inv s" shows "distinct (map pw_Subject (DebugSubjectsFromBits s))"
proof -
  have "map pw_Subject (DebugSubjectsFromBits s) = map m_subject (filter m_active (roster s))"
    by (simp add: DebugSubjectsFromBits_roster [OF assms] comp_def Let_def)
  then show ?thesis using roster_distinct [OF assms] by (simp add: distinct_map_filter)
qed

subsection \<open>The object roots commit to the roster\<close>

definition objectRoots :: "(bytes \<Rightarrow> bytes) \<Rightarrow> store \<Rightarrow> bytes" where
  "objectRoots H s =
    copy_pad 32 (BitfieldRoot H s) @ copy_pad 32 (DepositTreeRoot H s) @
    copy_pad 32 (EBTreeRoot H s)"

definition synced :: "(bytes \<Rightarrow> bytes) \<Rightarrow> store \<Rightarrow> bool" where
  "synced H s \<longleftrightarrow> LastObjectRoots s = objectRoots H s"

lemma filter_update_other:
  "\<not> P k \<Longrightarrow> filter (\<lambda>(k, v). P k) (AList.update k v s) = filter (\<lambda>(k, v). P k) s"
  by (induction s) auto

lemma filter_delete_other:
  "\<not> P k \<Longrightarrow> filter (\<lambda>(k, v). P k) (AList.delete k s) = filter (\<lambda>(k, v). P k) s"
  by (induction s) (auto simp: AList.delete_eq)

lemma iterate_other [frame_simps]:
  "\<not> HasPrefix k p \<Longrightarrow> memIteratePrefix p (memSet k v s) = memIteratePrefix p s"
  "\<not> HasPrefix k p \<Longrightarrow> memIteratePrefix p (memDelete k s) = memIteratePrefix p s"
  by (simp_all add: memIteratePrefix_def memSet_def memDelete_def filter_update_other
      filter_delete_other)

lemma objectRoots_cong:
  "same_roster s t \<Longrightarrow>
   memIteratePrefix [DepositIndexPrefix] s = memIteratePrefix [DepositIndexPrefix] t \<Longrightarrow>
   objectRoots H s = objectRoots H t"
  using same_rosterD [of s t]
  by (simp add: objectRoots_def BitfieldRoot_def DepositTreeRoot_def EBTreeRoot_def
      depositLeaves_def ebLeaves_def subjectByIndex_def)

lemma not_deposit_prefix: "\<not> roster_key k \<Longrightarrow> \<not> HasPrefix k [DepositIndexPrefix]"
  by (auto simp: HasPrefix_deposit_iff key_simps)

lemma objectRoots_other:
  assumes "\<not> roster_key k"
  shows "objectRoots H (memSet k v s) = objectRoots H s"
    "objectRoots H (memDelete k s) = objectRoots H s"
  using assms
  by (auto intro!: objectRoots_cong simp: frame_simps not_deposit_prefix)

lemma length_objectRoots [simp]: "length (objectRoots H s) = 96"
  by (simp add: objectRoots_def)

lemma syncObjectRoots_eq: "syncObjectRoots H s = memSet ObjectRootsKey (objectRoots H s) s"
  by (simp add: syncObjectRoots_def SetLastObjectRoots_def objectRoots_def ObjectRootsSize_def)

lemma synced_sync [simp]: "synced H (syncObjectRoots H s)"
  by (simp add: synced_def syncObjectRoots_eq LastObjectRoots_def ObjectRootsSize_def
      objectRoots_other key_simps)

lemma synced_other:
  assumes "\<not> roster_key k" "k \<noteq> ObjectRootsKey"
  shows "synced H (memSet k v s) = synced H s" "synced H (memDelete k s) = synced H s"
  using assms by (simp_all add: synced_def LastObjectRoots_def objectRoots_other)

lemma synced_ops [simp]:
  "synced H (BitSet H i s)" "synced H (BitClear H i s)" "synced H (SetEB H i e s)"
  "synced H (ORMergeBitfield H b s)"
  by (simp_all add: BitSet_def BitClear_def SetEB_def ORMergeBitfield_def Let_def)

lemma synced_AllocateIndex: "synced H s \<Longrightarrow> synced H (snd (AllocateIndex H x s))"
  by (simp add: AllocateIndex_def Let_def split: option.split)

lemma synced_admitMember: "synced H s \<Longrightarrow> synced H (snd (admitMember H x w s))"
  using synced_AllocateIndex [of H s x] by (auto simp: admitMember_def Let_def split: prod.split)

end
