(* ===== verification/Lean_Power.thy ===== *)
theory Lean_Power
  imports Lean_Roster "HOL-Library.List_Lexorder"
begin

text \<open>
  \<open>x/leanval/keeper/power.go\<close> (the store part), the store part of \<open>membership.go\<close>, and
  \<open>genesis.go\<close>: the bonded set of a period, the validator updates handed to the consensus
  engine, JOIN and LEAV as they change the store, and the genesis import and export.

  \<open>bytes.Compare\<close> is the lexicographic order on byte lists.
\<close>

subsection \<open>Bonded set\<close>

record bonded_rec =
  br_accepted :: bool
  br_weight :: i64

definition encodeRec :: "bool \<Rightarrow> i64 \<Rightarrow> bytes" where
  "encodeRec accepted weight = (if accepted then 1 else 0) # PutI64 weight"

definition decodeRec :: "bytes \<Rightarrow> bonded_rec" where
  "decodeRec v =
    (if length v < 9 then \<lparr>br_accepted = False, br_weight = 0\<rparr>
     else \<lparr>br_accepted = (v ! 0 = 1), br_weight = GetI64 (take 8 (drop 1 v))\<rparr>)"

definition bonded_entry :: "nat \<Rightarrow> bytes \<times> bytes \<Rightarrow> SubjectPower" where
  "bonded_entry lp kv =
    (case kv of (key, value) \<Rightarrow>
      let rec = decodeRec value
      in \<lparr>pw_Subject = drop lp key,
          pw_Weight = (if br_accepted rec then br_weight rec else 0),
          pw_HasProof = br_accepted rec\<rparr>)"

definition BondedSet :: "store \<Rightarrow> u64 \<Rightarrow> SubjectPower list" where
  "BondedSet s period =
    (let pref = BondedPrefixForPeriod period
     in sort_key pw_Subject (map (bonded_entry (length pref)) (memIteratePrefix pref s)))"

definition PutSubject :: "u64 \<Rightarrow> bytes \<Rightarrow> i64 \<Rightarrow> store \<Rightarrow> store" where
  "PutSubject period subject claimedWeight s =
    memSet (BondedKey period subject) (encodeRec False claimedWeight) s"

definition AcceptProof :: "(bytes \<Rightarrow> bytes) \<Rightarrow> u64 \<Rightarrow> bytes \<Rightarrow> i64 \<Rightarrow> store \<Rightarrow> store" where
  "AcceptProof H period subject weight s =
    snd (admitMember H subject weight (memSet (BondedKey period subject) (encodeRec True weight) s))"

definition carry_rows :: "(bytes \<Rightarrow> bytes) \<Rightarrow> u64 \<Rightarrow> SubjectPower list \<Rightarrow> store \<Rightarrow> store" where
  "carry_rows H period prev s =
    fold (\<lambda>r s. if pw_HasProof r then AcceptProof H period (pw_Subject r) (pw_Weight r) s
                else PutSubject period (pw_Subject r) 0 s) prev s"

text \<open>The search of \<open>BondedSetOrCarry\<close>: the last non-empty earlier period, counting down.\<close>

fun last_bonded :: "store \<Rightarrow> nat \<Rightarrow> SubjectPower list option" where
  "last_bonded s 0 = None"
| "last_bonded s (Suc p) =
    (let prev = BondedSet s (word_of_nat p)
     in if length prev = 0 then last_bonded s p else Some prev)"

definition BondedSetOrCarry ::
  "(bytes \<Rightarrow> bytes) \<Rightarrow> u64 \<Rightarrow> store \<Rightarrow> SubjectPower list \<times> store" where
  "BondedSetOrCarry H period s =
    (let rows = BondedSet s period
     in if length rows > 0 \<or> period = 0 then (rows, s)
        else case last_bonded s (unat period) of
          Some prev \<Rightarrow> let s = carry_rows H period prev s in (BondedSet s period, s)
        | None \<Rightarrow> (rows, s))"

definition hasBondedOrPrior :: "store \<Rightarrow> u64 \<Rightarrow> bool" where
  "hasBondedOrPrior s period \<longleftrightarrow>
    length (BondedSet s period) > 0 \<or> last_bonded s (unat period) \<noteq> None"

subsection \<open>Validator updates\<close>

record ValidatorUpdate =
  vu_PubKey :: bytes
  vu_Power :: i64

definition lastPower :: "store \<Rightarrow> bytes \<Rightarrow> i64" where
  "lastPower s subject = GetI64 (getb s (LastPowerKey subject))"

definition existing_total :: "store \<Rightarrow> SubjectPower list \<Rightarrow> i64" where
  "existing_total s rows =
    fold (\<lambda>r t. if length (pw_Subject r) \<noteq> 32 then t
                else let prev = lastPower s (pw_Subject r)
                     in if sint prev > 0 then t + prev else t) rows 0"

text \<open>The weight announced for a row, when the row changes anything.\<close>

definition announced :: "bool \<Rightarrow> i64 \<Rightarrow> i64 \<Rightarrow> SubjectPower \<Rightarrow> i64 option" where
  "announced usingBits existing prev r =
    (if length (pw_Subject r) \<noteq> 32 then None
     else if usingBits \<and> (\<not> pw_HasProof r \<or> pw_Weight r = 0) then None
     else let w = pw_Weight r in
       if prev = 0 then Some (if sint existing > 0 \<and> sint w > 1 then 1 else w)
       else if prev = w then None
       else if sint w > sint prev then None
       else Some w)"

definition announce_rows ::
  "bool \<Rightarrow> i64 \<Rightarrow> SubjectPower list \<Rightarrow> ValidatorUpdate list \<times> store \<Rightarrow> ValidatorUpdate list \<times> store"
where
  "announce_rows usingBits existing rows st =
    fold (\<lambda>r (ups, s).
        case announced usingBits existing (lastPower s (pw_Subject r)) r of
          None \<Rightarrow> (ups, s)
        | Some w \<Rightarrow>
            (ups @ [\<lparr>vu_PubKey = pw_Subject r, vu_Power = w\<rparr>],
             memSet (LastPowerKey (pw_Subject r)) (PutI64 w) s)) rows st"

definition drop_missing ::
  "bytes list \<Rightarrow> (bytes \<times> bytes) list \<Rightarrow> ValidatorUpdate list \<times> store \<Rightarrow> ValidatorUpdate list \<times> store"
where
  "drop_missing seen rows st =
    fold (\<lambda>(key, value) (ups, s).
        let subj = drop 1 key in
        if subj \<in> set seen then (ups, s)
        else if GetI64 value = 0 then (ups, s)
        else (if length subj = 32 then ups @ [\<lparr>vu_PubKey = subj, vu_Power = 0\<rparr>] else ups,
              memSet (LastPowerKey subj) (PutI64 0) s)) rows st"

definition ValidatorUpdates ::
  "(bytes \<Rightarrow> bytes) \<Rightarrow> u64 \<Rightarrow> store \<Rightarrow> ValidatorUpdate list \<times> store" where
  "ValidatorUpdates H period s =
    (let usingBits = (length (getb s BitfieldKey) > 0 \<or> nextDepositIndex s > 0);
         (rows, s) = (if usingBits then (DebugSubjectsFromBits s, s)
                      else BondedSetOrCarry H period s);
         seen = map pw_Subject (filter (\<lambda>r. length (pw_Subject r) = 32) rows);
         existing = existing_total s rows;
         (ups, s) = announce_rows usingBits existing rows ([], s)
     in drop_missing seen (memIteratePrefix [LastUpdatesPrefix] s) (ups, s))"

subsection \<open>JOIN, LEAV\<close>

definition ApplyJoin :: "(bytes \<Rightarrow> bytes) \<Rightarrow> JoinBlob \<Rightarrow> store \<Rightarrow> lean_error + store" where
  "ApplyJoin H b s =
    (case ValidateJoin b of
       Inl e \<Rightarrow> Inl e
     | Inr _ \<Rightarrow>
         let s = memSet (PendingJoinKey (jb_Period b) (jb_Subject b)) (PutI64 (jb_Weight b)) s
         in Inr (AcceptProof H (jb_Period b) (jb_Subject b) (jb_Weight b) s))"

definition ApplyLeave :: "(bytes \<Rightarrow> bytes) \<Rightarrow> LeaveBlob \<Rightarrow> store \<Rightarrow> lean_error + store" where
  "ApplyLeave H b s =
    (case ValidateLeave b of
       Inl e \<Rightarrow> Inl e
     | Inr _ \<Rightarrow>
         let s = memSet (PendingLeaveKey (vb_Period b) (vb_Subject b)) [1] s;
             s = memDelete (BondedKey (vb_Period b) (vb_Subject b)) s
         in case depositIndexOf s (vb_Subject b) of
              None \<Rightarrow> Inr s
            | Some idx \<Rightarrow> Inr (SetEB H idx 0 (BitClear H idx s)))"

fun ProcessMembershipTxs :: "(bytes \<Rightarrow> bytes) \<Rightarrow> bytes list \<Rightarrow> store \<Rightarrow> (lean_error option) \<times> store" where
  "ProcessMembershipTxs H [] s = (None, s)"
| "ProcessMembershipTxs H (tx # txs) s =
    (case DecodeJoin tx of
       Some j \<Rightarrow>
         (case ApplyJoin H j s of Inl e \<Rightarrow> (Some e, s) | Inr s \<Rightarrow> ProcessMembershipTxs H txs s)
     | None \<Rightarrow>
         (case DecodeLeave tx of
            Some l \<Rightarrow>
              (case ApplyLeave H l s of Inl e \<Rightarrow> (Some e, s) | Inr s \<Rightarrow> ProcessMembershipTxs H txs s)
          | None \<Rightarrow> ProcessMembershipTxs H txs s))"

definition StoredMembershipTxs :: "store \<Rightarrow> u64 \<Rightarrow> bytes list" where
  "StoredMembershipTxs s period =
    concat (map (\<lambda>per. let pref = PendingJoinPrefixForPeriod per in
       map (\<lambda>(key, value). EncodeJoin \<lparr>jb_Period = per, jb_Subject = drop (length pref) key,
              jb_Weight = GetI64 value, jb_Proof = []\<rparr>) (memIteratePrefix pref s)) [period, 0])"

definition dropUnlisted :: "u64 \<Rightarrow> bytes list \<Rightarrow> store \<Rightarrow> store" where
  "dropUnlisted period listed s =
    (let pref = BondedPrefixForPeriod period;
         keys = map fst (filter (\<lambda>(key, v). let subj = drop (length pref) key in
                   subj \<notin> set listed \<and>
                   memGet s (PendingJoinKey period subj) = None \<and>
                   memGet s (PendingJoinKey 0 subj) = None) (memIteratePrefix pref s))
     in fold memDelete keys s)"

subsection \<open>The store operations refine the abstract roster\<close>

lemma roster_inv_same:
  assumes "roster_inv t" "same_roster s t" "store_ok s" shows "roster_inv s"
  using assms roster_invD(6,7) [OF assms(1)] same_rosterD [OF assms(2)]
  by (intro roster_inv_transfer [OF assms(1,3)]) auto

lemma roster_same:
  assumes "roster_inv t" "same_roster s t" "store_ok s" shows "roster s = roster t"
proof (rule nth_equalityI)
  note E = same_rosterD [OF assms(2)]
  note inv = roster_inv_same [OF assms]
  fix n assume "n < length (roster s)"
  then have n: "n < unat (nextDepositIndex t)" by (simp add: E)
  then show "roster s ! n = roster t ! n"
    using subjectByIndex_cong [OF assms(1) inv E(1) E(3), of "word_of_nat n"] unat_less_next [OF n]
    by (simp add: roster_nth member_at_def E)
qed (simp add: same_rosterD [OF assms(2)])

lemma decodeRec_encodeRec [wire_simps]:
  "decodeRec (encodeRec a w) = \<lparr>br_accepted = a, br_weight = w\<rparr>"
  by (simp add: decodeRec_def encodeRec_def wire_simps)

lemma AcceptProof_spec:
  assumes inv: "roster_inv s" and x: "x \<noteq> []" "has_room s x"
  shows "roster_inv (AcceptProof H p x w s)" "roster (AcceptProof H p x w s) = spec_admit x w (roster s)"
proof -
  let ?t = "memSet (BondedKey p x) (encodeRec True w) s"
  have sr: "same_roster ?t s" by (simp add: frame_simps key_simps)
  have ok: "store_ok ?t" using roster_invD(1) [OF inv] by simp
  note inv' = roster_inv_same [OF inv sr ok] and r' = roster_same [OF inv sr ok]
  have room: "has_room ?t x" using x(2) same_rosterD [OF sr] by (simp add: has_room_def)
  obtain i s' where a: "admitMember H x w ?t = (i, s')" by fastforce
  show "roster_inv (AcceptProof H p x w s)" "roster (AcceptProof H p x w s) = spec_admit x w (roster s)"
    using admitMember_spec [OF inv' x(1) room a] a r' by (simp_all add: AcceptProof_def)
qed

lemma ApplyJoin_spec:
  assumes inv: "roster_inv s" and room: "has_room s (jb_Subject b)" and a: "ApplyJoin H b s = Inr s'"
  shows "roster_inv s'" "roster s' = spec_admit (jb_Subject b) (jb_Weight b) (roster s)"
proof -
  let ?t = "memSet (PendingJoinKey (jb_Period b) (jb_Subject b)) (PutI64 (jb_Weight b)) s"
  have sr: "same_roster ?t s" by (simp add: frame_simps key_simps)
  have ok: "store_ok ?t" using roster_invD(1) [OF inv] by simp
  note inv' = roster_inv_same [OF inv sr ok] and r' = roster_same [OF inv sr ok]
  have room': "has_room ?t (jb_Subject b)" using room same_rosterD [OF sr] by (simp add: has_room_def)
  have ne: "jb_Subject b \<noteq> []" and s': "s' = AcceptProof H (jb_Period b) (jb_Subject b) (jb_Weight b) ?t"
    using a by (auto simp: ApplyJoin_def ValidateJoin_def Let_def split: if_splits)
  show "roster_inv s'" "roster s' = spec_admit (jb_Subject b) (jb_Weight b) (roster s)"
    using AcceptProof_spec [OF inv' ne room'] r' by (simp_all add: s')
qed

lemma spec_leave_absent: "x \<notin> m_subject ` set ms \<Longrightarrow> spec_leave x ms = ms"
  unfolding spec_leave_def on_member_def by (rule map_idI) auto

lemma ApplyLeave_spec:
  assumes inv: "roster_inv s" and a: "ApplyLeave H b s = Inr s'"
  shows "roster_inv s'" "roster s' = spec_leave (vb_Subject b) (roster s)"
    "nextDepositIndex s' = nextDepositIndex s" "depositIndexOf s' = depositIndexOf s"
proof -
  let ?x = "vb_Subject b"
  let ?t = "memDelete (BondedKey (vb_Period b) ?x) (memSet (PendingLeaveKey (vb_Period b) ?x) [1] s)"
  have sr: "same_roster ?t s" by (simp add: frame_simps key_simps)
  have ok: "store_ok ?t" using roster_invD(1) [OF inv] by simp
  note inv' = roster_inv_same [OF inv sr ok] and r' = roster_same [OF inv sr ok] and E = same_rosterD [OF sr]
  have s': "s' = (case depositIndexOf ?t ?x of None \<Rightarrow> ?t | Some idx \<Rightarrow> SetEB H idx 0 (BitClear H idx ?t))"
    using a by (auto simp: ApplyLeave_def ValidateLeave_def Let_def split: if_splits option.splits)
  have "roster_inv s' \<and> roster s' = spec_leave ?x (roster s) \<and> nextDepositIndex s' = nextDepositIndex s
      \<and> depositIndexOf s' = depositIndexOf s"
  proof (cases "depositIndexOf ?t ?x")
    case None
    then have "?x \<notin> m_subject ` set (roster s)" using roster_subjects [OF inv] E by auto
    then show ?thesis using None inv' r' E by (simp add: s' spec_leave_absent)
  next
    case (Some i)
    then have s: "s' = SetEB H i 0 (BitClear H i ?t)" by (simp add: s')
    have "store_ok s'" using ok by (simp add: s)
    then have "roster_inv s' \<and> roster s' = on_member ?x (\<lambda>m. m\<lparr>m_active := False, m_eb := eb_entry [0]\<rparr>) (roster ?t)"
      using roster_point_update [OF inv' Some, of s' False "[0]"] by (simp add: s)
    then show ?thesis using r' E by (simp add: s spec_leave_def eb_entry_def)
  qed
  then show "roster_inv s'" "roster s' = spec_leave ?x (roster s)" 
    "nextDepositIndex s' = nextDepositIndex s" "depositIndexOf s' = depositIndexOf s" by auto
qed

subsection \<open>Validator updates\<close>

lemma lastPower_memSet [simp]:
  "lastPower (memSet (LastPowerKey y) (PutI64 w) s) x = (if x = y then w else lastPower s x)"
  by (simp add: lastPower_def key_simps wire_simps)

lemma drop1_LastPowerKey [simp]:
  "drop (Suc 0) (LastPowerKey x) = x" "length (LastPowerKey x) = Suc (length x)"
  by (simp_all add: LastPowerKey_def)

definition row_update :: "bool \<Rightarrow> i64 \<Rightarrow> store \<Rightarrow> SubjectPower \<Rightarrow> ValidatorUpdate option" where
  "row_update ub ex s r =
    map_option (\<lambda>w. \<lparr>vu_PubKey = pw_Subject r, vu_Power = w\<rparr>)
      (announced ub ex (lastPower s (pw_Subject r)) r)"

text \<open>Only the last-power entries change.\<close>

definition other_entries :: "store \<Rightarrow> store \<Rightarrow> bool" where
  "other_entries s t \<longleftrightarrow> (\<forall>k. \<not> (\<exists>x. k = LastPowerKey x) \<longrightarrow> memGet s k = memGet t k)"

lemma other_entries_refl [simp]: "other_entries s s"
  by (simp add: other_entries_def)

lemma other_entries_memSet [simp]: "other_entries u (memSet (LastPowerKey x) v s) = other_entries u s"
  by (auto simp: other_entries_def)

text \<open>What the loop over the rows announces, and the power map it leaves.\<close>

definition announced_power :: "bool \<Rightarrow> i64 \<Rightarrow> store \<Rightarrow> SubjectPower list \<Rightarrow> bytes \<Rightarrow> i64" where
  "announced_power ub ex s rows x =
    (case find (\<lambda>r. pw_Subject r = x) rows of
       None \<Rightarrow> lastPower s x
     | Some r \<Rightarrow> (case row_update ub ex s r of None \<Rightarrow> lastPower s x | Some u \<Rightarrow> vu_Power u))"

lemma announce_rows_spec:
  "distinct (map pw_Subject rows) \<Longrightarrow> announce_rows ub ex rows (ups, s) = (ups', s') \<Longrightarrow>
   ups' = ups @ List.map_filter (row_update ub ex s) rows \<and>
   lastPower s' = announced_power ub ex s rows \<and>
   other_entries s' s \<and> (store_ok s \<longrightarrow> store_ok s')"
proof (induction rows arbitrary: ups s)
  case Nil
  then show ?case by (simp add: announce_rows_def map_filter_simps announced_power_def fun_eq_iff)
next
  case (Cons r rows)
  let ?x = "pw_Subject r"
  define t where "t = (case row_update ub ex s r of None \<Rightarrow> s | Some u \<Rightarrow> memSet (LastPowerKey ?x) (PutI64 (vu_Power u)) s)"
  define v where "v = (case row_update ub ex s r of None \<Rightarrow> ups | Some u \<Rightarrow> ups @ [u])"
  have "announce_rows ub ex rows (v, t) = (ups', s')"
    using Cons.prems(2) by (auto simp: announce_rows_def t_def v_def row_update_def split: option.splits)
  note IH = Cons.IH [OF _ this]
  have lp: "lastPower t y = (if y = ?x then (case row_update ub ex s r of None \<Rightarrow> lastPower s ?x | Some u \<Rightarrow> vu_Power u) else lastPower s y)" for y
    by (auto simp: t_def split: option.split)
  have ne: "pw_Subject q \<noteq> ?x" if "q \<in> set rows" for q
    using Cons.prems(1) imageI [OF that, of pw_Subject] by auto
  have ru: "row_update ub ex t q = row_update ub ex s q" if "q \<in> set rows" for q
    using lp [of "pw_Subject q"] ne [OF that] by (simp add: row_update_def)
  have "announced_power ub ex t rows y = announced_power ub ex s (r # rows) y" for y
  proof (cases "y = ?x")
    case True
    then have "find (\<lambda>r. pw_Subject r = y) rows = None" using ne by (auto simp: find_None_iff)
    then show ?thesis using True lp [of y] by (simp add: announced_power_def)
  next
    case False
    have "row_update ub ex t q = row_update ub ex s q"
      if "find (\<lambda>r. pw_Subject r = y) rows = Some q" for q
      using ru find_SomeD [OF that] by blast
    then show ?thesis
      using False lp [of y] by (cases "find (\<lambda>r. pw_Subject r = y) rows") (auto simp: announced_power_def split: option.split)
  qed
  moreover have "v @ List.map_filter (row_update ub ex t) rows = ups @ List.map_filter (row_update ub ex s) (r # rows)"
    using map_filter_cong [of rows, OF ru] by (simp add: v_def map_filter_simps split: option.split)
  ultimately show ?case
    using IH Cons.prems(1) by (auto simp: t_def fun_eq_iff split: option.splits)
qed

lemma drop_missing_spec:
  "distinct (map fst rows) \<Longrightarrow>
   (\<And>k v. (k, v) \<in> set rows \<Longrightarrow> (\<exists>x. k = LastPowerKey x) \<and> getb s k = v) \<Longrightarrow>
   drop_missing seen rows (ups, s) = (ups', s') \<Longrightarrow>
   ups' = ups @ map (\<lambda>(k, v). \<lparr>vu_PubKey = drop 1 k, vu_Power = 0\<rparr>)
      (filter (\<lambda>(k, v). drop 1 k \<notin> set seen \<and> GetI64 v \<noteq> 0 \<and> length (drop 1 k) = 32) rows) \<and>
   lastPower s' =
     (\<lambda>x. if x \<notin> set seen \<and> LastPowerKey x \<in> fst ` set rows then 0 else lastPower s x) \<and>
   other_entries s' s \<and> (store_ok s \<longrightarrow> store_ok s')"
proof (induction rows arbitrary: ups s)
  case Nil
  then show ?case by (simp add: drop_missing_def)
next
  case (Cons kv rows)
  obtain x where kv: "kv = (LastPowerKey x, getb s (LastPowerKey x))"
    using Cons.prems(2) [of "fst kv" "snd kv"] by (cases kv) auto
  let ?v = "getb s (LastPowerKey x)"
  define t where "t = (if x \<notin> set seen \<and> GetI64 ?v \<noteq> 0 then memSet (LastPowerKey x) (PutI64 0) s else s)"
  define u where "u = (if x \<notin> set seen \<and> GetI64 ?v \<noteq> 0 \<and> length x = 32 then ups @ [\<lparr>vu_PubKey = x, vu_Power = 0\<rparr>] else ups)"
  have step: "drop_missing seen rows (u, t) = (ups', s')"
    using Cons.prems(3) by (simp add: drop_missing_def kv Let_def t_def u_def split: if_splits)
  have ent: "(\<exists>x. k = LastPowerKey x) \<and> getb t k = v" if "(k, v) \<in> set rows" for k v
  proof -
    have "k \<noteq> LastPowerKey x" using Cons.prems(1) that by (force simp: kv)
    moreover have "(\<exists>x. k = LastPowerKey x) \<and> getb s k = v"
      using Cons.prems(2) [of k v] that by simp
    ultimately show ?thesis by (simp add: t_def)
  qed
  have lp: "lastPower t y = (if y = x \<and> x \<notin> set seen then 0 else lastPower s y)" for y
    by (auto simp: t_def simp flip: lastPower_def)
  have "distinct (map fst rows)" using Cons.prems(1) by simp
  note IH = Cons.IH [OF this ent step]
  show ?case
  proof (intro conjI)
    show "lastPower s' = (\<lambda>y. if y \<notin> set seen \<and> LastPowerKey y \<in> fst ` set (kv # rows) then 0 else lastPower s y)"
      using IH lp by (auto simp: kv key_simps fun_eq_iff)
    show "other_entries s' s" "store_ok s \<longrightarrow> store_ok s'"
      using IH by (auto simp: t_def split: if_splits)
  qed (use IH in \<open>simp add: kv u_def\<close>)
qed

definition bits_live :: "store \<Rightarrow> bool" where
  "bits_live s \<longleftrightarrow> length (getb s BitfieldKey) > 0 \<or> nextDepositIndex s > 0"

text \<open>The bit-set members with a consensus key.\<close>

definition seen_subjects :: "store \<Rightarrow> bytes list" where
  "seen_subjects s = filter (\<lambda>x. length x = 32) (map pw_Subject (DebugSubjectsFromBits s))"

definition existing_power :: "store \<Rightarrow> i64" where
  "existing_power s = existing_total s (DebugSubjectsFromBits s)"

lemma other_entries_roster: "other_entries s t \<Longrightarrow> same_roster s t"
  unfolding other_entries_def same_roster_def using roster_key_simps(9) by metis

lemma other_entries_trans: "other_entries s t \<Longrightarrow> other_entries t u \<Longrightarrow> other_entries s u"
  by (simp add: other_entries_def)

lemma HasPrefix_LastPower_iff: "HasPrefix k [LastUpdatesPrefix] \<longleftrightarrow> (\<exists>x. k = LastPowerKey x)"
  by (auto simp: HasPrefix_iff LastPowerKey_def)

lemma lastPower_missing: "store_ok s \<Longrightarrow> LastPowerKey x \<notin> fst ` set (memIteratePrefix [LastUpdatesPrefix] s) \<Longrightarrow> lastPower s x = 0"
proof -
  assume ok: "store_ok s" and n: "LastPowerKey x \<notin> fst ` set (memIteratePrefix [LastUpdatesPrefix] s)"
  have "memGet s (LastPowerKey x) = None"
  proof (rule ccontr)
    assume "memGet s (LastPowerKey x) \<noteq> None"
    then obtain v where "memGet s (LastPowerKey x) = Some v" by blast
    then have "(LastPowerKey x, v) \<in> set (memIteratePrefix [LastUpdatesPrefix] s)"
      using mem.iter_set [OF ok] by (auto simp: HasPrefix_LastPower_iff)
    then show False using n by force
  qed
  then show ?thesis by (simp add: lastPower_def getb_def GetI64_def GetU64_def)
qed

lemma row_update_None_length: "length (pw_Subject r) \<noteq> 32 \<Longrightarrow> row_update ub ex s r = None"
  by (simp add: row_update_def announced_def)

lemma announced_power_unseen:
  "x \<notin> pw_Subject ` set rows \<Longrightarrow> announced_power ub ex s rows x = lastPower s x"
  by (auto simp: announced_power_def split: option.split dest!: find_SomeD)

lemma ValidatorUpdates_bits:
  assumes inv: "roster_inv s" and live: "bits_live s" and V: "ValidatorUpdates H p s = (ups, s')"
  shows "lastPower s' = (\<lambda>x. if x \<in> set (seen_subjects s)
      then announced_power True (existing_power s) s (DebugSubjectsFromBits s) x else 0)" (is ?L)
    and "other_entries s' s" "store_ok s'"
    and "\<exists>gone. ups = List.map_filter (row_update True (existing_power s) s) (DebugSubjectsFromBits s) @
        map (\<lambda>x. \<lparr>vu_PubKey = x, vu_Power = 0\<rparr>) gone \<and> distinct gone \<and>
        set gone = {x. x \<notin> set (seen_subjects s) \<and> lastPower s x \<noteq> 0 \<and> length x = 32}" (is "\<exists>gone. ?G gone")
proof -
  let ?rows = "DebugSubjectsFromBits s" and ?ex = "existing_power s" and ?seen = "seen_subjects s"
  obtain ups1 s1 where A: "announce_rows True ?ex ?rows ([], s) = (ups1, s1)" by fastforce
  note A' = announce_rows_spec [OF DebugSubjects_distinct [OF inv] A]
  have ok1: "store_ok s1" using A' roster_invD(1) [OF inv] by simp
  let ?it = "memIteratePrefix [LastUpdatesPrefix] s1"
  have seen: "map pw_Subject (filter (\<lambda>r. length (pw_Subject r) = 32) ?rows) = ?seen"
    by (simp add: seen_subjects_def filter_map comp_def)
  have D: "drop_missing ?seen ?it (ups1, s1) = (ups, s')"
    using V live A by (simp add: ValidatorUpdates_def bits_live_def Let_def existing_power_def seen)
  have ent: "(\<exists>x. k = LastPowerKey x) \<and> getb s1 k = v" if "(k, v) \<in> set ?it" for k v
    using mem.iter_get [OF ok1 that] by (auto simp: HasPrefix_LastPower_iff getb_def)
  note D' = drop_missing_spec [OF mem.iter_distinct [OF ok1] ent D]
  show "other_entries s' s" using A' D' other_entries_trans by blast
  show "store_ok s'" using D' ok1 by blast
  show ?L using A' D' lastPower_missing [OF ok1] by (auto simp: fun_eq_iff)
  have unseen: "lastPower s1 x = lastPower s x" if "x \<notin> set ?seen" "length x = 32" for x
    using A' that by (auto simp: announced_power_unseen seen_subjects_def)
  define gone where "gone = map (drop 1 \<circ> fst) (filter (\<lambda>(k, v). drop 1 k \<notin> set ?seen \<and> GetI64 v \<noteq> 0 \<and> length (drop 1 k) = 32) ?it)"
  have "distinct gone"
    unfolding gone_def using mem.iter_distinct [OF ok1] ent
    by (auto simp: distinct_map inj_on_def) (metis drop1_LastPowerKey(1))+
  moreover have "set gone = {x. x \<notin> set ?seen \<and> lastPower s x \<noteq> 0 \<and> length x = 32}"
  proof (intro equalityI subsetI)
    fix x assume "x \<in> set gone"
    then obtain k v where kv: "(k, v) \<in> set ?it" "x = drop 1 k" "x \<notin> set ?seen" "GetI64 v \<noteq> 0" "length x = 32"
      by (auto simp: gone_def)
    moreover have "lastPower s1 x = GetI64 v" using ent [OF kv(1)] kv(2) by (auto simp: lastPower_def)
    ultimately show "x \<in> {x. x \<notin> set ?seen \<and> lastPower s x \<noteq> 0 \<and> length x = 32}" using unseen by auto
  next
    fix x assume x: "x \<in> {x. x \<notin> set ?seen \<and> lastPower s x \<noteq> 0 \<and> length x = 32}"
    then have "lastPower s1 x \<noteq> 0" using unseen by auto
    then obtain v where "(LastPowerKey x, v) \<in> set ?it" using lastPower_missing [OF ok1] by force
    moreover have "lastPower s1 x = GetI64 v" using ent [OF calculation] by (auto simp: lastPower_def)
    ultimately show "x \<in> set gone" using x \<open>lastPower s1 x \<noteq> 0\<close> by (force simp: gone_def)
  qed
  moreover have "ups = List.map_filter (row_update True ?ex s) ?rows @ map (\<lambda>x. \<lparr>vu_PubKey = x, vu_Power = 0\<rparr>) gone"
    using A' D' by (simp add: gone_def comp_def case_prod_beta)
  ultimately show "\<exists>gone. ?G gone" by blast
qed

lemma announced_no_raise:
  "announced ub ex prev r = Some w \<Longrightarrow> prev \<noteq> 0 \<Longrightarrow> sint w < sint prev"
  by (auto simp: announced_def Let_def less_le split: if_splits)

lemma announced_cap:
  "announced ub ex 0 r = Some w \<Longrightarrow> sint ex > 0 \<Longrightarrow> sint w \<le> 1"
  by (auto simp: announced_def Let_def split: if_splits)

lemma announced_settled:
  assumes "announced True ex prev r = Some w" "sint (pw_Weight r) \<ge> 0"
  shows "announced True ex' w r = None"
  using assms by (auto simp: announced_def Let_def split: if_splits)

lemma announced_None_settled:
  "announced True ex prev r = None \<Longrightarrow> announced True ex' prev r = None"
  by (auto simp: announced_def Let_def split: if_splits)

lemma announced_power_cases:
  obtains "announced_power ub ex s rows x = lastPower s x"
  | r w where "r \<in> set rows" "pw_Subject r = x" "announced ub ex (lastPower s x) r = Some w"
      "announced_power ub ex s rows x = w"
proof (cases "find (\<lambda>r. pw_Subject r = x) rows")
  case None
  then show ?thesis using that(1) by (simp add: announced_power_def)
next
  case (Some r)
  note r = find_SomeD [OF Some]
  then show ?thesis
    using that(1) that(2) [of r] Some
    by (cases "announced ub ex (lastPower s x) r") (auto simp: announced_power_def row_update_def)
qed

text \<open>What the consensus engine does with a list of updates.\<close>

definition apply_updates :: "(bytes \<Rightarrow> i64) \<Rightarrow> ValidatorUpdate list \<Rightarrow> bytes \<Rightarrow> i64" where
  "apply_updates pw ups = fold (\<lambda>u pw. pw(vu_PubKey u := vu_Power u)) ups pw"

lemma apply_updates_append: "apply_updates pw (us @ vs) = apply_updates (apply_updates pw us) vs"
  by (simp add: apply_updates_def)

lemma apply_updates_zero:
  "apply_updates pw (map (\<lambda>x. \<lparr>vu_PubKey = x, vu_Power = 0\<rparr>) gone) x = (if x \<in> set gone then 0 else pw x)"
  by (induction gone arbitrary: pw) (auto simp: apply_updates_def)

lemma apply_updates_rows:
  "distinct (map pw_Subject rows) \<Longrightarrow>
   apply_updates pw (List.map_filter (row_update ub ex s) rows) x =
    (case find (\<lambda>r. pw_Subject r = x) rows of
       None \<Rightarrow> pw x
     | Some r \<Rightarrow> (case row_update ub ex s r of None \<Rightarrow> pw x | Some u \<Rightarrow> vu_Power u))"
proof (induction rows arbitrary: pw)
  case (Cons r rows)
  then have "find (\<lambda>q. pw_Subject q = pw_Subject r) rows = None"
    by (intro find_None_distinct) simp
  then show ?case
    using Cons by (auto simp: map_filter_simps apply_updates_def row_update_def split: option.splits)
qed (simp add: apply_updates_def map_filter_simps)

lemma announce_rows_nothing:
  "(\<And>r. r \<in> set rows \<Longrightarrow> announced ub ex (lastPower s (pw_Subject r)) r = None) \<Longrightarrow>
   announce_rows ub ex rows (ups, s) = (ups, s)"
  by (induction rows) (auto simp: announce_rows_def)

lemma drop_missing_nothing:
  "(\<And>k v. (k, v) \<in> set rows \<Longrightarrow> drop 1 k \<in> set seen \<or> GetI64 v = 0) \<Longrightarrow>
   drop_missing seen rows (ups, s) = (ups, s)"
  by (induction rows) (auto simp: drop_missing_def Let_def split: prod.split)

lemma DebugSubjects_weight: "r \<in> set (DebugSubjectsFromBits s) \<Longrightarrow> sint (pw_Weight r) \<ge> 0"
  by (auto simp: DebugSubjectsFromBits_def Let_def)

lemma DebugSubjects_same:
  assumes "roster_inv s" "same_roster t s" "store_ok t"
  shows "DebugSubjectsFromBits t = DebugSubjectsFromBits s"
  using roster_inv_same [OF assms] roster_same [OF assms] assms(1)
  by (simp add: DebugSubjectsFromBits_roster)

subsection \<open>A concrete roster\<close>

text \<open>One member, enrolled into an empty store, with a concrete hash; the examples use it.\<close>


definition demo_hash :: "bytes \<Rightarrow> bytes" where "demo_hash b = copy_pad 32 b"
definition alice :: bytes where "alice = replicate 32 1"
definition bob :: bytes where "bob = replicate 32 2"
definition demo_store :: store where "demo_store = AcceptProof demo_hash 0 alice 10 NewMemStore"

lemma roster_inv_New: "roster_inv NewMemStore"
  by (auto simp: roster_inv_def nextDepositIndex_def depositIndexOf_def BitIsSet_def Bitfield_def EBraw_def
      GetU32_def bitGet_iff nth_Cons split: nat.splits)

lemma roster_New: "roster NewMemStore = []"
  by (simp add: roster_def nextDepositIndex_def GetU32_def)

lemma has_room_New: "has_room NewMemStore x"
  by (simp add: has_room_def nextDepositIndex_def GetU32_def)

lemma demo_inv: "roster_inv demo_store"
  unfolding demo_store_def by (rule AcceptProof_spec(1)) (simp_all add: roster_inv_New has_room_New alice_def)

lemma demo_roster: "roster demo_store = [\<lparr>m_subject = alice, m_active = True, m_eb = Some 10\<rparr>]"
proof -
  have "roster demo_store = spec_admit alice 10 []"
    unfolding demo_store_def
    using AcceptProof_spec(2) [OF roster_inv_New _ has_room_New, of alice] by (simp add: roster_New alice_def)
  then show ?thesis by (simp add: spec_admit_def spec_enrol_def on_member_def ebFromWeight_def)
qed

lemma demo_next: "nextDepositIndex demo_store = 1"
  using arg_cong [OF demo_roster, of length] by (simp add: word_unat_eq_iff)

lemma demo_debug: "DebugSubjectsFromBits demo_store = [\<lparr>pw_Subject = alice, pw_Weight = 10, pw_HasProof = True\<rparr>]"
  by (simp add: DebugSubjectsFromBits_roster [OF demo_inv] demo_roster)

lemma demo_live: "bits_live demo_store"
  by (simp add: bits_live_def demo_next)

subsection \<open>Validator updates as a diff\<close>

lemma ValidatorUpdates_applied:
  assumes "roster_inv s" "bits_live s" "ValidatorUpdates H p s = (ups, s')" "length x = 32"
  shows "apply_updates (lastPower s) ups x = lastPower s' x"
proof -
  note V = ValidatorUpdates_bits [OF assms(1-3)]
  obtain gone where ups: "ups = List.map_filter (row_update True (existing_power s) s) (DebugSubjectsFromBits s) @
        map (\<lambda>x. \<lparr>vu_PubKey = x, vu_Power = 0\<rparr>) gone"
    and gone: "set gone = {x. x \<notin> set (seen_subjects s) \<and> lastPower s x \<noteq> 0 \<and> length x = 32}"
    using V(4) by blast
  have rows: "apply_updates (lastPower s) (List.map_filter (row_update True (existing_power s) s) (DebugSubjectsFromBits s)) x
      = announced_power True (existing_power s) s (DebugSubjectsFromBits s) x"
    using apply_updates_rows [OF DebugSubjects_distinct [OF assms(1)]] by (simp add: announced_power_def)
  have "x \<notin> pw_Subject ` set (DebugSubjectsFromBits s)" if "x \<notin> set (seen_subjects s)"
    using that assms(4) by (auto simp: seen_subjects_def)
  then show ?thesis
    using announced_power_unseen assms(4) by (auto simp: ups apply_updates_append apply_updates_zero rows V(1) gone)
qed

lemma ValidatorUpdates_other_keys:
  assumes "roster_inv s" "bits_live s" "ValidatorUpdates H p s = (ups, s')" "length x \<noteq> 32"
  shows "apply_updates pw ups x = pw x" "lastPower s' x = 0"
proof -
  note V = ValidatorUpdates_bits [OF assms(1-3)]
  obtain gone where ups: "ups = List.map_filter (row_update True (existing_power s) s) (DebugSubjectsFromBits s) @
        map (\<lambda>x. \<lparr>vu_PubKey = x, vu_Power = 0\<rparr>) gone"
    and gone: "set gone = {x. x \<notin> set (seen_subjects s) \<and> lastPower s x \<noteq> 0 \<and> length x = 32}"
    using V(4) by blast
  have "row_update True (existing_power s) s r = None" if "pw_Subject r = x" for r
    using row_update_None_length assms(4) that by blast
  then show "apply_updates pw ups x = pw x"
    using apply_updates_rows [OF DebugSubjects_distinct [OF assms(1)]] assms(4)
    by (auto simp: ups apply_updates_append apply_updates_zero gone find_Some_iff split: option.split)
  show "lastPower s' x = 0" using V(1) assms(4) by (simp add: seen_subjects_def)
qed

lemma not_ObjectRootsKey [key_simps]:
  "BondedKey p x \<noteq> ObjectRootsKey" "PendingJoinKey p x \<noteq> ObjectRootsKey"
  "PendingLeaveKey p x \<noteq> ObjectRootsKey" "LastPowerKey x \<noteq> ObjectRootsKey"
  "OwnsValsetKey \<noteq> ObjectRootsKey" "PeriodParamKey \<noteq> ObjectRootsKey"
  by (simp_all add: key_defs prefix_defs)

lemma synced_ValidatorUpdates:
  assumes "bits_live s" "synced H s" "ValidatorUpdates H p s = (ups, s')"
  shows "synced H s'"
proof -
  have a: "synced H (snd (announce_rows ub ex rows (us, t)))" if "synced H t" for ub ex rows us t
    using that unfolding announce_rows_def
    by (induction rows arbitrary: us t) (auto simp: synced_other key_simps split: option.split)
  have d: "synced H (snd (drop_missing seen rows (us, t)))" if "synced H t" for seen rows us t
    using that unfolding drop_missing_def
    by (induction rows arbitrary: us t) (auto simp: synced_other key_simps Let_def)
  have "ValidatorUpdates H p s = drop_missing (map pw_Subject (filter (\<lambda>r. length (pw_Subject r) = 32) (DebugSubjectsFromBits s)))
      (memIteratePrefix [LastUpdatesPrefix] (snd (announce_rows True (existing_power s) (DebugSubjectsFromBits s) ([], s))))
      (announce_rows True (existing_power s) (DebugSubjectsFromBits s) ([], s))"
    using assms(1) by (simp add: ValidatorUpdates_def bits_live_def existing_power_def Let_def split: prod.split)
  then show ?thesis
    using a [OF assms(2), of True "existing_power s" "DebugSubjectsFromBits s" "[]"] d assms(3)
    by (metis prod.collapse snd_conv)
qed

subsection \<open>Properties of the validator updates\<close>



text \<open>C20. The power of a validator is never raised, a validator admitted while the set already has
  power starts with power at most 1, and a subject whose bit is not set has no power left.
\<close>

theorem ValidatorUpdates_bounded:
  assumes "roster_inv s" "bits_live s" "ValidatorUpdates H p s = (ups, s')"
  shows "(sint (lastPower s x) > 0 \<longrightarrow> sint (lastPower s' x) \<le> sint (lastPower s x)) \<and>
    (lastPower s x = 0 \<and> sint (existing_power s) > 0 \<longrightarrow> sint (lastPower s' x) \<le> 1) \<and>
    (x \<notin> pw_Subject ` set (DebugSubjectsFromBits s) \<longrightarrow> lastPower s' x = 0)"
proof -
  let ?a = "announced_power True (existing_power s) s (DebugSubjectsFromBits s) x"
  have "(sint (lastPower s x) > 0 \<longrightarrow> sint ?a \<le> sint (lastPower s x)) \<and>
    (lastPower s x = 0 \<and> sint (existing_power s) > 0 \<longrightarrow> sint ?a \<le> 1)"
    by (rule announced_power_cases [of True "existing_power s" s "DebugSubjectsFromBits s" x])
      (auto dest: announced_cap announced_no_raise)
  then show ?thesis
    using ValidatorUpdates_bits(1) [OF assms] by (auto simp: seen_subjects_def)
qed

theorem ValidatorUpdates_bounded_witness:
  "lastPower (snd (ValidatorUpdates demo_hash 0 demo_store)) bob = 0"
  using ValidatorUpdates_bounded [OF demo_inv demo_live, of demo_hash 0 _ _ bob]
  by (cases "ValidatorUpdates demo_hash 0 demo_store") (auto simp: demo_debug alice_def bob_def)

text \<open>A second call with nothing in between announces nothing and changes nothing: the updates
  are emitted once.
\<close>

theorem ValidatorUpdates_idempotent:
  assumes "roster_inv s" "bits_live s" "ValidatorUpdates H p s = (ups, s')"
  shows "ValidatorUpdates H q s' = ([], s')"
proof -
  note V = ValidatorUpdates_bits [OF assms]
  let ?rows = "DebugSubjectsFromBits s" and ?ex = "existing_power s"
  have sr: "same_roster s' s" using V(2) by (rule other_entries_roster)
  have rows: "DebugSubjectsFromBits s' = ?rows" by (rule DebugSubjects_same [OF assms(1) sr V(3)])
  have live: "bits_live s'"
    using assms(2) same_rosterD [OF sr] sr by (auto simp: bits_live_def same_roster_def getb_def key_simps)
  have none: "announced True ex (lastPower s' (pw_Subject r)) r = None" if "r \<in> set ?rows" for ex r
  proof (cases "length (pw_Subject r) = 32")
    case True
    then have p: "lastPower s' (pw_Subject r) = announced_power True ?ex s ?rows (pw_Subject r)"
      using that V(1) by (simp add: seen_subjects_def)
    have r: "find (\<lambda>q. pw_Subject q = pw_Subject r) ?rows = Some r"
      using that DebugSubjects_distinct [OF assms(1)] by (simp add: find_distinct)
    show ?thesis
    proof (cases "announced True ?ex (lastPower s (pw_Subject r)) r")
      case None
      then have "lastPower s' (pw_Subject r) = lastPower s (pw_Subject r)"
        by (simp add: p announced_power_def r row_update_def)
      then show ?thesis using announced_None_settled [OF None] by simp
    next
      case (Some w)
      then have "lastPower s' (pw_Subject r) = w" by (simp add: p announced_power_def r row_update_def)
      then show ?thesis using announced_settled [OF Some DebugSubjects_weight [OF that]] by simp
    qed
  qed (simp add: announced_def)
  have "announce_rows True (existing_total s' ?rows) ?rows ([], s') = ([], s')"
    by (rule announce_rows_nothing) (rule none)
  moreover have "drop_missing (seen_subjects s) (memIteratePrefix [LastUpdatesPrefix] s') ([], s') = ([], s')"
  proof (rule drop_missing_nothing)
    fix k v assume "(k, v) \<in> set (memIteratePrefix [LastUpdatesPrefix] s')"
    then obtain x where "k = LastPowerKey x" "getb s' k = v"
      using mem.iter_get [OF V(3), of k v "[LastUpdatesPrefix]"]
      by (auto simp: HasPrefix_LastPower_iff getb_def)
    then show "drop 1 k \<in> set (seen_subjects s) \<or> GetI64 v = 0"
      using V(1) by (auto simp: lastPower_def fun_eq_iff split: if_splits)
  qed
  ultimately show ?thesis
    using live by (simp add: ValidatorUpdates_def bits_live_def Let_def rows seen_subjects_def filter_map comp_def)
qed

theorem ValidatorUpdates_idempotent_witness:
  "fst (ValidatorUpdates demo_hash 1 (snd (ValidatorUpdates demo_hash 0 demo_store))) = []"
  using ValidatorUpdates_idempotent [OF demo_inv demo_live, of demo_hash 0 _ _ 1]
  by (cases "ValidatorUpdates demo_hash 0 demo_store") auto

subsection \<open>Carrying the bonded set over a period\<close>


definition bonded_row_of :: "bytes \<Rightarrow> bytes \<Rightarrow> SubjectPower" where
  "bonded_row_of x v =
    \<lparr>pw_Subject = x, pw_Weight = (if br_accepted (decodeRec v) then br_weight (decodeRec v) else 0),
     pw_HasProof = br_accepted (decodeRec v)\<rparr>"

lemma bonded_entry_key:
  "bonded_entry (length (BondedPrefixForPeriod p)) (BondedKey p x, v) = bonded_row_of x v"
  by (simp add: bonded_entry_def bonded_row_of_def key_simps Let_def)

lemma set_BondedSet:
  assumes "store_ok s"
  shows "set (BondedSet s p) = {bonded_row_of x v | x v. memGet s (BondedKey p x) = Some v}"
proof -
  have "set (BondedSet s p) = bonded_entry (length (BondedPrefixForPeriod p)) ` set (memIteratePrefix (BondedPrefixForPeriod p) s)"
    by (simp add: BondedSet_def Let_def)
  also have "\<dots> = {bonded_row_of x v | x v. memGet s (BondedKey p x) = Some v}"
    unfolding mem.iter_set [OF assms] HasPrefix_bonded_iff
  proof (intro equalityI subsetI)
    fix r assume "r \<in> {bonded_row_of x v | x v. memGet s (BondedKey p x) = Some v}"
    then obtain x v where "r = bonded_row_of x v" "memGet s (BondedKey p x) = Some v" by blast
    then show "r \<in> bonded_entry (length (BondedPrefixForPeriod p)) `
        {(k, v). memGet s k = Some v \<and> (\<exists>x. k = BondedKey p x)}"
      by (intro image_eqI [of _ _ "(BondedKey p x, v)"]) (auto simp: bonded_entry_key)
  qed (use bonded_entry_key in blast)
  finally show ?thesis .
qed

lemma BondedSet_sorted: "sorted (map pw_Subject (BondedSet s p))"
  by (simp add: BondedSet_def Let_def)

lemma BondedSet_distinct:
  assumes "store_ok s" shows "distinct (map pw_Subject (BondedSet s p))"
proof -
  let ?it = "memIteratePrefix (BondedPrefixForPeriod p) s"
  have "distinct (map (\<lambda>kv. drop 9 (fst kv)) ?it)"
  proof -
    have k: "\<exists>x. fst kv = BondedKey p x" if "kv \<in> set ?it" for kv
      using mem.iter_get [OF assms, of "fst kv" "snd kv" "BondedPrefixForPeriod p"] that by (simp add: HasPrefix_bonded_iff)
    have "inj_on (\<lambda>kv. drop 9 (fst kv)) (set ?it)"
    proof (rule inj_onI)
      fix kv kw assume *: "kv \<in> set ?it" "kw \<in> set ?it" "drop 9 (fst kv) = drop 9 (fst kw)"
      then have "fst kv = fst kw" using k [OF *(1)] k [OF *(2)] by (auto simp: BondedKey_def)
      then show "kv = kw" using * mem.iter_functional [OF assms] by (metis prod.collapse)
    qed
    moreover have "distinct ?it" using mem.iter_distinct [OF assms] by (simp add: distinct_map)
    ultimately show ?thesis by (simp add: distinct_map)
  qed
  moreover have "map pw_Subject (map (bonded_entry (length (BondedPrefixForPeriod p))) ?it) = map (\<lambda>kv. drop 9 (fst kv)) ?it"
    by (simp add: bonded_entry_def Let_def BondedPrefixForPeriod_def split: prod.split)
  ultimately have "distinct (map pw_Subject (map (bonded_entry (length (BondedPrefixForPeriod p))) ?it))"
    by (simp only:)
  then have "distinct (map (bonded_entry (length (BondedPrefixForPeriod p))) ?it) \<and>
      inj_on pw_Subject (set (map (bonded_entry (length (BondedPrefixForPeriod p))) ?it))"
    by (simp only: distinct_map)
  then show ?thesis by (simp add: BondedSet_def Let_def distinct_map [of pw_Subject])
qed

lemma BondedSet_unique:
  assumes "store_ok s" "sorted (map pw_Subject rows)" "distinct (map pw_Subject rows)"
    "set (BondedSet s p) = set rows"
  shows "BondedSet s p = rows"
  using assms BondedSet_sorted [of s p] BondedSet_distinct [OF assms(1), of p]
  by (intro map_sorted_distinct_set_unique [of pw_Subject]) (auto simp: distinct_map)

lemma admitMember_other:
  assumes "\<not> roster_key k" "k \<noteq> ObjectRootsKey"
  shows "memGet (snd (admitMember H x w s)) k = memGet s k"
  using assms
  by (auto simp: admitMember_def AllocateIndex_def SetEB_def BitSet_def setBitfield_def
      setNextDepositIndex_def syncObjectRoots_eq Let_def roster_key_simps split: prod.splits option.splits)

lemma memGet_AcceptProof:
  "memGet (AcceptProof H p y w s) (BondedKey q x) =
    (if q = p \<and> x = y then Some (encodeRec True w) else memGet s (BondedKey q x))"
  by (simp add: AcceptProof_def admitMember_other key_simps)

lemma memGet_PutSubject:
  "memGet (PutSubject p y w s) (BondedKey q x) =
    (if q = p \<and> x = y then Some (encodeRec False w) else memGet s (BondedKey q x))"
  by (simp add: PutSubject_def key_simps)

definition rec_of :: "SubjectPower \<Rightarrow> bytes" where
  "rec_of r = (if pw_HasProof r then encodeRec True (pw_Weight r) else encodeRec False 0)"

lemma memGet_carry_rows:
  assumes "distinct (map pw_Subject rows)"
  shows "memGet (carry_rows H p rows s) (BondedKey p x) =
    (case find (\<lambda>r. pw_Subject r = x) rows of
       None \<Rightarrow> memGet s (BondedKey p x)
     | Some r \<Rightarrow> Some (rec_of r))"
  using assms
proof (induction rows arbitrary: s)
  case (Cons r rows)
  have "find (\<lambda>q. pw_Subject q = pw_Subject r) rows = None"
    using Cons.prems by (intro find_None_distinct) simp
  then show ?case
    using Cons by (auto simp: carry_rows_def memGet_AcceptProof memGet_PutSubject rec_of_def split: option.split)
qed (simp add: carry_rows_def)

lemma store_ok_admitMember: "store_ok s \<Longrightarrow> store_ok (snd (admitMember H x w s))"
  by (auto simp: admitMember_def AllocateIndex_def Let_def split: prod.splits option.splits)

lemma store_ok_AcceptProof: "store_ok s \<Longrightarrow> store_ok (AcceptProof H p x w s)"
  by (simp add: AcceptProof_def store_ok_admitMember)

lemma store_ok_carry_rows: "store_ok s \<Longrightarrow> store_ok (carry_rows H p rows s)"
  unfolding carry_rows_def
  by (induction rows arbitrary: s) (auto simp: store_ok_AcceptProof PutSubject_def)

lemma bonded_row_weight:
  "r \<in> set (BondedSet s p) \<Longrightarrow> \<not> pw_HasProof r \<Longrightarrow> pw_Weight r = 0"
  by (auto simp: BondedSet_def Let_def bonded_entry_def)

lemma BondedSet_carried:
  assumes ok: "store_ok s" and empty: "BondedSet s p = []"
    and rows: "rows = BondedSet s q"
  shows "BondedSet (carry_rows H p rows s) p = rows"
proof (rule BondedSet_unique)
  have d: "distinct (map pw_Subject rows)" unfolding rows by (rule BondedSet_distinct [OF ok])
  have none: "memGet s (BondedKey p x) = None" for x
    using set_BondedSet [OF ok, of p] empty by (cases "memGet s (BondedKey p x)") auto
  have row: "bonded_row_of (pw_Subject r) (rec_of r) = r"
    if "r \<in> set rows" for r
    using that bonded_row_weight [of r s q] by (auto simp: rows bonded_row_of_def rec_of_def wire_simps)
  show "set (BondedSet (carry_rows H p rows s) p) = set rows"
    unfolding set_BondedSet [OF store_ok_carry_rows [OF ok]] memGet_carry_rows [OF d] none
  proof (intro equalityI subsetI)
    fix r assume "r \<in> set rows"
    then show "r \<in> {bonded_row_of x v |x v. (case find (\<lambda>r. pw_Subject r = x) rows of None \<Rightarrow> None
        | Some r \<Rightarrow> Some (rec_of r)) = Some v}"
      using row [of r] find_distinct [OF d, of r]
      by (intro CollectI exI [of _ "pw_Subject r"]
          exI [of _ "rec_of r"]) simp
  next
    fix r assume "r \<in> {bonded_row_of x v |x v. (case find (\<lambda>r. pw_Subject r = x) rows of None \<Rightarrow> None
        | Some r \<Rightarrow> Some (rec_of r)) = Some v}"
    then obtain x v where r: "r = bonded_row_of x v" and
      c: "(case find (\<lambda>r. pw_Subject r = x) rows of None \<Rightarrow> None | Some r \<Rightarrow> Some (rec_of r)) = Some v" by blast
    from c obtain q where q: "find (\<lambda>r. pw_Subject r = x) rows = Some q" "v = rec_of q"
      by (cases "find (\<lambda>r. pw_Subject r = x) rows") auto
    then show "r \<in> set rows" using row [of q] find_SomeD [OF q(1)] r by simp
  qed
  show "sorted (map pw_Subject rows)" unfolding rows by (rule BondedSet_sorted)
qed (use ok in \<open>simp_all add: store_ok_carry_rows rows BondedSet_distinct\<close>)

lemma last_bonded_Some:
  "last_bonded s n = Some prev \<Longrightarrow>
   \<exists>q < n. prev = BondedSet s (word_of_nat q) \<and> prev \<noteq> [] \<and>
     (\<forall>j. q < j \<and> j < n \<longrightarrow> BondedSet s (word_of_nat j) = [])"
proof (induction n)
  case (Suc n)
  show ?case
  proof (cases "BondedSet s (word_of_nat n) = []")
    case True
    then obtain q where "q < n" "prev = BondedSet s (word_of_nat q) \<and> prev \<noteq> []"
      "\<forall>j. q < j \<and> j < n \<longrightarrow> BondedSet s (word_of_nat j) = []"
      using Suc by auto
    then show ?thesis using True by (intro exI [of _ q]) (auto simp: less_Suc_eq)
  next
    case False
    then show ?thesis using Suc.prems by (intro exI [of _ n]) (auto simp: Let_def)
  qed
qed simp

lemma last_bonded_None: "last_bonded s n = None \<longleftrightarrow> (\<forall>q < n. BondedSet s (word_of_nat q) = [])"
  by (induction n) (auto simp: Let_def less_Suc_eq)

text \<open>Reading the bonded set of a period never loses the set: when the period has rows they are
  returned and nothing is written; when it has none, the rows of the last earlier period that has
  some are returned unchanged and stored under the new period; only when no period has rows is
  the result empty.
\<close>

theorem BondedSetOrCarry_carries:
  assumes "store_ok s" "BondedSetOrCarry H p s = (rows, s')"
  shows "rows = BondedSet s' p \<and>
    (if BondedSet s p \<noteq> [] \<or> \<not> hasBondedOrPrior s p then rows = BondedSet s p \<and> s' = s
     else \<exists>q < unat p. rows = BondedSet s (word_of_nat q) \<and> rows \<noteq> [] \<and>
            (\<forall>j. q < j \<and> j < unat p \<longrightarrow> BondedSet s (word_of_nat j) = []))"
proof (cases "BondedSet s p \<noteq> [] \<or> \<not> hasBondedOrPrior s p")
  case True
  then show ?thesis
    using assms(2) by (auto simp: BondedSetOrCarry_def hasBondedOrPrior_def Let_def split: if_splits)
next
  case False
  then obtain prev where e: "BondedSet s p = []" and prev: "last_bonded s (unat p) = Some prev"
    by (auto simp: hasBondedOrPrior_def)
  then have "p \<noteq> 0" by (auto simp: unat_eq_zero)
  then have r: "rows = BondedSet s' p" and s': "s' = carry_rows H p prev s"
    using assms(2) e prev by (auto simp: BondedSetOrCarry_def Let_def)
  note q = last_bonded_Some [OF prev]
  then have "rows = prev" using BondedSet_carried [OF assms(1) e] r s' by blast
  with q r False show ?thesis by auto
qed

theorem BondedSetOrCarry_carries_witness:
  "fst (BondedSetOrCarry demo_hash 2 demo_store) =
   BondedSet (snd (BondedSetOrCarry demo_hash 2 demo_store)) 2"
  using BondedSetOrCarry_carries [OF roster_invD(1) [OF demo_inv], of demo_hash 2]
  by (cases "BondedSetOrCarry demo_hash 2 demo_store") auto

end
