(* ===== verification/Lean_Stwo.thy ===== *)
theory Lean_Stwo
  imports Lean_Bits
begin

text \<open>
  \<open>x/leanval/keeper/dummy_stwo.go\<close>, \<open>verifier.go\<close>, \<open>prove.go\<close>, \<open>fold_verify.go\<close>,
  \<open>valset_stwo.go\<close>, \<open>ssle.go\<close> and the dispatch of \<open>wasm_sudo.go\<close>: the proofs an LNPR
  carries. The dummy proof system is modelled whole. The provers and verifiers outside the
  repository (the in-process Stwo verifier and the \<open>lean-stwo-fold\<close>, \<open>lean-valset-air\<close>,
  \<open>lean-ssle\<close> binaries, the verifier contract) are the fields of \<open>Host\<close>.
\<close>

subsection \<open>Dummy proofs\<close>

definition dummyMagic :: bytes where "dummyMagic = [0x44, 0x53, 0x54, 0x57]"
definition stwoMagic :: bytes where "stwoMagic = [0x53, 0x54, 0x57, 0x4F]"
definition foldKind :: bytes where "foldKind = [0x46, 0x4F, 0x4C, 0x44]"
definition ssleKind :: bytes where "ssleKind = [0x53, 0x53, 0x4C, 0x45]"
definition costume :: bytes where "costume = [0x63, 0x3D, 0x33, 0x61, 0x2B, 0x35, 0x62, 0x2B, 0x37]"
definition dummyProverID :: byte where "dummyProverID = 2"
definition dummyCurveID :: byte where "dummyCurveID = 5"
definition dummyProofLen :: nat where "dummyProofLen = 18"
definition m31P :: u32 where "m31P = 2147483647"
definition stwoDummyGas :: nat where "stwoDummyGas = 150000"

text \<open>\<open>binary.LittleEndian.PutUint32\<close> and \<open>Uint32\<close>.\<close>

definition putLE32 :: "u32 \<Rightarrow> bytes" where
  "putLE32 v = [ucast v, ucast (drop_bit 8 v), ucast (drop_bit 16 v), ucast (drop_bit 24 v)]"

definition getLE32 :: "bytes \<Rightarrow> u32" where
  "getLE32 b = push_bit 24 (ucast (b ! 3)) OR push_bit 16 (ucast (b ! 2)) OR
     push_bit 8 (ucast (b ! 1)) OR ucast (b ! 0)"

definition dummyM31Hash :: "u32 \<Rightarrow> u32 \<Rightarrow> u32" where
  "dummyM31Hash a b = ucast ((3 * ucast a + 5 * ucast b + 7 :: u64) mod ucast m31P)"

definition DummyStwoProve :: "u32 \<Rightarrow> u32 \<Rightarrow> bytes" where
  "DummyStwoProve a b =
    (let c = dummyM31Hash a b
     in dummyMagic @ [dummyProverID, dummyCurveID] @ putLE32 a @ putLE32 b @ putLE32 c)"

definition padRoots :: "bytes \<Rightarrow> bytes" where
  "padRoots roots = copy_pad ObjectRootsSize roots"

text \<open>\<open>mix ^= uint32(x) << (8 * (i % 4))\<close> over a byte slice.\<close>

definition mixBytes :: "bytes \<Rightarrow> u32 \<Rightarrow> u32" where
  "mixBytes xs mix =
    fold (\<lambda>(i, x) mix. mix XOR push_bit (8 * (i mod 4)) (ucast x)) (enumerate 0 xs) mix"

definition dummySeedsBound :: "u64 \<Rightarrow> bytes \<Rightarrow> i64 \<Rightarrow> bytes \<Rightarrow> u32 \<times> u32" where
  "dummySeedsBound period subject weight roots =
    (let a = ucast (period mod ucast m31P);
         mix = mixBytes (PutI64 weight) 0;
         mix = mixBytes subject mix;
         mix = mixBytes (padRoots roots) mix
     in (a, mix mod m31P))"

definition DummyStwoProveBoundRoots :: "u64 \<Rightarrow> bytes \<Rightarrow> i64 \<Rightarrow> bytes \<Rightarrow> bytes" where
  "DummyStwoProveBoundRoots period subject weight roots =
    (let (a, b) = dummySeedsBound period subject weight roots in DummyStwoProve a b)"

definition DummyStwoProveBound :: "u64 \<Rightarrow> bytes \<Rightarrow> i64 \<Rightarrow> bytes" where
  "DummyStwoProveBound period subject weight = DummyStwoProveBoundRoots period subject weight []"

definition instancesForRoots :: "u64 \<Rightarrow> bytes \<Rightarrow> i64 \<Rightarrow> bytes \<Rightarrow> bytes" where
  "instancesForRoots period subject weight roots =
    PutI64 period @ PutI64 weight @ subject @ padRoots roots"

definition instancesFor :: "u64 \<Rightarrow> bytes \<Rightarrow> i64 \<Rightarrow> bytes" where
  "instancesFor period subject weight = instancesForRoots period subject weight []"

text \<open>The public inputs an instance carries: the object roots are its last 96 bytes.\<close>

definition splitInstance :: "bytes \<Rightarrow> u64 \<times> bytes \<times> i64 \<times> bytes" where
  "splitInstance instances =
    (let period = GetU64 (take 8 instances);
         weight = GetI64 (take 8 (drop 8 instances));
         rest = drop 16 instances
     in if length rest \<ge> ObjectRootsSize
        then (period, take (length rest - ObjectRootsSize) rest, weight,
              drop (length rest - ObjectRootsSize) rest)
        else (period, rest, weight, []))"

definition VerifyDummy :: "bytes \<Rightarrow> bytes \<Rightarrow> lean_error + unit" where
  "VerifyDummy proof instances =
    (if length proof > MaxProofBytes then Inl (Errorf ''leanval: proof too large'')
     else if length proof < dummyProofLen then Inl (Errorf ''leanval: truncated DummyStwo'')
     else if take 4 proof \<noteq> dummyMagic then Inl (Errorf ''leanval: bad DummyStwo magic'')
     else if proof ! 4 \<noteq> dummyProverID then Inl (Errorf ''leanval: wrong prover_id'')
     else if proof ! 5 \<noteq> dummyCurveID then Inl (Errorf ''leanval: wrong curve_id'')
     else let a = getLE32 (take 4 (drop 6 proof));
              b = getLE32 (take 4 (drop 10 proof));
              c = getLE32 (take 4 (drop 14 proof))
          in if a \<ge> m31P \<or> b \<ge> m31P \<or> c \<ge> m31P then Inl (Errorf ''leanval: not in M31'')
             else if dummyM31Hash a b \<noteq> c then Inl (Errorf ''leanval: DummyStwo statement false'')
             else if length instances \<ge> 16 then
               let (period, subj, weight, roots) = splitInstance instances;
                   (ea, eb) = dummySeedsBound period subj weight roots
               in if a \<noteq> ea \<or> b \<noteq> eb
                  then Inl (Errorf ''leanval: DummyStwo instance bind failed (forged weight, period, or roots)'')
                  else Inr ()
             else Inr ())"

definition ClosedVerifier_VerifyDummy :: "bytes \<Rightarrow> bytes \<Rightarrow> lean_error + unit" where
  "ClosedVerifier_VerifyDummy proof instances =
    Inl (Errorf ''leanval: no production verifier (closed)'')"

subsection \<open>Balance AIR\<close>

record BalanceAirPublic =
  bp_Period :: u64
  bp_PrevCommitment :: bytes
  bp_Weight :: i64
  bp_DepositTreeRoot :: bytes
  bp_BitfieldRoot :: bytes
  bp_EBTreeRoot :: bytes
  bp_Subject :: bytes

record BalanceAirPrivate =
  bv_ParticipationBranch :: bytes
  bv_FineBalance :: i64

definition BalanceAirInstanceBytes :: "u64 \<Rightarrow> i64 \<Rightarrow> bytes \<Rightarrow> bytes" where
  "BalanceAirInstanceBytes period weight subject = instancesFor period subject weight"

definition UnimplementedBalanceAir_Verify ::
  "bytes \<Rightarrow> BalanceAirPublic \<Rightarrow> BalanceAirPrivate \<Rightarrow> lean_error + unit" where
  "UnimplementedBalanceAir_Verify proof pub priv = Inl (Errorf ''not implemented'')"

definition StwoBalanceAir_Verify ::
  "bytes \<Rightarrow> BalanceAirPublic \<Rightarrow> BalanceAirPrivate \<Rightarrow> lean_error + unit" where
  "StwoBalanceAir_Verify proof pub priv =
    (if bp_Period pub = 0 then Inl (Errorf ''leanval: balance AIR period required'')
     else if length (bp_Subject pub) = 0 then Inl (Errorf ''leanval: balance AIR subject required'')
     else if bv_FineBalance priv \<noteq> bp_Weight pub
     then Inl (Errorf ''leanval: balance AIR fine != weight'')
     else let inst = BalanceAirInstanceBytes (bp_Period pub) (bp_Weight pub) (bp_Subject pub);
              proof = (if length proof = 0
                       then DummyStwoProveBound (bp_Period pub) (bp_Subject pub) (bp_Weight pub)
                       else proof)
          in case VerifyDummy proof inst of
               Inl e \<Rightarrow> Inl (Errorf ''leanval: balance AIR verify'')
             | Inr _ \<Rightarrow> Inr ())"

subsection \<open>Hexadecimal roots\<close>

definition hexDigit :: "nat \<Rightarrow> char" where
  "hexDigit n = ''0123456789abcdef'' ! n"

definition EncodeToString :: "bytes \<Rightarrow> string" where
  "EncodeToString b =
    concat (map (\<lambda>x. [hexDigit (unat (drop_bit 4 x)), hexDigit (unat (x AND 0x0f))]) b)"

definition fromHexChar :: "char \<Rightarrow> byte option" where
  "fromHexChar c =
    (let n = of_char c :: nat
     in if 48 \<le> n \<and> n \<le> 57 then Some (word_of_nat (n - 48))
        else if 97 \<le> n \<and> n \<le> 102 then Some (word_of_nat (n - 97 + 10))
        else if 65 \<le> n \<and> n \<le> 70 then Some (word_of_nat (n - 65 + 10))
        else None)"

fun DecodeString :: "string \<Rightarrow> bytes option" where
  "DecodeString [] = Some []"
| "DecodeString [c] = None"
| "DecodeString (c # d # s) =
    (case (fromHexChar c, fromHexChar d) of
       (Some a, Some b) \<Rightarrow> map_option (\<lambda>bs. (push_bit 4 a OR b) # bs) (DecodeString s)
     | _ \<Rightarrow> None)"

definition trim0x :: "string \<Rightarrow> string" where
  "trim0x s = (if take 2 s = ''0x'' then drop 2 s else s)"

definition isHexRoot :: "string \<Rightarrow> bool" where
  "isHexRoot s = (let s = trim0x s in if length s \<noteq> 64 then False else DecodeString s \<noteq> None)"

definition parseRootHex :: "string \<Rightarrow> bytes" where
  "parseRootHex s =
    (case DecodeString (trim0x s) of
       Some b \<Rightarrow> if length b \<noteq> 32 then replicate 32 0 else b
     | None \<Rightarrow> replicate 32 0)"

subsection \<open>Code outside the repository\<close>

record Host =
  h_sha256 :: "bytes \<Rightarrow> bytes"
  h_stwo :: "bytes \<Rightarrow> bytes \<Rightarrow> lean_error + unit"
  h_foldBin :: bool
  h_foldVerify :: "string \<Rightarrow> string \<Rightarrow> string \<Rightarrow> bytes \<Rightarrow> lean_error + unit"
  h_foldProve :: "string \<Rightarrow> string \<Rightarrow> string \<Rightarrow> lean_error + bytes"
  h_valsetProve :: "u64 \<Rightarrow> u64 \<Rightarrow> byte \<Rightarrow> lean_error + bytes"
  h_valsetVerify :: "u64 \<Rightarrow> u64 \<Rightarrow> byte \<Rightarrow> bytes \<Rightarrow> lean_error + unit"
  h_ssleBin :: bool
  h_ssleProve :: "u64 \<Rightarrow> i64 \<Rightarrow> bytes \<Rightarrow> lean_error + bytes"
  h_ssleVerify :: "u64 \<Rightarrow> i64 \<Rightarrow> bytes \<Rightarrow> bytes \<Rightarrow> lean_error + unit"
  h_verifier :: "(bytes \<Rightarrow> bytes \<Rightarrow> lean_error + unit) option"
  h_sudo :: "(bytes \<Rightarrow> u64 \<Rightarrow> bytes \<Rightarrow> bytes \<Rightarrow> lean_error + unit) option"

subsection \<open>The fold over the object roots\<close>

definition isFoldProof :: "bytes \<Rightarrow> bool" where
  "isFoldProof proof \<longleftrightarrow>
    length proof \<ge> 10 \<and> take 4 proof = stwoMagic \<and> take 4 (drop 6 proof) = foldKind"

fun foldProofFromSubjects :: "SubjectProof list \<Rightarrow> bytes option" where
  "foldProofFromSubjects [] = None"
| "foldProofFromSubjects (s # ss) =
    (if isFoldProof (sp_Proof s) then Some (sp_Proof s) else foldProofFromSubjects ss)"

definition foldProofFromLNPR :: "LNPRBlob \<Rightarrow> bytes option" where
  "foldProofFromLNPR blob = foldProofFromSubjects (lb_Subjects blob)"

definition foldPairStrings :: "bytes \<Rightarrow> string list" where
  "foldPairStrings roots =
    (let r = padRoots roots
     in [EncodeToString (take 32 r), EncodeToString (take 32 (drop 32 r)),
         EncodeToString (take 32 (drop 64 r))])"

definition VerifySameStatementFold :: "Host \<Rightarrow> bytes \<Rightarrow> string list \<Rightarrow> lean_error + unit" where
  "VerifySameStatementFold h proof pairs =
    (if Contains proof dummyMagic then Inl (Errorf ''leanval: Dummy-N is not a Stwo aggregate'')
     else if Contains proof costume
     then Inl (Errorf ''leanval: 3a+5b+7 costume over subjects is not a fold'')
     else if length proof < 10 \<or> take 4 proof \<noteq> stwoMagic
     then Inl (Errorf ''leanval: fold proof must be STWO magic'')
     else if length proof < 6 \<or> proof ! 4 \<noteq> 2 \<or> proof ! 5 \<noteq> 5
     then Inl (Errorf ''leanval: fold wants prover_id=2 curve_id=5'')
     else if take 4 (drop 6 proof) \<noteq> foldKind then Inl (Errorf ''leanval: fold kind missing'')
     else if length pairs < 1 \<or> \<not> isHexRoot (pairs ! 0)
     then Inl (Errorf ''leanval: fold PIs must be bitfield root hex, not Dummy pairs'')
     else if length proof \<ge> 10 + ObjectRootsSize \<and> take 32 (drop 10 proof) \<noteq> parseRootHex (pairs ! 0)
     then Inl (Errorf ''leanval: fold public inputs != bitfield root'')
     else if length proof \<ge> 10 + ObjectRootsSize \<and> length pairs > 1 \<and> isHexRoot (pairs ! 1) \<and>
             take 32 (drop 42 proof) \<noteq> parseRootHex (pairs ! 1)
     then Inl (Errorf ''leanval: fold public inputs != deposit root'')
     else if length proof \<ge> 10 + ObjectRootsSize \<and> length pairs > 2 \<and> isHexRoot (pairs ! 2) \<and>
             take 32 (drop 74 proof) \<noteq> parseRootHex (pairs ! 2)
     then Inl (Errorf ''leanval: fold public inputs != EB root'')
     else let inst = (if length proof \<ge> 10 + ObjectRootsSize
                      then take ObjectRootsSize (drop 10 proof) else [])
          in case h_stwo h proof inst of
               Inr _ \<Rightarrow> Inr ()
             | Inl _ \<Rightarrow>
                 if \<not> h_foldBin h
                 then Inl (Errorf ''leanval: lean-stwo-fold not on PATH (not cargo)'')
                 else h_foldVerify h (pairs ! 0) (if length pairs > 1 then pairs ! 1 else ''00'')
                        (if length pairs > 2 then pairs ! 2 else ''00'') proof)"

definition zeroRootHex :: string where
  "zeroRootHex = concat (replicate 32 ''00'')"

definition ProveSameStatementFold :: "Host \<Rightarrow> string list \<Rightarrow> lean_error + bytes" where
  "ProveSameStatementFold h pairs =
    (if \<not> h_foldBin h then Inl (Errorf ''leanval: lean-stwo-fold not on PATH (not cargo)'')
     else if length pairs < 1 \<or> \<not> isHexRoot (pairs ! 0)
     then Inl (Errorf ''leanval: fold prove wants bitfield root hex'')
     else let dep = (if length pairs > 1 \<and> isHexRoot (pairs ! 1) then pairs ! 1 else zeroRootHex);
              eb = (if length pairs > 2 \<and> isHexRoot (pairs ! 2) then pairs ! 2 else zeroRootHex)
          in case h_foldProve h (pairs ! 0) dep eb of
               Inl e \<Rightarrow> Inl e
             | Inr out \<Rightarrow>
                 if Contains out dummyMagic then Inl (Errorf ''leanval: fold prove emitted Dummy'')
                 else if length out < 10 \<or> take 4 out \<noteq> stwoMagic
                 then Inl (Errorf ''leanval: fold prove missing STWO'')
                 else Inr out)"

subsection \<open>Valset proofs\<close>

definition valset_instance_bytes :: "u64 \<Rightarrow> u64 \<Rightarrow> byte \<Rightarrow> bytes" where
  "valset_instance_bytes period index eb = putU64 period @ take 5 (drop 3 (putU64 index)) @ [eb]"

definition proveValsetStwo :: "Host \<Rightarrow> u64 \<Rightarrow> u64 \<Rightarrow> byte \<Rightarrow> bytes \<Rightarrow> lean_error + bytes" where
  "proveValsetStwo h period index eb subject =
    (if index \<ge> push_bit 40 1
     then Inl (Errorf ''leanval: valset AIR deposit index exceeds 5 bytes'')
     else case h_valsetProve h period index eb of
       Inl e \<Rightarrow> Inl e
     | Inr out \<Rightarrow>
         if length out < 4 \<or> take 4 out \<noteq> stwoMagic
         then Inl (Errorf ''leanval: valset prove did not emit STWO proof'')
         else Inr out)"

definition verifyValsetStwo ::
  "Host \<Rightarrow> bytes \<Rightarrow> u64 \<Rightarrow> u64 \<Rightarrow> byte \<Rightarrow> bytes \<Rightarrow> lean_error + unit" where
  "verifyValsetStwo h proof period index eb subject =
    (if length proof < 4 \<or> take 4 proof \<noteq> stwoMagic
     then Inl (Errorf ''leanval: valset verify: not STWO'')
     else if HasPrefix proof dummyMagic \<or> Contains proof dummyMagic
     then Inl (Errorf ''leanval: valset verify: DummyStwo DSTW rejected'')
     else let inst = valset_instance_bytes period index eb
          in case h_stwo h proof inst of
               Inr _ \<Rightarrow> Inr ()
             | Inl _ \<Rightarrow>
                 if index \<ge> push_bit 40 1
                 then Inl (Errorf ''leanval: valset AIR deposit index exceeds 5 bytes'')
                 else h_valsetVerify h period index eb proof)"

subsection \<open>Single secret leader election\<close>

definition ticketTag :: bytes where
  "ticketTag = map (\<lambda>c. word_of_nat (of_char c)) ''leanval/ssle/ticket/v1''"

definition revealTag :: bytes where
  "revealTag = map (\<lambda>c. word_of_nat (of_char c)) ''leanval/ssle/reveal/v1''"

definition ssleTicket :: "Host \<Rightarrow> u64 \<Rightarrow> i64 \<Rightarrow> bytes \<Rightarrow> bytes" where
  "ssleTicket h period height proposer =
    h_sha256 h (ticketTag @ putU64 period @ putU64 height @ proposer)"

definition ssleReveal :: "Host \<Rightarrow> u64 \<Rightarrow> i64 \<Rightarrow> bytes \<Rightarrow> bytes" where
  "ssleReveal h period height block =
    h_sha256 h (revealTag @ putU64 period @ putU64 height @ block)"

definition ProveSSLE :: "Host \<Rightarrow> u64 \<Rightarrow> i64 \<Rightarrow> bytes \<Rightarrow> lean_error + bytes \<times> bytes" where
  "ProveSSLE h period height proposer =
    (if \<not> h_ssleBin h then Inl (Errorf ''leanval: lean-ssle not on PATH'')
     else case h_ssleProve h period height proposer of
       Inl e \<Rightarrow> Inl (Errorf ''leanval: ssle prove'')
     | Inr out \<Rightarrow>
         if length out < 32 + 10 \<or> take 4 (drop 32 out) \<noteq> stwoMagic
         then Inl (Errorf ''leanval: ssle prove missing STWO'')
         else if Contains out dummyMagic then Inl (Errorf ''leanval: ssle prove emitted Dummy'')
         else Inr (take 32 out, drop 32 out))"

definition VerifySSLEProof :: "Host \<Rightarrow> bytes \<Rightarrow> u64 \<Rightarrow> i64 \<Rightarrow> bytes \<Rightarrow> lean_error + unit" where
  "VerifySSLEProof h proof period height ticket =
    (if Contains proof dummyMagic then Inl (Errorf ''leanval: Dummy-N is not an SSLE proof'')
     else if length proof < 10 \<or> take 4 proof \<noteq> stwoMagic
     then Inl (Errorf ''leanval: ssle proof must be STWO magic'')
     else if proof ! 4 \<noteq> 2 \<or> proof ! 5 \<noteq> 5
     then Inl (Errorf ''leanval: ssle wants prover_id=2 curve_id=5'')
     else if take 4 (drop 6 proof) \<noteq> ssleKind then Inl (Errorf ''leanval: ssle kind missing'')
     else let inst = (if length proof \<ge> 58 then take 48 (drop 10 proof) else [])
          in case h_stwo h proof inst of
               Inr _ \<Rightarrow> Inr ()
             | Inl _ \<Rightarrow>
                 if \<not> h_ssleBin h then Inl (Errorf ''leanval: lean-ssle not on PATH (not cargo)'')
                 else h_ssleVerify h period height ticket proof)"

definition HiddenProposerID :: "Host \<Rightarrow> u64 \<Rightarrow> i64 \<Rightarrow> lean_error + bytes" where
  "HiddenProposerID h period height =
    (if sint height < 0 then Inl (Errorf ''leanval: ssle height'')
     else Inr (ssleTicket h period height []))"

definition RevealProposerAfterBlock :: "Host \<Rightarrow> u64 \<Rightarrow> i64 \<Rightarrow> bytes \<Rightarrow> lean_error + bytes" where
  "RevealProposerAfterBlock h period height block =
    (if sint height < 0 then Inl (Errorf ''leanval: ssle height'')
     else if length block = 0 then Inl (Errorf ''leanval: ssle missing block'')
     else case DecodeSSLE block of
       Some blob \<Rightarrow>
         if length (ss_Proposer blob) > 0 then
           if ss_Ticket blob \<noteq> ssleTicket h period height (ss_Proposer blob)
           then Inl (Errorf ''leanval: ssle ticket != H(period,height,proposer)'')
           else (case VerifySSLEProof h (ss_Proof blob) period height (ss_Ticket blob) of
                   Inl e \<Rightarrow> Inl e
                 | Inr _ \<Rightarrow>
                     if ss_Ticket blob = ss_Proposer blob
                     then Inl (Errorf ''leanval: ssle ticket must not equal proposer id'')
                     else Inr (ss_Proposer blob))
         else Inr (ssleReveal h period height block)
     | None \<Rightarrow> Inr (ssleReveal h period height block))"

definition buildSSLE :: "Host \<Rightarrow> u64 \<Rightarrow> i64 \<Rightarrow> bytes \<Rightarrow> bytes" where
  "buildSSLE h period height proposer =
    (case ProveSSLE h period height proposer of
       Inl _ \<Rightarrow> []
     | Inr (ticket, proof) \<Rightarrow>
         EncodeSSLE \<lparr>ss_Period = period, ss_Height = height, ss_Ticket = ticket,
                     ss_Proposer = proposer, ss_Proof = proof\<rparr>)"

subsection \<open>Dummy proofs: what is accepted\<close>


lemma length_putLE32 [simp]: "length (putLE32 v) = 4" by (simp add: putLE32_def)

lemma getLE32_putLE32 [wire_simps]: "getLE32 (putLE32 v) = v"
  by (simp add: getLE32_def putLE32_def join_bytes32)

lemma putLE32_getLE32: "length b = 4 \<Longrightarrow> putLE32 (getLE32 b) = b"
proof -
  assume "length b = 4"
  then have b: "b = [b ! 0, b ! 1, b ! 2, b ! 3]" using take_4 [of b] by simp
  have "rev (putLE32 v) = PutU32 v" for v by (simp add: putLE32_def PutU32_def)
  then have "rev (putLE32 (getLE32 b)) = [b ! 3, b ! 2, b ! 1, b ! 0]"
    by (simp add: getLE32_def PutU32_join)
  then have "putLE32 (getLE32 b) = rev [b ! 3, b ! 2, b ! 1, b ! 0]" by (metis rev_rev_ident)
  then show ?thesis using b by simp
qed

lemma m31P_pos: "0 < m31P" "unat m31P = 2147483647" by (simp_all add: m31P_def)

lemma mod_m31P: "x mod m31P < m31P" for x :: u32
  by (simp add: m31P_def word_mod_less_divisor)

lemma ucast_mod_m31P: "(ucast ((x :: u64) mod ucast m31P) :: u32) < m31P"
proof -
  have "unat (x mod ucast m31P) < 2147483647"
    by (simp add: unat_mod m31P_def)
  then show ?thesis
    by (simp add: word_less_nat_alt m31P_pos unsigned_ucast_eq take_bit_nat_eq_self)
qed

lemma seeds_in_field:
  "dummySeedsBound p x w r = (a, b) \<Longrightarrow> a < m31P \<and> b < m31P"
  by (auto simp: dummySeedsBound_def Let_def mod_m31P ucast_mod_m31P)

lemma dummyM31Hash_in_field: "dummyM31Hash a b < m31P"
  unfolding dummyM31Hash_def by (rule ucast_mod_m31P)

lemma length_padRoots [simp]: "length (padRoots r) = 96"
  by (simp add: padRoots_def ObjectRootsSize_def)

lemma padRoots_padRoots [simp]: "padRoots (padRoots r) = padRoots r"
  by (simp add: padRoots_def)

lemma seeds_padRoots [simp]: "dummySeedsBound p x w (padRoots r) = dummySeedsBound p x w r"
  by (simp add: dummySeedsBound_def)

lemma splitInstance_for [wire_simps]:
  "splitInstance (instancesForRoots p x w r) = (p, x, w, padRoots r)"
  by (simp add: splitInstance_def instancesForRoots_def Let_def ObjectRootsSize_def wire_simps)
     (simp add: PutI64_def wire_simps)

lemma length_instancesForRoots: "16 \<le> length (instancesForRoots p x w r)"
  by (simp add: instancesForRoots_def)

lemma length_DummyStwoProve [simp]: "length (DummyStwoProve a b) = 18"
  by (simp add: DummyStwoProve_def Let_def dummyMagic_def)

lemma DummyStwoProve_parts:
  "take 4 (DummyStwoProve a b @ xs) = dummyMagic" "(DummyStwoProve a b @ xs) ! 4 = dummyProverID"
  "(DummyStwoProve a b @ xs) ! 5 = dummyCurveID"
  "take 4 (drop 6 (DummyStwoProve a b @ xs)) = putLE32 a"
  "take 4 (drop 10 (DummyStwoProve a b @ xs)) = putLE32 b"
  "take 4 (drop 14 (DummyStwoProve a b @ xs)) = putLE32 (dummyM31Hash a b)"
  by (simp_all add: DummyStwoProve_def Let_def dummyMagic_def)

lemma VerifyDummy_accepts_iff:
  assumes "16 \<le> length inst" "splitInstance inst = (p, x, w, r)"
  shows "VerifyDummy proof inst = Inr () \<longleftrightarrow>
    length proof \<le> MaxProofBytes \<and> take 18 proof = DummyStwoProveBoundRoots p x w r"
proof -
  obtain a b where ab: "dummySeedsBound p x w r = (a, b)" by fastforce
  then have f: "a < m31P" "b < m31P" "dummyM31Hash a b < m31P"
    using seeds_in_field dummyM31Hash_in_field by blast+
  have d: "DummyStwoProveBoundRoots p x w r = DummyStwoProve a b"
    by (simp add: DummyStwoProveBoundRoots_def ab)
  show ?thesis
  proof
    assume V: "VerifyDummy proof inst = Inr ()"
    then have len: "18 \<le> length proof" "length proof \<le> MaxProofBytes"
      and m: "take 4 proof = dummyMagic" "proof ! 4 = dummyProverID" "proof ! 5 = dummyCurveID"
      by (auto simp: VerifyDummy_def dummyProofLen_def split: if_splits)
    have "getLE32 (take 4 (drop 6 proof)) = a" "getLE32 (take 4 (drop 10 proof)) = b"
      "getLE32 (take 4 (drop 14 proof)) = dummyM31Hash a b"
      using V assms ab by (auto simp: VerifyDummy_def Let_def split: if_splits)
    then have p: "take 4 (drop 6 proof) = putLE32 a" "take 4 (drop 10 proof) = putLE32 b"
      "take 4 (drop 14 proof) = putLE32 (dummyM31Hash a b)"
      using len putLE32_getLE32 [of "take 4 (drop 6 proof)"]
        putLE32_getLE32 [of "take 4 (drop 10 proof)"] putLE32_getLE32 [of "take 4 (drop 14 proof)"]
      by simp_all
    have "take 18 proof = take 4 proof @ take 2 (drop 4 proof) @ take 4 (drop 6 proof) @
        take 4 (drop 10 proof) @ take 4 (drop 14 proof)"
      using take_add [of 4 14 "proof"] take_add [of 2 12 "drop 4 proof"]
        take_add [of 4 8 "drop 6 proof"] take_add [of 4 4 "drop 10 proof"] by simp
    moreover have "take 2 (drop 4 proof) = [proof ! 4, proof ! 5]"
      using len take_2 [of "drop 4 proof"] by simp
    ultimately have "take 18 proof = take 4 proof @ [proof ! 4, proof ! 5] @ take 4 (drop 6 proof) @
        take 4 (drop 10 proof) @ take 4 (drop 14 proof)" by simp
    then show "length proof \<le> MaxProofBytes \<and> take 18 proof = DummyStwoProveBoundRoots p x w r"
      using len m p by (simp add: d DummyStwoProve_def Let_def)
  next
    assume R: "length proof \<le> MaxProofBytes \<and> take 18 proof = DummyStwoProveBoundRoots p x w r"
    then have pr: "proof = DummyStwoProve a b @ drop 18 proof" by (metis append_take_drop_id d)
    have parts: "take 4 proof = dummyMagic" "proof ! 4 = dummyProverID" "proof ! 5 = dummyCurveID"
      "take 4 (drop 6 proof) = putLE32 a" "take 4 (drop 10 proof) = putLE32 b"
      "take 4 (drop 14 proof) = putLE32 (dummyM31Hash a b)"
      by (subst pr, rule DummyStwoProve_parts)+
    have "18 \<le> length proof" by (subst pr) simp
    then show "VerifyDummy proof inst = Inr ()"
      using R assms ab f
      by (simp add: VerifyDummy_def dummyProofLen_def parts Let_def wire_simps not_le not_less)
  qed
qed

subsection \<open>The verifier interface\<close>

text \<open>
  \<open>Verifier\<close> of \<open>verifier.go\<close>: an accepted proof is not oversized, and for one instance
  only one 18-byte proof is accepted, so any flipped bit is rejected.
\<close>


locale proof_verifier =
  fixes verify :: "bytes \<Rightarrow> bytes \<Rightarrow> lean_error + unit"
  assumes oversize: "verify pf inst = Inr () \<Longrightarrow> length pf \<le> MaxProofBytes"
    and bitflip: "verify pf inst = Inr () \<Longrightarrow> verify pf' inst = Inr () \<Longrightarrow> 16 \<le> length inst \<Longrightarrow>
      take 18 pf = take 18 pf'"
begin

lemma forged_rejected:
  "verify pf inst = Inr () \<Longrightarrow> 16 \<le> length inst \<Longrightarrow> take 18 pf' \<noteq> take 18 pf \<Longrightarrow>
   verify pf' inst \<noteq> Inr ()"
  using bitflip by metis

end

interpretation dummy: proof_verifier VerifyDummy
proof
  fix pf pf' inst
  assume V: "VerifyDummy pf inst = Inr ()"
  show "length pf \<le> MaxProofBytes" using V by (auto simp: VerifyDummy_def split: if_splits)
  assume V': "VerifyDummy pf' inst = Inr ()" and l: "16 \<le> length inst"
  obtain p x w r where "splitInstance inst = (p, x, w, r)" by (metis prod_cases4)
  then show "take 18 pf = take 18 pf'" using V V' VerifyDummy_accepts_iff [OF l] by simp
qed

interpretation closed: proof_verifier ClosedVerifier_VerifyDummy
  by unfold_locales (simp_all add: ClosedVerifier_VerifyDummy_def)

subsection \<open>Fold public inputs\<close>

lemma hex_table:
  "list_all (\<lambda>n. fromHexChar (hexDigit n) = Some (word_of_nat n) \<and> hexDigit n \<noteq> CHR ''x'') [0..<16]"
  by code_simp

lemma fromHexChar_hexDigit: "n < 16 \<Longrightarrow> fromHexChar (hexDigit n) = Some (word_of_nat n)"
  and hexDigit_not_x: "n < 16 \<Longrightarrow> hexDigit n \<noteq> CHR ''x''"
  using hex_table by (simp_all add: list_all_iff)

lemma nibbles: "unat (drop_bit 4 (x :: byte)) < 16" "unat (x AND 0x0f) < 16"
proof -
  have "x AND 0x0f = take_bit 4 x" by (simp add: take_bit_eq_mask mask_eq_exp_minus_1)
  then show "unat (x AND 0x0f) < 16" by (simp add: unsigned_take_bit_eq take_bit_nat_less_exp [of 4, simplified])
  show "unat (drop_bit 4 x) < 16" using unat_byte_less [of x]
    by (simp add: drop_bit_eq_div unat_div less_mult_imp_div_less)
qed

lemma join_nibbles: "push_bit 4 (drop_bit 4 (x :: byte)) OR (x AND 0x0f) = x"
proof -
  have "x AND 0x0f = take_bit 4 x" by (simp add: take_bit_eq_mask mask_eq_exp_minus_1)
  then show ?thesis by (auto intro!: bit_word_eqI simp: bit_simps)
qed

lemma DecodeString_EncodeToString [wire_simps]: "DecodeString (EncodeToString b) = Some b"
  by (induction b) (simp_all add: EncodeToString_def fromHexChar_hexDigit nibbles join_nibbles)

lemma length_EncodeToString [simp]: "length (EncodeToString b) = 2 * length b"
  by (induction b) (simp_all add: EncodeToString_def)

lemma trim0x_EncodeToString [simp]: "trim0x (EncodeToString b) = EncodeToString b"
proof (cases b)
  case (Cons x xs)
  then show ?thesis using hexDigit_not_x [OF nibbles(2), of x] by (simp add: trim0x_def EncodeToString_def)
qed (simp add: trim0x_def EncodeToString_def)

lemma isHexRoot_EncodeToString [wire_simps]: "length b = 32 \<Longrightarrow> isHexRoot (EncodeToString b)"
  by (simp add: isHexRoot_def Let_def wire_simps)

lemma parseRootHex_EncodeToString [wire_simps]: "length b = 32 \<Longrightarrow> parseRootHex (EncodeToString b) = b"
  by (simp add: parseRootHex_def wire_simps)

lemma fold_header:
  assumes "VerifySameStatementFold h pf pairs = Inr ()"
  shows "isFoldProof pf" "\<not> Contains pf dummyMagic" "pf ! 4 = 2" "pf ! 5 = 5"
  using assms by (auto simp: VerifySameStatementFold_def isFoldProof_def split: if_splits)

lemma fold_binds_roots:
  assumes V: "VerifySameStatementFold h pf (foldPairStrings roots) = Inr ()"
    and len: "106 \<le> length pf"
  shows "take 96 (drop 10 pf) = padRoots roots"
proof -
  let ?r = "padRoots roots"
  have l: "length (take 32 ?r) = 32" "length (take 32 (drop 32 ?r)) = 32" "length (take 32 (drop 64 ?r)) = 32" by simp_all
  have "take 32 (drop 10 pf) = take 32 ?r" "take 32 (drop 42 pf) = take 32 (drop 32 ?r)"
    "take 32 (drop 74 pf) = take 32 (drop 64 ?r)"
    using V len l
    by (auto simp: VerifySameStatementFold_def foldPairStrings_def ObjectRootsSize_def Let_def wire_simps split: if_splits)
  moreover have "take 96 xs = take 32 xs @ take 32 (drop 32 xs) @ take 32 (drop 64 xs)" for xs :: bytes
    using take_add [of 32 64 xs] take_add [of 32 32 "drop 32 xs"] by simp
  ultimately have "take 96 (drop 10 pf) = take 96 ?r" by simp
  then show ?thesis by simp
qed

end
