(* ===== verification/Lean_Cert.thy ===== *)
theory Lean_Cert
  imports Lean_Stwo
begin

text \<open>
  \<open>x/leanval/cwffi/payload.go\<close> and \<open>cert.go\<close>, with the engine side of the same wire formats,
  \<open>crates/lean-cw-ffi/src/cert.rs\<close> and \<open>scheme.rs\<close>: the opaque block a consensus
  round carries, the finalization certificate, and the weight test a certificate must pass.
  The signature check itself belongs to the consensus library and is a parameter of the driver.
\<close>

subsection \<open>Block payloads\<close>

definition payloadMagic :: bytes where "payloadMagic = [0x4C, 0x4E, 0x43, 0x57]"
definition payloadVersion :: byte where "payloadVersion = 1"

record Payload =
  pl_Height :: i64
  pl_Txs :: "bytes list"

definition encTx :: "bytes \<Rightarrow> bytes" where
  "encTx tx = PutU32 (word_of_nat (length tx)) @ tx"

definition Payload_Encode :: "Payload \<Rightarrow> bytes" where
  "Payload_Encode p =
    payloadMagic @ [payloadVersion] @ putU64 (pl_Height p) @
    PutU32 (word_of_nat (length (pl_Txs p))) @ concat (map encTx (pl_Txs p))"

text \<open>The decoding loop: \<open>n\<close> length-prefixed transactions, the rest of the bytes unread.\<close>

fun decTxs :: "nat \<Rightarrow> bytes \<Rightarrow> bytes list option" where
  "decTxs 0 b = Some []"
| "decTxs (Suc n) b =
    (if length b < 4 then None
     else let ln = unat (GetU32 (take 4 b)); b = drop 4 b in
       if length b < ln then None
       else map_option ((#) (take ln b)) (decTxs n (drop ln b)))"

definition DecodePayload :: "bytes \<Rightarrow> lean_error + Payload" where
  "DecodePayload b =
    (if length b < 4 + 1 + 8 + 4 then Inl (Errorf ''lean-cw: payload truncated'')
     else if take 4 b \<noteq> payloadMagic then Inl (Errorf ''lean-cw: bad magic'')
     else if b ! 4 \<noteq> payloadVersion then Inl (Errorf ''lean-cw: bad version'')
     else let height = GetU64 (take 8 (drop 5 b));
              n = unat (GetU32 (take 4 (drop 13 b)))
          in case decTxs n (drop 17 b) of
               None \<Rightarrow> Inl (Errorf ''lean-cw: payload truncated'')
             | Some txs \<Rightarrow> Inr \<lparr>pl_Height = height, pl_Txs = txs\<rparr>)"

definition wf_Payload :: "Payload \<Rightarrow> bool" where
  "wf_Payload p \<longleftrightarrow> length (pl_Txs p) < 2 ^ 32 \<and> (\<forall>tx \<in> set (pl_Txs p). length tx < 2 ^ 32)"

lemma length_payloadMagic [simp]: "length payloadMagic = 4"
  by (simp add: payloadMagic_def)

lemma decTxs_iff:
  "decTxs n b = Some txs \<longleftrightarrow>
     length txs = n \<and> (\<forall>tx \<in> set txs. length tx < 2 ^ 32) \<and> (\<exists>junk. b = concat (map encTx txs) @ junk)"
proof (induction n arbitrary: b txs)
  case (Suc n)
  show ?case
  proof
    assume D: "decTxs (Suc n) b = Some txs"
    define ln where "ln = unat (GetU32 (take 4 b))"
    define r where "r = drop 4 b"
    from D obtain ts where len: "4 \<le> length b" "ln \<le> length r" and ts: "decTxs n (drop ln r) = Some ts"
      and txs: "txs = take ln r # ts"
      by (auto simp: Let_def ln_def r_def split: if_splits)
    obtain junk where j: "length ts = n" "\<forall>tx \<in> set ts. length tx < 2 ^ 32" "drop ln r = concat (map encTx ts) @ junk"
      using ts Suc.IH by blast
    have ln: "ln < 2 ^ 32" unfolding ln_def by (rule unat_u32_less)
    have "encTx (take ln r) = take 4 b @ take ln r"
      using len ln by (simp add: encTx_def ln_def PutU32_GetU32)
    then have "encTx (take ln r) @ concat (map encTx ts) @ junk = take 4 b @ (take ln r @ drop ln r)"
      by (simp add: j(3) del: append_take_drop_id)
    then have "b = encTx (take ln r) @ concat (map encTx ts) @ junk"
      by (simp only: append_take_drop_id r_def)
    then show "length txs = Suc n \<and> (\<forall>tx \<in> set txs. length tx < 2 ^ 32) \<and> (\<exists>junk. b = concat (map encTx txs) @ junk)"
      using j ln len by (auto simp: txs)
  next
    assume R: "length txs = Suc n \<and> (\<forall>tx \<in> set txs. length tx < 2 ^ 32) \<and> (\<exists>junk. b = concat (map encTx txs) @ junk)"
    then obtain t ts junk where t: "txs = t # ts" "length ts = n" "length t < 2 ^ 32" "\<forall>tx \<in> set ts. length tx < 2 ^ 32"
      and b: "b = encTx t @ concat (map encTx ts) @ junk" by (cases txs) auto
    have "decTxs n (concat (map encTx ts) @ junk) = Some ts" using Suc.IH t by blast
    then show "decTxs (Suc n) b = Some txs"
      using t by (simp add: b encTx_def Let_def GetU32_PutU32 unat_word_of_nat_u32)
  qed
qed auto

lemma frame_17:
  assumes "17 \<le> length b"
  shows "b = take 4 b @ [b ! 4] @ take 8 (drop 5 b) @ take 4 (drop 13 b) @ drop 17 b"
proof -
  have "take 4 (drop 13 b) @ drop 17 b = drop 13 b"
    using append_take_drop_id [of 4 "drop 13 b"] by simp
  moreover have "take 8 (drop 5 b) @ drop 13 b = drop 5 b"
    using append_take_drop_id [of 8 "drop 5 b"] by simp
  moreover have "[b ! 4] @ drop 5 b = drop 4 b"
    using assms Cons_nth_drop_Suc [of 4 b] by simp
  ultimately show ?thesis by simp
qed

lemma DecodePayload_enc: "wf_Payload p \<Longrightarrow> DecodePayload (Payload_Encode p @ junk) = Inr p"
proof -
  assume wf: "wf_Payload p"
  define t where "t = concat (map encTx (pl_Txs p)) @ junk"
  have d: "decTxs (length (pl_Txs p)) t = Some (pl_Txs p)"
    using decTxs_iff wf by (auto simp: wf_Payload_def t_def)
  have e: "Payload_Encode p @ junk = payloadMagic @ [payloadVersion] @ putU64 (pl_Height p) @
      PutU32 (word_of_nat (length (pl_Txs p))) @ t"
    by (simp add: Payload_Encode_def t_def)
  show ?thesis
    using wf d unfolding e DecodePayload_def wf_Payload_def
    by (simp add: nth_append unat_word_of_nat_u32 GetU64_putU64 GetU32_PutU32)
qed

lemma DecodePayload_only:
  assumes D: "DecodePayload b = Inr p"
  shows "wf_Payload p \<and> (\<exists>junk. b = Payload_Encode p @ junk)"
proof -
  define n where "n = unat (GetU32 (take 4 (drop 13 b)))"
  from D have len: "17 \<le> length b" and m: "take 4 b = payloadMagic" and v: "b ! 4 = payloadVersion"
    and h: "pl_Height p = GetU64 (take 8 (drop 5 b))" and t: "decTxs n (drop 17 b) = Some (pl_Txs p)"
    unfolding DecodePayload_def Let_def n_def [symmetric] by (simp_all split: if_splits option.splits) auto
  obtain junk where j: "length (pl_Txs p) = n" "\<forall>tx \<in> set (pl_Txs p). length tx < 2 ^ 32"
     "drop 17 b = concat (map encTx (pl_Txs p)) @ junk" using t [unfolded decTxs_iff] by blast
  have n: "n < 2 ^ 32" unfolding n_def by (rule unat_u32_less)
  have "PutU32 (word_of_nat n) = take 4 (drop 13 b)" using len by (simp add: n_def PutU32_GetU32)
  moreover have "putU64 (pl_Height p) = take 8 (drop 5 b)" using len by (simp add: h putU64_GetU64)
  ultimately have "Payload_Encode p @ junk = take 4 b @ [b ! 4] @ take 8 (drop 5 b) @ take 4 (drop 13 b) @ drop 17 b"
    by (simp add: Payload_Encode_def j m v)
  then have "b = Payload_Encode p @ junk" using frame_17 [OF len] by (simp only:)
  then show ?thesis using j(1,2) n unfolding wf_Payload_def by blast
qed

lemma DecodePayload_iff:
  "DecodePayload b = Inr p \<longleftrightarrow> wf_Payload p \<and> (\<exists>junk. b = Payload_Encode p @ junk)"
  using DecodePayload_enc DecodePayload_only by blast

subsection \<open>Certificates\<close>

definition lcertMagic :: bytes where "lcertMagic = [0x4C, 0x43, 0x45, 0x52, 0x54]"
definition lcertVersion :: byte where "lcertVersion = 1"

record CertSigner =
  cs_Index :: u32
  cs_Signature :: bytes

record LeanCert =
  lc_Epoch :: u64
  lc_View :: u64
  lc_Digest :: bytes
  lc_Signers :: "CertSigner list"
  lc_Raw :: bytes

definition zeroCert :: LeanCert where
  "zeroCert = \<lparr>lc_Epoch = 0, lc_View = 0, lc_Digest = [], lc_Signers = [], lc_Raw = []\<rparr>"

text \<open>The signer loop of the parser, on the bytes from the first signer on.\<close>

fun readSigners :: "nat \<Rightarrow> bytes \<Rightarrow> CertSigner list" where
  "readSigners 0 b = []"
| "readSigners (Suc n) b =
    \<lparr>cs_Index = GetU32 (take 4 b), cs_Signature = take 64 (drop 4 b)\<rparr> # readSigners n (drop 68 b)"

text \<open>
  The source returns the certificate as far as it was read together with the error, and the
  caller uses it: the model returns both.
\<close>

definition ParseLeanCert :: "bytes \<Rightarrow> LeanCert \<times> lean_error option" where
  "ParseLeanCert b =
    (if length b < 5 + 1 + 8 + 8 + 32 + 4 then (zeroCert, Some (Errorf ''lean-cw: truncated certificate''))
     else if take 5 b \<noteq> lcertMagic then (zeroCert\<lparr>lc_Raw := b\<rparr>, None)
     else if b ! 5 \<noteq> lcertVersion then (zeroCert, Some (Errorf ''lean-cw: bad cert version''))
     else let z = zeroCert\<lparr>lc_Epoch := GetU64 (take 8 (drop 6 b)), lc_View := GetU64 (take 8 (drop 14 b)),
                    lc_Digest := take 32 (drop 22 b)\<rparr>;
              n = unat (GetU32 (take 4 (drop 54 b)))
       in if n > 4096 then (z, Some (Errorf ''lean-cw: absurd signer count''))
          else if length b < 58 + n * 68 + 4 then (z, Some (Errorf ''lean-cw: truncated signers''))
          else let z = z\<lparr>lc_Signers := readSigners n (drop 58 b)\<rparr>;
                   i = 58 + n * 68;
                   rawLen = unat (GetU32 (take 4 (drop i b)));
                   i = i + 4
               in if i + rawLen > length b then (z, Some (Errorf ''lean-cw: truncated raw finalization''))
                  else (z\<lparr>lc_Raw := take rawLen (drop i b)\<rparr>, None))"

definition HasIndex :: "LeanCert \<Rightarrow> u32 \<Rightarrow> bool" where
  "HasIndex c idx = (\<exists>s \<in> set (lc_Signers c). cs_Index s = idx)"

definition HasPubkey :: "LeanCert \<Rightarrow> bytes \<Rightarrow> bytes \<Rightarrow> bool" where
  "HasPubkey c pks pk =
    (if length pk \<noteq> 32 \<or> length pks mod 32 \<noteq> 0 then False
     else \<exists>s \<in> set (lc_Signers c).
       let off = unat (cs_Index s) * 32
       in off + 32 \<le> length pks \<and> take 32 (drop off pks) = pk)"

definition signedWeight :: "LeanCert \<Rightarrow> u64 list \<Rightarrow> u64" where
  "signedWeight c weights =
    fold (\<lambda>s w. if unat (cs_Index s) < length weights then w + weights ! unat (cs_Index s) else w)
      (lc_Signers c) 0"

definition totalWeight :: "u64 list \<Rightarrow> u64" where
  "totalWeight weights = fold (\<lambda>w t. t + w) weights 0"

definition MeetsWeight :: "u64 \<Rightarrow> u64 \<Rightarrow> bool" where
  "MeetsWeight sw tw \<longleftrightarrow> tw > 0 \<and> sw * 3 > tw * 2"

fun containsDSTW :: "bytes \<Rightarrow> bool" where
  "containsDSTW [] = False"
| "containsDSTW (x # xs) = (take 4 (x # xs) = dummyMagic \<or> containsDSTW xs)"

text \<open>The engine side, \<open>crates/lean-cw-ffi/src/cert.rs\<close> and \<open>scheme.rs\<close>.\<close>

definition saturating_mul :: "u64 \<Rightarrow> nat \<Rightarrow> u64" where
  "saturating_mul a n = (if unat a * n < 2 ^ 64 then word_of_nat (unat a * n) else - 1)"

definition meets_weight :: "u64 \<Rightarrow> u64 \<Rightarrow> bool" where
  "meets_weight sw tw \<longleftrightarrow> tw > 0 \<and> saturating_mul sw 3 > saturating_mul tw 2"

record Finalization =
  fz_epoch :: u64
  fz_view :: u64
  fz_payload :: bytes
  fz_signers :: "u32 list"
  fz_signatures :: "bytes option list"
  fz_encoded :: bytes

fun lcert_slots :: "u32 list \<Rightarrow> bytes option list \<Rightarrow> bytes" where
  "lcert_slots [] sigs = []"
| "lcert_slots (idx # signers) sigs =
    PutU32 idx @
    (case sigs of Some sig # _ \<Rightarrow> copy_pad 64 sig | _ \<Rightarrow> replicate 64 0) @
    lcert_slots signers (tl sigs)"

definition encode_lcert :: "Finalization \<Rightarrow> bytes" where
  "encode_lcert f =
    (let raw = fz_encoded f; n = word_of_nat (length (fz_signers f)) :: u32
     in lcertMagic @ [lcertVersion] @ putU64 (fz_epoch f) @ putU64 (fz_view f) @ fz_payload f @
        PutU32 n @ lcert_slots (fz_signers f) (fz_signatures f) @
        PutU32 (word_of_nat (length raw)) @ raw)"

definition contains_dstw :: "bytes \<Rightarrow> bool" where
  "contains_dstw payload = (\<exists>i < length payload - 3. take 4 (drop i payload) = dummyMagic)"

definition cert_of :: "Finalization \<Rightarrow> LeanCert" where
  "cert_of f = \<lparr>lc_Epoch = fz_epoch f, lc_View = fz_view f, lc_Digest = fz_payload f,
     lc_Signers = map2 (\<lambda>i s. \<lparr>cs_Index = i, cs_Signature = copy_pad 64 (the s)\<rparr>) (fz_signers f) (fz_signatures f),
     lc_Raw = fz_encoded f\<rparr>"

definition wf_Finalization :: "Finalization \<Rightarrow> bool" where
  "wf_Finalization f \<longleftrightarrow> length (fz_payload f) = 32 \<and> length (fz_signers f) \<le> 4096 \<and>
     length (fz_signatures f) = length (fz_signers f) \<and> None \<notin> set (fz_signatures f) \<and>
     length (fz_encoded f) < 2 ^ 32"

lemma length_lcertMagic [simp]: "length lcertMagic = 5"
  by (simp add: lcertMagic_def)

lemma length_dummyMagic [simp]: "length dummyMagic = 4"
  by (simp add: dummyMagic_def)

lemma length_lcert_slots [simp]: "length (lcert_slots ss gs) = 68 * length ss"
  by (induction ss gs rule: lcert_slots.induct) (auto split: list.split option.split)

lemma readSigners_slots:
  "length gs = length ss \<Longrightarrow> None \<notin> set gs \<Longrightarrow>
   readSigners (length ss) (lcert_slots ss gs @ rest) =
     map2 (\<lambda>i s. \<lparr>cs_Index = i, cs_Signature = copy_pad 64 (the s)\<rparr>) ss gs"
proof (induction ss arbitrary: gs)
  case (Cons i ss)
  then obtain g hs where g: "gs = Some g # hs" "length hs = length ss" "None \<notin> set hs"
    by (cases gs; cases "hd gs") auto
  then show ?case using Cons.IH [OF g(2,3)] by (simp add: GetU32_PutU32)
qed simp

lemma ParseLeanCert_encode:
  assumes "wf_Finalization f"
  shows "ParseLeanCert (encode_lcert f @ junk) = (cert_of f, None)"
proof -
  define n where "n = length (fz_signers f)"
  define body where "body = lcert_slots (fz_signers f) (fz_signatures f)"
  define t where "t = PutU32 (word_of_nat (length (fz_encoded f))) @ fz_encoded f @ junk"
  define b where "b = lcertMagic @ [lcertVersion] @ putU64 (fz_epoch f) @ putU64 (fz_view f) @ fz_payload f @
        PutU32 (word_of_nat n) @ body @ t"
  have e: "encode_lcert f @ junk = b" by (simp add: encode_lcert_def b_def t_def n_def body_def Let_def)
  have l: "length (fz_payload f) = 32" "n \<le> 4096" "length (fz_encoded f) < 2 ^ 32"
     "length body = 68 * n"
    using assms by (simp_all add: wf_Finalization_def n_def body_def)
  have n32: "unat (word_of_nat n :: u32) = n" using l(2) by (intro unat_word_of_nat_u32) simp
  have lb: "length b = 58 + 68 * n + length t" by (simp add: b_def l)
  have lt: "length t = 4 + length (fz_encoded f) + length junk" by (simp add: t_def)
  have d58: "drop 58 b = body @ t" by (simp add: b_def l)
  have "drop (58 + n * 68) b = drop (n * 68) (drop 58 b)" by (simp add: add.commute)
  then have dt: "drop (58 + n * 68) b = t" by (simp add: d58 l)
  have sg: "readSigners n (drop 58 b) = lc_Signers (cert_of f)"
    using assms readSigners_slots [of "fz_signatures f" "fz_signers f" t]
    by (simp add: d58 cert_of_def body_def n_def wf_Finalization_def)
  have raw: "unat (GetU32 (take 4 t)) = length (fz_encoded f)"
    by (simp add: t_def GetU32_PutU32 unat_word_of_nat_u32 [OF l(3)])
  have d4: "drop (62 + n * 68) b = drop 4 t" using drop_drop [of 4 "58 + n * 68" b] by (simp add: dt)
  have "take (length (fz_encoded f)) (drop 4 t) = fz_encoded f" by (simp add: t_def)
  moreover have "take 5 b = lcertMagic" "b ! 5 = lcertVersion" "take 8 (drop 6 b) = putU64 (fz_epoch f)"
    "take 8 (drop 14 b) = putU64 (fz_view f)" "take 32 (drop 22 b) = fz_payload f"
    "take 4 (drop 54 b) = PutU32 (word_of_nat n)"
    by (simp_all add: b_def l nth_append)
  ultimately show ?thesis
    using l(2) unfolding e ParseLeanCert_def Let_def
    by (simp add: lb lt dt d4 raw sg n32 GetU64_putU64 GetU32_PutU32 zeroCert_def cert_of_def)
qed

subsection \<open>Weights\<close>

text \<open>
  A weighted voter set: two sets of voters that each hold more than two thirds of the weight
  share voters holding more than one third of it.
\<close>

locale weighted_voters =
  fixes voters :: "'p set"
    and weight :: "'p \<Rightarrow> nat"
  assumes finite_voters: "finite voters"
begin

definition supermajority :: "'p set \<Rightarrow> bool" where
  "supermajority Q \<longleftrightarrow> Q \<subseteq> voters \<and> 3 * sum weight Q > 2 * sum weight voters"

lemma intersect_weight:
  assumes "supermajority Q" "supermajority R"
  shows "3 * sum weight (Q \<inter> R) > sum weight voters"
proof -
  have fin: "finite Q" "finite R" and sub: "Q \<union> R \<subseteq> voters"
    using assms finite_voters finite_subset by (auto simp: supermajority_def)
  have "sum weight Q + sum weight R = sum weight (Q \<union> R) + sum weight (Q \<inter> R)"
    using fin by (rule sum.union_inter [symmetric])
  moreover have "sum weight (Q \<union> R) \<le> sum weight voters"
    using sub finite_voters by (simp add: sum_mono2)
  ultimately show ?thesis using assms by (simp add: supermajority_def)
qed

lemma intersect_nonempty:
  assumes "supermajority Q" "supermajority R"
  shows "\<exists>p \<in> Q \<inter> R. weight p > 0"
  using intersect_weight [OF assms] by (metis gr0I mult_0_right not_less_zero sum.neutral)

lemma supermajority_mono: "supermajority Q \<Longrightarrow> Q \<subseteq> R \<Longrightarrow> R \<subseteq> voters \<Longrightarrow> supermajority R"
  unfolding supermajority_def
  using sum_mono2 [of R Q weight] finite_subset [OF _ finite_voters] by fastforce

end

interpretation bonded: weighted_voters "{..< length ws}" "\<lambda>i. unat (ws ! i :: u64)" for ws
  by unfold_locales simp

text \<open>The participants a certificate names, and their weight as a number.\<close>

definition cert_voters :: "LeanCert \<Rightarrow> u64 list \<Rightarrow> nat set" where
  "cert_voters c ws = {i. i < length ws \<and> HasIndex c (word_of_nat i)} \<inter> {..< 2 ^ 32}"

definition total_nat :: "u64 list \<Rightarrow> nat" where
  "total_nat ws = sum_list (map unat ws)"

lemma unat_fold_add:
  "unat t + sum_list (map unat ws) < 2 ^ 64 \<Longrightarrow> unat (fold (\<lambda>w t. t + w) ws t) = unat (t :: u64) + sum_list (map unat ws)"
proof (induction ws arbitrary: t)
  case (Cons w ws)
  have "unat t + unat w < 2 ^ 64" using Cons.prems by simp
  then have "unat (t + w) = unat t + unat w" by (simp add: unat_word_ariths)
  then show ?case using Cons by simp
qed simp

lemma unat_totalWeight: "total_nat ws < 2 ^ 64 \<Longrightarrow> unat (totalWeight ws) = total_nat ws"
  using unat_fold_add [of 0 ws] by (simp add: totalWeight_def total_nat_def)

lemma total_nat_sum: "total_nat ws = (\<Sum>i < length ws. unat (ws ! i))"
  by (simp add: total_nat_def sum_list_sum_nth atLeast0LessThan)

definition signed_list :: "LeanCert \<Rightarrow> u64 list \<Rightarrow> u64 list" where
  "signed_list c ws = map ((!) ws) (filter (\<lambda>i. i < length ws) (map (\<lambda>s. unat (cs_Index s)) (lc_Signers c)))"

lemma signedWeight_eq: "signedWeight c ws = fold (\<lambda>w t. t + w) (signed_list c ws) 0"
proof -
  have "fold (\<lambda>s w. if unat (cs_Index s) < length ws then w + ws ! unat (cs_Index s) else w) ss t =
     fold (\<lambda>w t. t + w) (map ((!) ws) (filter (\<lambda>i. i < length ws) (map (\<lambda>s. unat (cs_Index s)) ss))) t" for ss t
    by (induction ss arbitrary: t) auto
  then show ?thesis by (simp add: signedWeight_def signed_list_def)
qed

lemma cert_voters_eq: "cert_voters c ws = set (filter (\<lambda>i. i < length ws) (map (\<lambda>s. unat (cs_Index s)) (lc_Signers c)))"
proof (rule set_eqI)
  fix i
  have "unat a = i \<longleftrightarrow> a = word_of_nat i \<and> i < 2 ^ 32" for a :: u32
    using unat_u32_less [of a] unat_word_of_nat_u32 [of i] by auto
  then show "i \<in> cert_voters c ws \<longleftrightarrow> i \<in> set (filter (\<lambda>i. i < length ws) (map (\<lambda>s. unat (cs_Index s)) (lc_Signers c)))"
    unfolding cert_voters_def HasIndex_def by (auto simp: image_iff intro!: sym [of _ i])
qed

lemma signed_list_sum:
  assumes "distinct (map cs_Index (lc_Signers c))"
  shows "total_nat (signed_list c ws) = (\<Sum>i \<in> cert_voters c ws. unat (ws ! i))"
proof -
  have "distinct (map (\<lambda>s. unat (cs_Index s)) (lc_Signers c))"
    using assms by (simp add: distinct_map inj_on_def flip: word_unat_eq_iff)
  then show ?thesis
    unfolding cert_voters_eq total_nat_def signed_list_def
    by (subst sum.distinct_set_conv_list) (simp_all add: comp_def)
qed

lemma signedWeight_exact:
  assumes "distinct (map cs_Index (lc_Signers c))" "total_nat ws < 2 ^ 64"
  shows "unat (signedWeight c ws) = (\<Sum>i \<in> cert_voters c ws. unat (ws ! i))"
proof -
  have "(\<Sum>i \<in> cert_voters c ws. unat (ws ! i)) \<le> total_nat ws"
    unfolding total_nat_sum by (rule sum_mono2) (auto simp: cert_voters_def)
  then show ?thesis
    using unat_fold_add [of 0 "signed_list c ws"] assms signed_list_sum [OF assms(1), of ws]
    by (simp add: signedWeight_eq total_nat_def)
qed

lemma MeetsWeight_exact:
  assumes "3 * unat sw < 2 ^ 64" "2 * unat tw < 2 ^ 64"
  shows "MeetsWeight sw tw \<longleftrightarrow> 0 < unat tw \<and> 3 * unat sw > 2 * unat tw"
proof -
  have "unat (sw * 3) = 3 * unat sw" "unat (tw * 2) = 2 * unat tw"
    using assms by (simp_all add: unat_word_ariths)
  then show ?thesis unfolding MeetsWeight_def word_less_nat_alt by simp
qed

lemma unat_word_of_nat_u64: "n < 2 ^ 64 \<Longrightarrow> unat (word_of_nat n :: u64) = n"
  by (simp add: unsigned_of_nat take_bit_nat_eq_self)

lemma unat_saturating_mul: "unat (saturating_mul a n) = min (unat a * n) (2 ^ 64 - 1)"
proof (cases "unat a * n < 2 ^ 64")
  case True
  then show ?thesis unfolding saturating_mul_def by (simp only: if_True unat_word_of_nat_u64)
next
  case False
  then show ?thesis by (simp add: saturating_mul_def unsigned_minus_1_eq_mask mask_eq_exp_minus_1)
qed

lemma meets_weight_iff:
  "meets_weight sw tw \<longleftrightarrow> 0 < unat tw \<and> 2 * unat tw < min (3 * unat sw) (2 ^ 64 - 1)"
  unfolding meets_weight_def word_less_nat_alt unat_saturating_mul by auto

lemma cert_voters_supermajority:
  assumes "distinct (map cs_Index (lc_Signers c))" "3 * total_nat ws < 2 ^ 64"
    and "MeetsWeight (signedWeight c ws) (totalWeight ws)"
  shows "bonded.supermajority ws (cert_voters c ws)"
proof -
  have t: "unat (totalWeight ws) = total_nat ws" and s: "unat (signedWeight c ws) = (\<Sum>i \<in> cert_voters c ws. unat (ws ! i))"
    using assms by (simp_all add: unat_totalWeight signedWeight_exact)
  have "(\<Sum>i \<in> cert_voters c ws. unat (ws ! i)) \<le> total_nat ws"
    unfolding total_nat_sum by (rule sum_mono2) (auto simp: cert_voters_def)
  then have "3 * unat (signedWeight c ws) > 2 * unat (totalWeight ws)"
    using assms(2,3) MeetsWeight_exact [of "signedWeight c ws" "totalWeight ws"] by (simp add: s t)
  then show ?thesis by (auto simp: bonded.supermajority_def s t total_nat_sum cert_voters_def)
qed

text \<open>C22. Quorum intersection: two certificates over the same weights that both meet the two-thirds test,
  each naming its signers once, share signers holding more than a third of the total weight.\<close>

theorem certificates_intersect:
  assumes "distinct (map cs_Index (lc_Signers c))" "distinct (map cs_Index (lc_Signers d))"
    and "3 * total_nat ws < 2 ^ 64"
    and "MeetsWeight (signedWeight c ws) (totalWeight ws)" "MeetsWeight (signedWeight d ws) (totalWeight ws)"
  shows "3 * (\<Sum>i \<in> {i. i < length ws \<and> HasIndex c (word_of_nat i) \<and> HasIndex d (word_of_nat i)}. unat (ws ! i))
    > total_nat ws"
proof -
  have "3 * (\<Sum>i \<in> cert_voters c ws \<inter> cert_voters d ws. unat (ws ! i)) > total_nat ws"
    unfolding total_nat_sum
    by (rule bonded.intersect_weight; rule cert_voters_supermajority; fact assms)
  also have "(\<Sum>i \<in> cert_voters c ws \<inter> cert_voters d ws. unat (ws ! i)) \<le>
     (\<Sum>i \<in> {i. i < length ws \<and> HasIndex c (word_of_nat i) \<and> HasIndex d (word_of_nat i)}. unat (ws ! i))"
    by (rule sum_mono2) (auto simp: cert_voters_def)
  finally show ?thesis by simp
qed

subsection \<open>Properties\<close>

text \<open>C26. What the Rust engine writes with \<open>encode_lcert\<close>, the Go parser reads back: epoch, view, digest,
  every signer with its signature padded to 64 bytes, and the raw finalization, whatever follows.\<close>

theorem lcert_roundtrip:
  assumes "wf_Finalization f"
  shows "ParseLeanCert (encode_lcert f @ junk) = (cert_of f, None)"
  using assms by (rule ParseLeanCert_encode)

definition demo_finalization :: Finalization where
  "demo_finalization = \<lparr>fz_epoch = 1, fz_view = 9, fz_payload = replicate 32 7, fz_signers = [0, 2],
     fz_signatures = [Some (replicate 64 1), Some [5]], fz_encoded = [1, 2, 3]\<rparr>"

theorem lcert_roundtrip_witness:
  "ParseLeanCert (encode_lcert demo_finalization @ [9]) = (cert_of demo_finalization, None) \<and>
   map cs_Index (lc_Signers (cert_of demo_finalization)) = [0, 2]"
proof -
  have "wf_Finalization demo_finalization" by (simp add: wf_Finalization_def demo_finalization_def)
  then show ?thesis using lcert_roundtrip [of demo_finalization "[9]"]
    by (simp add: cert_of_def demo_finalization_def)
qed

definition demo_cert :: "u32 list \<Rightarrow> LeanCert" where
  "demo_cert is = zeroCert\<lparr>lc_Signers := map (\<lambda>i. \<lparr>cs_Index = i, cs_Signature = replicate 64 1\<rparr>) is\<rparr>"

theorem certificates_intersect_witness:
  "3 * (\<Sum>i \<in> {i. i < length [10, 20, 30 :: u64] \<and> HasIndex (demo_cert [1, 2]) (word_of_nat i) \<and>
        HasIndex (demo_cert [2, 0, 1]) (word_of_nat i)}. unat ([10, 20, 30 :: u64] ! i)) > 60"
proof -
  have "total_nat [10, 20, 30] = 60" by (simp add: total_nat_def)
  then show ?thesis
    using certificates_intersect [of "demo_cert [1, 2]" "demo_cert [2, 0, 1]" "[10, 20, 30]"]
    by (simp add: demo_cert_def MeetsWeight_def signedWeight_def totalWeight_def)
qed

text \<open>The Go weight test, which wraps on overflow, and the Rust one, which saturates, agree as long as
  neither product reaches the top of the 64-bit range.\<close>

theorem weight_tests_agree:
  assumes "3 * unat sw < 2 ^ 64" "2 * unat tw < 2 ^ 64 - 1"
  shows "MeetsWeight sw tw = meets_weight sw tw"
  using assms by (subst MeetsWeight_exact) (auto simp: meets_weight_iff)

theorem weight_tests_agree_witness:
  "MeetsWeight 101 103 = meets_weight 101 103 \<and> MeetsWeight 101 103"
  using weight_tests_agree [of 101 103] by (simp add: MeetsWeight_def)

lemma weight_tests_differ:
  "meets_weight 0x7000000000000000 0x7000000000000001 \<and> \<not> MeetsWeight 0x7000000000000000 0x7000000000000001"
  by (simp add: meets_weight_iff) (simp add: MeetsWeight_def word_less_nat_alt)

lemma signed_repeat:
  assumes "i < length ws" "i < 2 ^ 32" "k * unat (ws ! i) < 2 ^ 64"
  shows "unat (signedWeight (demo_cert (replicate k (word_of_nat i))) ws) = k * unat (ws ! i)"
proof -
  have l: "signed_list (demo_cert (replicate k (word_of_nat i))) ws = replicate k (ws ! i)"
    using assms(1) by (simp add: signed_list_def demo_cert_def unat_word_of_nat_u32 [OF assms(2)])
  have "unat (fold (\<lambda>w t. t + w) (replicate k (ws ! i)) 0) = unat (0 :: u64) + sum_list (map unat (replicate k (ws ! i)))"
    by (rule unat_fold_add) (use assms(3) in \<open>simp add: sum_list_replicate\<close>)
  then show ?thesis by (simp add: signedWeight_eq l sum_list_replicate)
qed

text \<open>C38. A certificate is not required to name each signer once: for every participant with positive
  weight there is a certificate signed by that participant alone that meets the two-thirds test.\<close>

theorem repeated_signer_meets_weight:
  assumes "i < length ws" "i < 2 ^ 32" "0 < unat (ws ! i)" "6 * total_nat ws < 2 ^ 64"
  shows "\<exists>c. (\<forall>s \<in> set (lc_Signers c). unat (cs_Index s) = i) \<and>
     MeetsWeight (signedWeight c ws) (totalWeight ws)"
proof -
  have wi: "unat (ws ! i) \<le> total_nat ws" unfolding total_nat_def
    using assms(1) by (intro member_le_sum_list) auto
  define m where "m = total_nat ws div unat (ws ! i) + 1"
  have "total_nat ws < m * unat (ws ! i)"
    unfolding m_def using assms(3) by (metis Suc_eq_plus1 dividend_less_div_times mult.commute add.commute mult_Suc plus_nat.simps(2) add_Suc_right)
  moreover have "m * unat (ws ! i) \<le> total_nat ws + unat (ws ! i)"
    unfolding m_def by (simp add: div_times_less_eq_dividend)
  ultimately have m: "total_nat ws < m * unat (ws ! i)" "m * unat (ws ! i) \<le> 2 * total_nat ws"
    using wi by simp_all
  define c where "c = demo_cert (replicate m (word_of_nat i))"
  have "unat (signedWeight c ws) = m * unat (ws ! i)"
    unfolding c_def using assms m by (intro signed_repeat) auto
  moreover have "unat (totalWeight ws) = total_nat ws" using assms(4) by (intro unat_totalWeight) simp
  ultimately have "MeetsWeight (signedWeight c ws) (totalWeight ws)"
    using m assms(3,4) wi by (subst MeetsWeight_exact) simp_all
  moreover have "\<forall>s \<in> set (lc_Signers c). unat (cs_Index s) = i"
    by (auto simp: c_def demo_cert_def unat_word_of_nat_u32 [OF assms(2)])
  ultimately show ?thesis by blast
qed

theorem repeated_signer_meets_weight_witness:
  "\<exists>c. (\<forall>s \<in> set (lc_Signers c). unat (cs_Index s) = 0) \<and>
     MeetsWeight (signedWeight c [1, 100]) (totalWeight [1, 100])"
  using repeated_signer_meets_weight [of 0 "[1, 100]"] by (simp add: total_nat_def)

lemma containsDSTW_Contains: "containsDSTW b = Contains b dummyMagic"
  by (induction b) (auto simp: HasPrefix_def dummyMagic_def numeral_3_eq_3)

text \<open>The two scans for dummy proofs, the Go index loop and the Rust window search, accept the same
  payloads.\<close>

theorem dstw_scans_agree: "containsDSTW b = contains_dstw b"
proof -
  have "containsDSTW b \<longleftrightarrow> (\<exists>ps ss. b = ps @ dummyMagic @ ss)"
    by (simp add: containsDSTW_Contains Contains_iff)
  also have "\<dots> \<longleftrightarrow> contains_dstw b"
  proof
    assume "\<exists>ps ss. b = ps @ dummyMagic @ ss"
    then obtain ps ss where "b = ps @ dummyMagic @ ss" by blast
    then show "contains_dstw b" unfolding contains_dstw_def by (intro exI [of _ "length ps"]) simp
  next
    assume "contains_dstw b"
    then obtain i where "take 4 (drop i b) = dummyMagic" by (auto simp: contains_dstw_def)
    then have "b = take i b @ dummyMagic @ drop 4 (drop i b)" by (metis append_take_drop_id)
    then show "\<exists>ps ss. b = ps @ dummyMagic @ ss" by blast
  qed
  finally show ?thesis .
qed

end
