(* ===== verification/Lean_Participants.thy ===== *)
theory Lean_Participants
  imports Lean_Power Lean_Cert
begin

text \<open>
  \<open>x/leanval/cwffi/participants.go\<close>: the participants and weights of a consensus epoch, read from
  the committed leanval store through the application's query interface. The query function is a
  parameter; \<open>answers\<close> states what the store documents, that a subspace query returns the pairs
  under a prefix. The lemmas follow the raw pairs back to the abstract roster.
\<close>

subsection \<open>Participants\<close>

type_synonym StoreQuery = "string \<Rightarrow> bytes \<Rightarrow> bytes"

definition subspacePath :: string where "subspacePath = ''/store/leanval/subspace''"

text \<open>\<open>if err != nil { return dflt }\<close>, where a run-time panic is not an error to catch.\<close>

definition on_error :: "lean_error + 'a \<Rightarrow> 'a \<Rightarrow> lean_error + 'a" where
  "on_error r dflt =
    (case r of Inr x \<Rightarrow> Inr x | Inl (Panic m) \<Rightarrow> Inl (Panic m) | Inl _ \<Rightarrow> Inr dflt)"

definition active_pubkey :: "bytes \<Rightarrow> rawKV \<Rightarrow> bytes option" where
  "active_pubkey bf p =
    (if length (kv_key p) < 2 \<or> kv_key p ! 0 \<noteq> DepositIndexPrefix then None
     else let subj = drop 1 (kv_key p) in
       if length subj \<noteq> 32 then None
       else if length (kv_value p) < 5 then None
       else if \<not> bitGet bf (GetU32 (drop (length (kv_value p) - 4) (kv_value p))) then None
       else Some subj)"

definition pubkeysFromBits :: "bytes \<Rightarrow> bytes \<Rightarrow> lean_error + bytes list" where
  "pubkeysFromBits bfRaw idxRaw =
    (case on_error (DecodeSubspacePairs bfRaw) [] of
       Inl e \<Rightarrow> Inl e
     | Inr bfPairs \<Rightarrow>
         let bf = fold (\<lambda>p bf. if length (kv_key p) = 1 \<and> kv_key p ! 0 = BitfieldPrefix then kv_value p else bf)
                    bfPairs []
         in if length bf = 0 then Inr []
            else (case on_error (DecodeSubspacePairs idxRaw) [] of
                    Inl e \<Rightarrow> Inl e
                  | Inr idxPairs \<Rightarrow> Inr (List.map_filter (active_pubkey bf) idxPairs)))"

definition pubkeysFromBonded :: "bytes \<Rightarrow> u64 \<Rightarrow> lean_error + bytes list" where
  "pubkeysFromBonded raw epoch =
    (case on_error (DecodeBondedSubspace epoch raw) [] of
       Inl e \<Rightarrow> Inl e
     | Inr rows \<Rightarrow>
         Inr (map row_Subject (filter (\<lambda>r. length (row_Subject r) = 32 \<and> row_HasProof r) rows)))"

definition BondedParticipants :: "StoreQuery option \<Rightarrow> u64 \<Rightarrow> lean_error + bytes" where
  "BondedParticipants q epoch =
    (case q of
       None \<Rightarrow> Inr []
     | Some q \<Rightarrow>
        (case pubkeysFromBits (q subspacePath [BitfieldPrefix]) (q subspacePath [DepositIndexPrefix]) of
           Inl e \<Rightarrow> Inl e
         | Inr pks \<Rightarrow>
            (case (if pks = [] then pubkeysFromBonded (q subspacePath (BondedPrefixForPeriod epoch)) epoch
                   else Inr pks) of
               Inl e \<Rightarrow> Inl e
             | Inr pks \<Rightarrow> Inr (concat (sort pks)))))"

definition eb_pair :: "rawKV \<Rightarrow> (u32 \<rightharpoonup> u64) \<Rightarrow> (u32 \<rightharpoonup> u64)" where
  "eb_pair p m =
    (if length (kv_key p) \<noteq> 5 \<or> kv_key p ! 0 \<noteq> EBPrefix \<or> length (kv_value p) < 1 then m
     else m(GetU32 (drop 1 (kv_key p)) \<mapsto> ucast (kv_value p ! 0)))"

definition idx_pair :: "rawKV \<Rightarrow> (bytes \<rightharpoonup> u32) \<Rightarrow> (bytes \<rightharpoonup> u32)" where
  "idx_pair p m =
    (if length (kv_key p) < 2 \<or> kv_key p ! 0 \<noteq> DepositIndexPrefix then m
     else let subj = drop 1 (kv_key p) in
       if length subj \<noteq> 32 \<or> length (kv_value p) < 5 then m
       else m(subj \<mapsto> GetU32 (drop (length (kv_value p) - 4) (kv_value p))))"

definition weight_for :: "(bytes \<rightharpoonup> u32) \<Rightarrow> (u32 \<rightharpoonup> u64) \<Rightarrow> bytes \<Rightarrow> u64" where
  "weight_for subjIdx ebByIdx subj =
    (case subjIdx subj of
       None \<Rightarrow> 1
     | Some idx \<Rightarrow> (case ebByIdx idx of None \<Rightarrow> 1 | Some w \<Rightarrow> if w > 0 then w else 1))"

definition BondedParticipantsWeights :: "StoreQuery option \<Rightarrow> u64 \<Rightarrow> lean_error + bytes \<times> u64 list" where
  "BondedParticipantsWeights q epoch =
    (case BondedParticipants q epoch of
       Inl e \<Rightarrow> Inl e
     | Inr pks \<Rightarrow>
         if length pks = 0 then Inr ([], [])
         else let n = length pks div 32 in
           (case q of
              None \<Rightarrow> Inr (pks, replicate n 1)
            | Some q \<Rightarrow>
               (case (on_error (DecodeSubspacePairs (q subspacePath [DepositIndexPrefix])) [],
                      on_error (DecodeSubspacePairs (q subspacePath [EBPrefix])) []) of
                  (Inl e, _) \<Rightarrow> Inl e
                | (Inr idxPairs, Inl e) \<Rightarrow> Inl e
                | (Inr idxPairs, Inr ebPairs) \<Rightarrow>
                    let ebByIdx = fold eb_pair ebPairs Map.empty;
                        subjIdx = fold idx_pair idxPairs Map.empty
                    in Inr (pks, map (\<lambda>i. weight_for subjIdx ebByIdx (take 32 (drop (i * 32) pks))) [0..<n]))))"

text \<open>The answers of a store query are the pairs of the committed store under the queried prefix.\<close>

definition answers :: "StoreQuery \<Rightarrow> store \<Rightarrow> bool" where
  "answers q s \<longleftrightarrow>
    (\<forall>pref. q subspacePath pref = encodeKVPairs (map (\<lambda>(k, v). \<lparr>kv_key = k, kv_value = v\<rparr>) (memIteratePrefix pref s)) \<and>
       length (q subspacePath pref) < 2 ^ 63)"

definition active_keys :: "store \<Rightarrow> bytes list" where
  "active_keys s = map m_subject (filter (\<lambda>m. m_active m \<and> length (m_subject m) = 32) (roster s))"

definition vote_weight :: "store \<Rightarrow> bytes \<Rightarrow> nat" where
  "vote_weight s x =
    (case find (\<lambda>m. m_subject m = x) (roster s) of
       None \<Rightarrow> 1
     | Some m \<Rightarrow> (case m_eb m of None \<Rightarrow> 1 | Some e \<Rightarrow> if e = 0 then 1 else unat e))"

lemma answers_pairs:
  assumes "answers q s"
  shows "DecodeSubspacePairs (q subspacePath pref) =
     Inr (map (\<lambda>(k, v). \<lparr>kv_key = k, kv_value = v\<rparr>) (memIteratePrefix pref s))"
proof -
  define ps where "ps = map (\<lambda>(k, v). \<lparr>kv_key = k, kv_value = v\<rparr>) (memIteratePrefix pref s)"
  have q: "q subspacePath pref = encodeKVPairs ps" and l: "length (q subspacePath pref) < 2 ^ 63"
    using assms unfolding answers_def ps_def by blast+
  have "decodeKVPairs (q subspacePath pref) = Inr ps"
    unfolding q by (rule decodeKVPairs_encode) (use l q in simp)
  moreover have "map (\<lambda>p. \<lparr>kv_key = kv_key p, kv_value = kv_value p\<rparr>) ps = ps"
    by (rule map_idI) simp
  ultimately show ?thesis by (simp add: DecodeSubspacePairs_def ps_def)
qed

lemma on_error_Inr [simp]: "on_error (Inr x) d = Inr x"
  by (simp add: on_error_def)

lemma prefix_bitfield: "HasPrefix k [BitfieldPrefix] \<and> length k = 1 \<longleftrightarrow> k = BitfieldKey"
  by (cases k) (auto simp: HasPrefix_def BitfieldKey_def)

lemma fold_pick:
  assumes "distinct (map fst ps)"
  shows "fold (\<lambda>p acc. if fst p = k then snd p else acc) ps d = (case map_of ps k of Some v \<Rightarrow> v | None \<Rightarrow> d)"
  using assms
proof (induction ps arbitrary: d)
  case (Cons p ps)
  then have "map_of ps (fst p) = None" by (simp add: map_of_eq_None_iff)
  with Cons show ?case by auto
qed simp

lemma memIterate_map_of:
  "HasPrefix k pref \<Longrightarrow> map_of (memIteratePrefix pref s) k = memGet s k"
  unfolding memIteratePrefix_def memGet_def
  by (induction s) auto

lemma picked_bitfield:
  assumes "store_ok s"
  shows "fold (\<lambda>p bf. if length (kv_key p) = 1 \<and> kv_key p ! 0 = BitfieldPrefix then kv_value p else bf)
     (map (\<lambda>(k, v). \<lparr>kv_key = k, kv_value = v\<rparr>) (memIteratePrefix [BitfieldPrefix] s)) [] = getb s BitfieldKey"
proof -
  have "fold (\<lambda>p bf. if length (kv_key p) = 1 \<and> kv_key p ! 0 = BitfieldPrefix then kv_value p else bf)
     (map (\<lambda>(k, v). \<lparr>kv_key = k, kv_value = v\<rparr>) ps) d =
     fold (\<lambda>p acc. if fst p = BitfieldKey then snd p else acc) ps d" for ps d
    by (induction ps arbitrary: d) (auto simp: BitfieldKey_def length_Suc_conv)
  then show ?thesis
    using fold_pick [OF mem.iter_distinct [OF assms], of BitfieldKey "[BitfieldPrefix]" "[]"]
      memIterate_map_of [of BitfieldKey "[BitfieldPrefix]" s]
    by (simp add: getb_def BitfieldKey_def HasPrefix_def)
qed

lemma active_pubkey_iff:
  "active_pubkey bf \<lparr>kv_key = DepositIndexKey x, kv_value = v\<rparr> = Some y \<longleftrightarrow>
     y = x \<and> length x = 32 \<and> length v \<ge> 5 \<and> bitGet bf (GetU32 (drop (length v - 4) v))"
  by (auto simp: active_pubkey_def DepositIndexKey_def Let_def)

lemma active_pubkey_SomeD: "active_pubkey bf \<lparr>kv_key = k, kv_value = v\<rparr> = Some y \<Longrightarrow> y = drop 1 k"
  by (simp add: active_pubkey_def Let_def split: if_splits)

lemma set_pubkeys:
  assumes "store_ok s"
  shows "set (List.map_filter (active_pubkey bf)
       (map (\<lambda>(k, v). \<lparr>kv_key = k, kv_value = v\<rparr>) (memIteratePrefix [DepositIndexPrefix] s)))
     = {x. length x = 32 \<and> (\<exists>i. depositIndexOf s x = Some i \<and> bitGet bf i)}" (is "set ?l = ?r")
proof (rule set_eqI)
  fix x
  have "x \<in> set ?l \<longleftrightarrow> (\<exists>k v. (k, v) \<in> set (memIteratePrefix [DepositIndexPrefix] s) \<and>
      active_pubkey bf \<lparr>kv_key = k, kv_value = v\<rparr> = Some x)"
    by (force simp: List.map_filter_def image_iff)
  also have "\<dots> \<longleftrightarrow> (\<exists>y v. memGet s (DepositIndexKey y) = Some v \<and>
      active_pubkey bf \<lparr>kv_key = DepositIndexKey y, kv_value = v\<rparr> = Some x)"
    using assms by (auto simp: mem.iter_set HasPrefix_deposit_iff)
  also have "\<dots> \<longleftrightarrow> x \<in> ?r"
    by (auto simp: active_pubkey_iff depositIndexOf_def getb_def Let_def split: option.splits)
  finally show "x \<in> set ?l \<longleftrightarrow> x \<in> ?r" .
qed

lemma distinct_pubkeys:
  assumes "store_ok s"
  shows "distinct (List.map_filter (active_pubkey bf)
       (map (\<lambda>(k, v). \<lparr>kv_key = k, kv_value = v\<rparr>) (memIteratePrefix [DepositIndexPrefix] s)))"
proof -
  have eq: "List.map_filter (active_pubkey bf) (map (\<lambda>(k, v). \<lparr>kv_key = k, kv_value = v\<rparr>) ps) =
     map (drop 1 \<circ> fst) (filter (\<lambda>(k, v). active_pubkey bf \<lparr>kv_key = k, kv_value = v\<rparr> \<noteq> None) ps)" for ps
    by (induction ps) (auto simp: map_filter_simps split: option.split dest: active_pubkey_SomeD)
  define ps where "ps = filter (\<lambda>(k, v). active_pubkey bf \<lparr>kv_key = k, kv_value = v\<rparr> \<noteq> None) (memIteratePrefix [DepositIndexPrefix] s)"
  have d: "distinct (map fst ps)"
    using mem.iter_distinct [OF assms] unfolding ps_def by (simp add: distinct_map_filter)
  moreover have "inj_on (drop 1) (fst ` set ps)"
  proof (rule inj_onI)
    fix k k' assume "k \<in> fst ` set ps" "k' \<in> fst ` set ps" and e: "drop 1 k = drop 1 k'"
    then obtain x y where "k = DepositIndexKey x" "k' = DepositIndexKey y"
      using assms by (auto simp: ps_def mem.iter_set HasPrefix_deposit_iff)
    with e show "k = k'" by (simp add: DepositIndexKey_def)
  qed
  ultimately have "distinct (map (drop 1) (map fst ps))" by (simp add: distinct_map comp_inj_on)
  then show ?thesis unfolding eq ps_def [symmetric] by simp
qed

lemma set_active_keys:
  assumes "roster_inv s"
  shows "set (active_keys s) = {x. length x = 32 \<and> (\<exists>i. depositIndexOf s x = Some i \<and> BitIsSet s i)}"
proof (intro equalityI subsetI)
  fix x assume "x \<in> set (active_keys s)"
  then obtain n where n: "n < unat (nextDepositIndex s)" "x = m_subject (roster s ! n)" "m_active (roster s ! n)" "length x = 32"
    by (auto simp: active_keys_def in_set_conv_nth)
  then show "x \<in> {x. length x = 32 \<and> (\<exists>i. depositIndexOf s x = Some i \<and> BitIsSet s i)}"
    using roster_subject_nth [OF assms n(1)] by (auto simp: roster_nth member_at_def)
next
  fix x assume "x \<in> {x. length x = 32 \<and> (\<exists>i. depositIndexOf s x = Some i \<and> BitIsSet s i)}"
  then obtain i where i: "length x = 32" "depositIndexOf s x = Some i" "BitIsSet s i" by blast
  then obtain m where m: "m \<in> set (roster s)" "m_subject m = x" using roster_subjects [OF assms] by (metis domI imageE)
  then have "m_active m" using roster_member [OF assms i(2) m] i(3) by (simp add: member_at_def)
  then show "x \<in> set (active_keys s)" using m i(1) by (auto simp: active_keys_def)
qed

lemma distinct_active_keys: "roster_inv s \<Longrightarrow> distinct (active_keys s)"
  unfolding active_keys_def using roster_distinct by (simp add: distinct_map_filter)

lemma BondedParticipants_active:
  assumes "roster_inv s" "answers q s" "active_keys s \<noteq> []"
  shows "BondedParticipants (Some q) epoch = Inr (concat (sort (active_keys s)))"
proof -
  define bf where "bf = getb s BitfieldKey"
  define l where "l = List.map_filter (active_pubkey bf)
       (map (\<lambda>(k, v). \<lparr>kv_key = k, kv_value = v\<rparr>) (memIteratePrefix [DepositIndexPrefix] s))"
  have ok: "store_ok s" using assms(1) by (rule roster_invD(1))
  have "set (active_keys s) \<noteq> {}" using assms(3) by simp
  then obtain x i where "depositIndexOf s x = Some i" "BitIsSet s i"
    unfolding set_active_keys [OF assms(1)] by blast
  then have bf: "bf \<noteq> []" by (auto simp: bf_def BitIsSet_def Bitfield_def bitGet_iff Let_def split: if_splits)
  then have "set l = set (active_keys s)"
    using set_pubkeys [OF ok, of bf] set_active_keys [OF assms(1)]
    by (simp add: l_def BitIsSet_def Bitfield_def bf_def Let_def)
  then have "sort l = sort (active_keys s)"
    using distinct_pubkeys [OF ok, of bf] distinct_active_keys [OF assms(1)]
    by (intro sorted_distinct_set_unique) (simp_all add: l_def)
  moreover have "l \<noteq> []" using \<open>set l = _\<close> assms(3) by auto
  moreover have "pubkeysFromBits (q subspacePath [BitfieldPrefix]) (q subspacePath [DepositIndexPrefix]) = Inr l"
    using bf unfolding pubkeysFromBits_def answers_pairs [OF assms(2)] on_error_Inr sum.case Let_def
      picked_bitfield [OF ok] bf_def [symmetric] l_def by simp
  ultimately show ?thesis by (simp add: BondedParticipants_def)
qed


lemma concat_chunk:
  assumes "\<forall>x \<in> set xs. length x = n" "i < length xs"
  shows "take n (drop (i * n) (concat xs)) = xs ! i"
  using assms
proof (induction xs arbitrary: i)
  case (Cons x xs)
  then show ?case by (cases i) auto
qed simp

lemma length_concat_chunks: "\<forall>x \<in> set xs. length x = n \<Longrightarrow> length (concat xs) = n * length xs"
  by (induction xs) auto

lemma fold_upd_other:
  assumes "\<And>k v m. (k, v) \<in> set ps \<Longrightarrow> f \<lparr>kv_key = k, kv_value = v\<rparr> m a = m a"
  shows "fold f (map (\<lambda>(k, v). \<lparr>kv_key = k, kv_value = v\<rparr>) ps) m a = m a"
  using assms by (induction ps arbitrary: m) auto

lemma fold_upd_one:
  assumes "distinct (map fst ps)" "(k, v) \<in> set ps"
    and "\<And>k' v' m. (k', v') \<in> set ps \<Longrightarrow> k' \<noteq> k \<Longrightarrow> f \<lparr>kv_key = k', kv_value = v'\<rparr> m a = m a"
    and "\<And>m. f \<lparr>kv_key = k, kv_value = v\<rparr> m a = r"
  shows "fold f (map (\<lambda>(k, v). \<lparr>kv_key = k, kv_value = v\<rparr>) ps) m a = r"
proof -
  obtain xs ys where ps: "ps = xs @ (k, v) # ys" using assms(2) by (auto simp: in_set_conv_decomp)
  have "k \<notin> fst ` set ys" using assms(1) by (simp add: ps)
  then have "(k', v') \<in> set ys \<Longrightarrow> k' \<noteq> k" for k' v' by force
  then have "fold f (map (\<lambda>(k, v). \<lparr>kv_key = k, kv_value = v\<rparr>) ys) m' a = m' a" for m'
    using assms(3) by (intro fold_upd_other) (auto simp: ps)
  then show ?thesis by (simp add: ps assms(4))
qed

lemma eb_pair_key: "eb_pair \<lparr>kv_key = EBKey i, kv_value = v\<rparr> m = (case v of [] \<Rightarrow> m | b # _ \<Rightarrow> m(i \<mapsto> ucast b))"
  by (auto simp: eb_pair_def EBKey_eq GetU32_PutU32 Suc_le_eq split: list.split)

lemma eb_pair_other:
  assumes "k \<noteq> EBKey i" shows "eb_pair \<lparr>kv_key = k, kv_value = v\<rparr> m i = m i"
proof -
  have "k = EBKey (GetU32 (drop 1 k))" if "length k = 5" "k ! 0 = EBPrefix"
    using that PutU32_GetU32 [of "drop 1 k"] by (cases k) (auto simp: EBKey_eq)
  then show ?thesis using assms by (auto simp: eb_pair_def)
qed

lemma ebByIdx_lookup:
  assumes "store_ok s"
  shows "fold eb_pair (map (\<lambda>(k, v). \<lparr>kv_key = k, kv_value = v\<rparr>) (memIteratePrefix [EBPrefix] s)) Map.empty i
    = map_option ucast (eb_entry (EBraw s i))" (is "?l = _")
proof (cases "EBraw s i")
  case Nil
  have "?l = None"
  proof (subst fold_upd_other)
    fix k v and m :: "u32 \<Rightarrow> u64 option" assume kv: "(k, v) \<in> set (memIteratePrefix [EBPrefix] s)"
    show "eb_pair \<lparr>kv_key = k, kv_value = v\<rparr> m i = m i"
    proof (cases "k = EBKey i")
      case True
      then have "v = []" using kv Nil assms by (simp add: mem.iter_set EBraw_def getb_def)
      then show ?thesis by (simp add: True eb_pair_key)
    qed (rule eb_pair_other)
  qed simp
  then show ?thesis by (simp add: Nil eb_entry_def)
next
  case (Cons b bs)
  then have g: "memGet s (EBKey i) = Some (b # bs)"
    by (auto simp: EBraw_def getb_def split: option.splits)
  have "?l = Some (ucast b)"
  proof (rule fold_upd_one [OF mem.iter_distinct [OF assms]])
    show "(EBKey i, b # bs) \<in> set (memIteratePrefix [EBPrefix] s)"
      using assms g by (simp add: mem.iter_set HasPrefix_def EBKey_eq)
  qed (simp_all add: eb_pair_other eb_pair_key)
  then show ?thesis by (simp add: Cons eb_entry_def)
qed

lemma idx_pair_key:
  "length x = 32 \<Longrightarrow> 5 \<le> length v \<Longrightarrow>
   idx_pair \<lparr>kv_key = DepositIndexKey x, kv_value = v\<rparr> m = m(x \<mapsto> GetU32 (drop (length v - 4) v))"
  by (simp add: idx_pair_def DepositIndexKey_def)

lemma idx_pair_other: "x \<noteq> y \<Longrightarrow> idx_pair \<lparr>kv_key = DepositIndexKey y, kv_value = v\<rparr> m x = m x"
  by (simp add: idx_pair_def DepositIndexKey_def Let_def)

lemma subjIdx_lookup:
  assumes "store_ok s" "length x = 32" "depositIndexOf s x = Some i"
  shows "fold idx_pair (map (\<lambda>(k, v). \<lparr>kv_key = k, kv_value = v\<rparr>) (memIteratePrefix [DepositIndexPrefix] s)) Map.empty x = Some i"
proof -
  obtain v where v: "memGet s (DepositIndexKey x) = Some v" "5 \<le> length v" "i = GetU32 (drop (length v - 4) v)"
    using assms(3) by (cases "memGet s (DepositIndexKey x)") (auto simp: depositIndexOf_def getb_def Let_def split: if_splits)
  show ?thesis
  proof (rule fold_upd_one [OF mem.iter_distinct [OF assms(1)]])
    show "(DepositIndexKey x, v) \<in> set (memIteratePrefix [DepositIndexPrefix] s)"
      using assms(1) v(1) by (simp add: mem.iter_set HasPrefix_deposit_iff) blast
    fix k' v' and m :: "bytes \<Rightarrow> u32 option"
    assume "(k', v') \<in> set (memIteratePrefix [DepositIndexPrefix] s)" "k' \<noteq> DepositIndexKey x"
    then show "idx_pair \<lparr>kv_key = k', kv_value = v'\<rparr> m x = m x"
      using assms(1) by (auto simp: mem.iter_set HasPrefix_deposit_iff intro!: idx_pair_other)
  qed (simp add: idx_pair_key assms(2) v)
qed

lemma weight_for_vote_weight:
  assumes "roster_inv s" "x \<in> set (active_keys s)"
  shows "weight_for
     (fold idx_pair (map (\<lambda>(k, v). \<lparr>kv_key = k, kv_value = v\<rparr>) (memIteratePrefix [DepositIndexPrefix] s)) Map.empty)
     (fold eb_pair (map (\<lambda>(k, v). \<lparr>kv_key = k, kv_value = v\<rparr>) (memIteratePrefix [EBPrefix] s)) Map.empty) x
    = word_of_nat (vote_weight s x)"
proof -
  have ok: "store_ok s" using assms(1) by (rule roster_invD(1))
  obtain i where i: "length x = 32" "depositIndexOf s x = Some i"
    using assms(2) unfolding set_active_keys [OF assms(1)] by blast
  obtain m where m: "m \<in> set (roster s)" "m_subject m = x"
    using assms(2) by (auto simp: active_keys_def)
  have f: "find (\<lambda>m. m_subject m = x) (roster s) = Some m"
    using find_distinct [OF roster_distinct [OF assms(1)] m(1)] m(2) by simp
  have "m_eb m = eb_entry (EBraw s i)" using roster_member [OF assms(1) i(2) m] by (simp add: member_at_def)
  moreover have "0 < (ucast e :: u64) \<longleftrightarrow> e \<noteq> 0" for e :: byte
    using sint_eq_iff [of "ucast e :: u64" 0] by (simp add: word_gt_0 uint_0_iff del: sint_eq_iff)
  ultimately show ?thesis
    by (simp add: weight_for_def subjIdx_lookup [OF ok i] ebByIdx_lookup [OF ok] vote_weight_def f split: option.split)
qed


lemma participants_weights:
  assumes "roster_inv s" "answers q s" "active_keys s \<noteq> []"
  shows "BondedParticipantsWeights (Some q) epoch =
    Inr (concat (sort (active_keys s)), map (\<lambda>x. word_of_nat (vote_weight s x)) (sort (active_keys s)))"
proof -
  define ks where "ks = sort (active_keys s)"
  define pks where "pks = concat ks"
  have l32: "\<forall>x \<in> set ks. length x = 32" by (auto simp: ks_def active_keys_def)
  have len: "length pks = 32 * length ks" unfolding pks_def using l32 by (rule length_concat_chunks)
  have ne: "ks \<noteq> []" using assms(3) by (simp add: ks_def) (metis set_empty set_sort)
  have chunk: "take 32 (drop (i * 32) pks) = ks ! i" if "i < length ks" for i
    unfolding pks_def using l32 that by (rule concat_chunk)
  have P: "BondedParticipants (Some q) epoch = Inr pks"
    using BondedParticipants_active [OF assms] by (simp add: pks_def ks_def)
  have "map (\<lambda>i. weight_for sI eI (take 32 (drop (i * 32) pks))) [0..<length ks] = map (weight_for sI eI) ks" for sI eI
    by (rule nth_equalityI) (simp_all add: chunk)
  moreover have "map (weight_for
     (fold idx_pair (map (\<lambda>(k, v). \<lparr>kv_key = k, kv_value = v\<rparr>) (memIteratePrefix [DepositIndexPrefix] s)) Map.empty)
     (fold eb_pair (map (\<lambda>(k, v). \<lparr>kv_key = k, kv_value = v\<rparr>) (memIteratePrefix [EBPrefix] s)) Map.empty)) ks
     = map (\<lambda>x. word_of_nat (vote_weight s x)) ks"
    by (rule map_cong [OF refl], rule weight_for_vote_weight [OF assms(1)]) (simp add: ks_def)
  ultimately show ?thesis
    using ne len unfolding BondedParticipantsWeights_def P sum.case option.case answers_pairs [OF assms(2)]
      on_error_Inr prod.case Let_def ks_def [symmetric] pks_def [symmetric]
    by auto
qed

subsection \<open>A one-member store\<close>

lemma length_encode_filter: "length (encodeKVPairs (map f (filter P ps))) \<le> length (encodeKVPairs (map f ps))"
  by (induction ps) (auto simp: encodeKVPairs_def Let_def)

definition store_answers :: "store \<Rightarrow> StoreQuery" where
  "store_answers s path pref =
    (if path = subspacePath
     then encodeKVPairs (map (\<lambda>(k, v). \<lparr>kv_key = k, kv_value = v\<rparr>) (memIteratePrefix pref s)) else [])"

lemma answers_store_answers:
  assumes "length (encodeKVPairs (map (\<lambda>(k, v). \<lparr>kv_key = k, kv_value = v\<rparr>) s)) < 2 ^ 63"
  shows "answers (store_answers s) s"
  unfolding answers_def store_answers_def memIteratePrefix_def
  using order.strict_trans1 [OF length_encode_filter assms] by simp

definition small_store :: store where
  "small_store = [(BitfieldKey, [1]), (DepositIndexKey alice, DepositIndexBytes 0), (EBKey 0, [10]),
     (NextDepositIndexKey, PutU32 1)]"

lemma small_reads:
  "getb small_store BitfieldKey = [1]" "getb small_store NextDepositIndexKey = PutU32 1"
  "getb small_store (EBKey i) = (if i = 0 then [10] else [])"
  "getb small_store (DepositIndexKey x) = (if x = alice then DepositIndexBytes 0 else [])"
  by (simp_all add: small_store_def getb_def memGet_def key_simps eq_commute [of alice])

lemma small_ok: "store_ok small_store"
  by (simp add: small_store_def store_ok_def key_simps)

lemma small_next: "nextDepositIndex small_store = 1"
  by (simp add: nextDepositIndex_def small_reads GetU32_PutU32)

lemma small_index: "depositIndexOf small_store x = (if x = alice then Some 0 else None)"
  by (simp add: depositIndexOf_def small_reads DepositIndexBytes_def GetU32_PutU32)

lemma small_bit: "BitIsSet small_store i \<longleftrightarrow> i = 0"
proof -
  have "bitGet [1] i \<longleftrightarrow> i = 0"
    by (auto simp: bitGet_iff bit_1_iff unat_eq_zero div_eq_0_iff)
  then show ?thesis by (simp add: BitIsSet_def Bitfield_def small_reads)
qed

lemma small_inv: "roster_inv small_store"
  by (auto simp: roster_inv_def small_ok small_next small_index small_bit EBraw_def small_reads alice_def split: if_splits)

lemma small_active: "active_keys small_store = [alice]"
proof -
  have "set (active_keys small_store) = {alice}"
    unfolding set_active_keys [OF small_inv] by (auto simp: small_index small_bit alice_def)
  then show ?thesis using distinct_active_keys [OF small_inv] 
    by (cases "active_keys small_store" rule: remdups_adj.cases) auto
qed

lemma small_encoded: "length (encodeKVPairs (map (\<lambda>(k, v). \<lparr>kv_key = k, kv_value = v\<rparr>) small_store)) < 1000"
  by (simp add: small_store_def encodeKVPairs_def Let_def protoBytes_def BitfieldKey_def DepositIndexKey_def EBKey_eq NextDepositIndexKey_def
   DepositIndexBytes_def alice_def appendUvarint.simps)

lemma small_answers: "answers (store_answers small_store) small_store"
  by (rule answers_store_answers [OF less_trans [OF small_encoded]]) simp

lemma small_vote: "vote_weight small_store alice = 10"
proof -
  have "alice \<in> set (active_keys small_store)" by (simp add: small_active)
  then obtain m where m: "m \<in> set (roster small_store)" "m_subject m = alice" by (auto simp: active_keys_def)
  have "m_eb m = Some 10"
    using roster_member [OF small_inv _ m, of 0] by (simp add: small_index member_at_def EBraw_def small_reads eb_entry_def)
  moreover have "find (\<lambda>m. m_subject m = alice) (roster small_store) = Some m"
    using find_distinct [OF roster_distinct [OF small_inv] m(1)] m(2) by simp
  ultimately show ?thesis by (simp add: vote_weight_def)
qed

lemma small_participants: "BondedParticipantsWeights (Some (store_answers small_store)) 7 = Inr (alice, [10])"
  using participants_weights [OF small_inv small_answers, of 7] by (simp add: small_active small_vote)



subsection \<open>Quorums of members\<close>

lemma vote_weight_le: "vote_weight s x \<le> 255"
proof -
  have "unat (e :: byte) \<le> 255" for e using unat_byte_less [of e] by simp
  then show ?thesis by (auto simp: vote_weight_def split: option.split)
qed

lemma member_weights_small:
  assumes "ws = map (\<lambda>x. word_of_nat (vote_weight s x)) (sort (active_keys s))"
  shows "3 * total_nat ws < 2 ^ 64"
proof -
  have "length (active_keys s) \<le> length (roster s)" unfolding active_keys_def length_map by (rule length_filter_le)
  then have len: "length (active_keys s) < 2 ^ 32" using unat_u32_less [of "nextDepositIndex s"] by simp
  have "unat (word_of_nat (vote_weight s x) :: u64) \<le> 255" for x
    using vote_weight_le [of s x] unat_word_of_nat_u64 [of "vote_weight s x"] by simp
  then have "sum_list (map unat ws) \<le> 255 * length ws"
    unfolding assms using sum_list_mono [of "sort (active_keys s)" "\<lambda>x. unat (word_of_nat (vote_weight s x) :: u64)" "\<lambda>_. 255"]
    by (simp add: comp_def sum_list_triv mult.commute)
  then show ?thesis using len by (simp add: total_nat_def assms)
qed



end
