(* ===== verification/Lean_Keeper.thy ===== *)
theory Lean_Keeper
  imports Lean_Power Lean_Stwo
begin

text \<open>
  \<open>x/leanval/keeper/keeper.go\<close>, \<open>endblock.go\<close>, \<open>genesis.go\<close>, the queue part of
  \<open>membership.go\<close>, the LNPR part of \<open>power.go\<close>, \<open>prove.go\<close> and the dispatch of
  \<open>wasm_sudo.go\<close>. The keeper is a record; the process-wide queue of membership transactions,
  its directory and the live period length are fields of it. A directory is an association list
  from file name (the hash of the transaction) to content, \<open>None\<close> when persistence is
  disabled; input and output errors of the file system are not modelled.
\<close>

subsection \<open>State\<close>

record Keeper =
  k_store :: store
  k_RequireLNPR :: bool
  k_AllowDummy :: bool
  k_ownsValset :: bool
  k_pending :: "ValidatorUpdate list"
  k_endPeriod :: u64
  k_hasKey :: bool
  k_gasUsed :: "nat option"
  k_verifierAcc :: bytes
  k_leanZkID :: u64
  k_hasCtx :: bool
  k_pendingLNPR :: "LNPRBlob option"
  k_live :: i64
  k_queue :: "bytes list"
  k_disk :: "(bytes \<times> bytes) list option"

text \<open>\<open>NewKeeper\<close>: \<open>commonware\<close> says that \<open>LEAN_CONSENSUS\<close> names the Commonware engine.\<close>

definition NewKeeper :: "bool \<Rightarrow> store \<Rightarrow> i64 \<Rightarrow> (bytes \<times> bytes) list option \<Rightarrow> Keeper" where
  "NewKeeper commonware s live disk =
    \<lparr>k_store = s, k_RequireLNPR = True, k_AllowDummy = \<not> commonware, k_ownsValset = False,
     k_pending = [], k_endPeriod = 0, k_hasKey = False, k_gasUsed = None, k_verifierAcc = [],
     k_leanZkID = 0, k_hasCtx = False, k_pendingLNPR = None, k_live = live, k_queue = [],
     k_disk = disk\<rparr>"

definition SetOwnsValset :: "bool \<Rightarrow> Keeper \<Rightarrow> Keeper" where
  "SetOwnsValset v k =
    k\<lparr>k_ownsValset := v, k_store := memSet OwnsValsetKey [if v then 1 else 0] (k_store k)\<rparr>"

definition OwnsValset :: "Keeper \<Rightarrow> bool" where
  "OwnsValset k =
    (let b = getb (k_store k) OwnsValsetKey
     in if length b > 0 then b ! 0 \<noteq> 0 else k_ownsValset k)"

definition SetPendingUpdates :: "ValidatorUpdate list \<Rightarrow> Keeper \<Rightarrow> Keeper" where
  "SetPendingUpdates u k = k\<lparr>k_pending := u\<rparr>"

definition EndBlock :: "Keeper \<Rightarrow> ValidatorUpdate list \<times> Keeper" where
  "EndBlock k =
    (if \<not> OwnsValset k then ([], k)
     else if length (k_pending k) > 0 then (k_pending k, k\<lparr>k_pending := []\<rparr>)
     else ([], k))"

definition QueryBondedSet :: "Keeper \<Rightarrow> u64 \<Rightarrow> SubjectPower list" where
  "QueryBondedSet k period =
    (let s = k_store k; bits = DebugSubjectsFromBits s
     in if (nextDepositIndex s > 0 \<or> length (getb s BitfieldKey) > 0) \<and> length bits > 0
        then bits else BondedSet s period)"

definition BindContext :: "store \<Rightarrow> Keeper \<Rightarrow> Keeper" where
  "BindContext ctx_store k =
    (let k = k\<lparr>k_hasCtx := True, k_store := (if k_hasKey k then ctx_store else k_store k)\<rparr>;
         v = getb (k_store k) PeriodParamKey
     in if length v \<ge> 8 then k\<lparr>k_live := SetBlocksPerPeriod (GetI64 v)\<rparr> else k)"

definition SetModuleVerifier :: "bytes \<Rightarrow> u64 \<Rightarrow> Keeper \<Rightarrow> Keeper" where
  "SetModuleVerifier addr zkid k =
    k\<lparr>k_verifierAcc := addr, k_leanZkID := (if zkid = 0 then 1 else zkid)\<rparr>"

subsection \<open>Genesis\<close>

definition seed_subject :: "(bytes \<Rightarrow> bytes) \<Rightarrow> GenesisSubject \<Rightarrow> store \<Rightarrow> store" where
  "seed_subject H g s =
    (if length (gs_PubKey g) = 0 then s
     else if sint (gs_Weight g) > 0 then AcceptProof H 0 (gs_PubKey g) (gs_Weight g) s
     else PutSubject 0 (gs_PubKey g) 0 s)"

definition InitGenesis :: "(bytes \<Rightarrow> bytes) \<Rightarrow> GenesisState \<Rightarrow> Keeper \<Rightarrow> lean_error + Keeper" where
  "InitGenesis H gs k =
    (case GenesisState_Validate gs of
       Inl e \<Rightarrow> Inl (Panic ''InitGenesis'')
     | Inr _ \<Rightarrow>
         let n = (if sint (gn_BlocksPerPeriod gs) \<le> 0 then BlocksPerPeriod else gn_BlocksPerPeriod gs);
             k = k\<lparr>k_store := memSet PeriodParamKey (PutI64 n) (k_store k),
                   k_live := SetBlocksPerPeriod n\<rparr>;
             k = SetOwnsValset (gn_OwnsValset gs) k;
             k = (if length (gn_VerifierAddr gs) > 0
                  then SetModuleVerifier (gn_VerifierAddr gs) (gn_LeanCodeID gs) k else k)
         in Inr (k\<lparr>k_store := syncObjectRoots H
                     (fold (seed_subject H) (gn_GenesisSubjects gs) (k_store k))\<rparr>))"

definition ExportGenesis :: "Keeper \<Rightarrow> GenesisState" where
  "ExportGenesis k =
    \<lparr>gn_OwnsValset = OwnsValset k, gn_VerifierAddr = [], gn_LeanCodeID = 0,
     gn_GenesisSubjects = map (\<lambda>s. \<lparr>gs_PubKey = pw_Subject s, gs_Weight = pw_Weight s\<rparr>)
       (DebugSubjectsFromBits (k_store k)),
     gn_BlocksPerPeriod = BlocksPerPeriodLive (k_live k)\<rparr>"

subsection \<open>The membership queue\<close>

definition persistMembershipFile :: "(bytes \<Rightarrow> bytes) \<Rightarrow> bytes \<Rightarrow> Keeper \<Rightarrow> Keeper" where
  "persistMembershipFile H tx k = k\<lparr>k_disk := map_option (AList.update (H tx) tx) (k_disk k)\<rparr>"

definition loadMembershipFiles :: "Keeper \<Rightarrow> bytes list" where
  "loadMembershipFiles k =
    (case k_disk k of None \<Rightarrow> [] | Some files \<Rightarrow> filter IsMembershipTx (map snd files))"

definition NoteMembershipBytes :: "(bytes \<Rightarrow> bytes) \<Rightarrow> bytes \<Rightarrow> Keeper \<Rightarrow> Keeper" where
  "NoteMembershipBytes H tx k =
    (if \<not> IsMembershipTx tx then k
     else if tx \<in> set (k_queue k) then persistMembershipFile H tx k
     else persistMembershipFile H tx (k\<lparr>k_queue := k_queue k @ [tx]\<rparr>))"

definition NoteMembershipTx :: "(bytes \<Rightarrow> bytes) \<Rightarrow> bytes \<Rightarrow> Keeper \<Rightarrow> Keeper" where
  "NoteMembershipTx H tx k =
    (case DecodeJoin tx of
       Some j \<Rightarrow> if depositIndexOf (k_store k) (jb_Subject j) \<noteq> None then k
                 else NoteMembershipBytes H tx k
     | None \<Rightarrow> NoteMembershipBytes H tx k)"

definition PendingMembershipTxs :: "Keeper \<Rightarrow> bytes list" where
  "PendingMembershipTxs k =
    k_queue k @ filter (\<lambda>tx. tx \<notin> set (k_queue k)) (loadMembershipFiles k)"

definition ClearPendingMembership :: "Keeper \<Rightarrow> Keeper" where
  "ClearPendingMembership k = k\<lparr>k_queue := [], k_disk := map_option (\<lambda>_. []) (k_disk k)\<rparr>"

definition forgets :: "bytes \<Rightarrow> bool \<Rightarrow> bool \<Rightarrow> bytes \<Rightarrow> bool" where
  "forgets subject dropJoin dropLeave tx \<longleftrightarrow>
    (dropJoin \<and> (case DecodeJoin tx of Some j \<Rightarrow> jb_Subject j = subject | None \<Rightarrow> False)) \<or>
    (dropLeave \<and> (case DecodeLeave tx of Some l \<Rightarrow> vb_Subject l = subject | None \<Rightarrow> False))"

definition forgetMembership :: "bytes \<Rightarrow> bool \<Rightarrow> bool \<Rightarrow> Keeper \<Rightarrow> Keeper" where
  "forgetMembership subject dropJoin dropLeave k =
    (if length subject = 0 then k
     else k\<lparr>k_queue := filter (\<lambda>tx. \<not> forgets subject dropJoin dropLeave tx) (k_queue k),
            k_disk := map_option (filter (\<lambda>(name, tx). \<not> forgets subject dropJoin dropLeave tx))
                        (k_disk k)\<rparr>)"

definition forgetMembershipSubject :: "bytes \<Rightarrow> Keeper \<Rightarrow> Keeper" where
  "forgetMembershipSubject subject k = forgetMembership subject True True k"

definition forgetMembershipJoin :: "bytes \<Rightarrow> Keeper \<Rightarrow> Keeper" where
  "forgetMembershipJoin subject k = forgetMembership subject True False k"

text \<open>The queued leaves and joins, in the order the two sources are read.\<close>

definition queued_leaves :: "Keeper \<Rightarrow> u64 \<Rightarrow> bytes list" where
  "queued_leaves k period =
    (let pref = PendingLeavePrefixForPeriod period
     in map (\<lambda>(key, v). drop (length pref) key) (memIteratePrefix pref (k_store k)) @
        List.map_filter (\<lambda>tx. case DecodeLeave tx of
            Some l \<Rightarrow> (case ValidateLeave l of Inr _ \<Rightarrow> Some (vb_Subject l) | Inl _ \<Rightarrow> None)
          | None \<Rightarrow> None) (PendingMembershipTxs k))"

definition queued_joins :: "Keeper \<Rightarrow> SubjectPower list" where
  "queued_joins k =
    List.map_filter (\<lambda>tx.
        case DecodeLeave tx of Some _ \<Rightarrow> None
        | None \<Rightarrow> (case DecodeJoin tx of
            None \<Rightarrow> None
          | Some j \<Rightarrow> (case ValidateJoin j of
              Inl _ \<Rightarrow> None
            | Inr _ \<Rightarrow> if depositIndexOf (k_store k) (jb_Subject j) \<noteq> None then None
                else Some \<lparr>pw_Subject = jb_Subject j, pw_Weight = jb_Weight j, pw_HasProof = True\<rparr>)))
      (PendingMembershipTxs k)"

text \<open>The rows with a new subject, each subject once.\<close>

fun add_new :: "bytes list \<Rightarrow> SubjectPower list \<Rightarrow> SubjectPower list" where
  "add_new seen [] = []"
| "add_new seen (j # js) =
    (if pw_Subject j \<in> set seen then add_new seen js
     else j # add_new (pw_Subject j # seen) js)"

definition applyQueuedMembership :: "Keeper \<Rightarrow> u64 \<Rightarrow> SubjectPower list \<Rightarrow> SubjectPower list" where
  "applyQueuedMembership k period rows =
    (let leave = queued_leaves k period;
         inSet = map pw_Subject rows;
         kept = map (\<lambda>r. if pw_Subject r \<in> set leave
                         then r\<lparr>pw_Weight := 0, pw_HasProof := True\<rparr> else r) rows;
         joined = add_new inSet (filter (\<lambda>j. pw_Subject j \<notin> set leave) (queued_joins k));
         left = add_new (map pw_Subject (kept @ joined))
                  (map (\<lambda>x. \<lparr>pw_Subject = x, pw_Weight = 0, pw_HasProof = True\<rparr>)
                    (filter (\<lambda>x. x \<in> set inSet) leave))
     in sort_key pw_Subject (kept @ joined @ left))"

end
