(* ===== verification/Lean_Abci.thy ===== *)
theory Lean_Abci
  imports Lean_Keeper
begin

text \<open>
  \<open>x/leanval/keeper/power.go\<close> (uniqueness, verification and application of an LNPR),
  \<open>prove.go\<close>, \<open>wasm_sudo.go\<close> and \<open>abci.go\<close>: what a validator accepts in a proposal, what a
  proposer puts into one, and what a finalised block does to the store.

  The handlers that write diagnostic files and to standard error are modelled without those
  writes. The inner handler the module wraps is a parameter.
\<close>

subsection \<open>Uniqueness\<close>

definition errProof :: "string \<Rightarrow> lean_error" where
  "errProof s = Errorf (''leanval: '' @ s)"

definition rejectEmptyReplace :: "store \<Rightarrow> LNPRBlob \<Rightarrow> lean_error + unit" where
  "rejectEmptyReplace s blob =
    (if length (lb_Subjects blob) > 0 then Inr ()
     else if hasBondedOrPrior s (lb_Period blob) then Inl (errProof ''empty LNPR replace'')
     else Inr ())"

fun uniqueSubjects :: "bytes list \<Rightarrow> SubjectProof list \<Rightarrow> lean_error + unit" where
  "uniqueSubjects seen [] = Inr ()"
| "uniqueSubjects seen (s # ss) =
    (if sp_Subject s \<in> set seen then Inl (errProof ''duplicate subject'')
     else uniqueSubjects (sp_Subject s # seen) ss)"

definition CheckLNPRUniqueness :: "store \<Rightarrow> LNPRBlob \<Rightarrow> lean_error + unit" where
  "CheckLNPRUniqueness s blob =
    (case rejectEmptyReplace s blob of
       Inl e \<Rightarrow> Inl e
     | Inr _ \<Rightarrow> uniqueSubjects [] (lb_Subjects blob))"

subsection \<open>Subject proofs\<close>

definition ebOfWeight :: "i64 \<Rightarrow> byte" where
  "ebOfWeight w = (if sint w > 0 \<and> sint w \<le> 255 then ucast w else if sint w > 255 then 255 else 0)"

definition sudoProofInstanceVerify ::
  "(bytes \<Rightarrow> u64 \<Rightarrow> bytes \<Rightarrow> bytes \<Rightarrow> lean_error + unit) \<Rightarrow> Keeper \<Rightarrow> bytes \<Rightarrow> bytes \<Rightarrow> lean_error + unit"
where
  "sudoProofInstanceVerify sudo k proof instances =
    (if \<not> k_hasCtx k then Inl (Errorf ''leanval: wasm sudo requires BindContext'')
     else sudo (k_verifierAcc k) (if k_leanZkID k = 0 then 1 else k_leanZkID k) proof instances)"

definition verifyProof :: "Host \<Rightarrow> Keeper \<Rightarrow> bytes \<Rightarrow> bytes \<Rightarrow> lean_error + unit" where
  "verifyProof h k proof instances =
    (case h_sudo h of
       Some sudo \<Rightarrow>
         if length (k_verifierAcc k) > 0 then sudoProofInstanceVerify sudo k proof instances
         else (case h_verifier h of
                 None \<Rightarrow> Inl (Errorf ''leanval: no verifier'')
               | Some v \<Rightarrow> v proof instances)
     | None \<Rightarrow> (case h_verifier h of
                 None \<Rightarrow> Inl (Errorf ''leanval: no verifier'')
               | Some v \<Rightarrow> v proof instances))"

definition isSTWO :: "bytes \<Rightarrow> bool" where
  "isSTWO proof \<longleftrightarrow> length proof \<ge> 4 \<and> take 4 proof = stwoMagic"

definition verifySubjectProof ::
  "Host \<Rightarrow> Keeper \<Rightarrow> u64 \<Rightarrow> u64 \<Rightarrow> SubjectProof \<Rightarrow> bytes \<Rightarrow> lean_error + unit" where
  "verifySubjectProof h k period index s roots =
    (if isSTWO (sp_Proof s)
     then verifyValsetStwo h (sp_Proof s) period index (ebOfWeight (sp_Weight s)) (sp_Subject s)
     else if \<not> k_AllowDummy k then Inl (errProof ''STWO proof required (Dummy DSTW disabled)'')
     else verifyProof h k (sp_Proof s)
            (instancesForRoots period (sp_Subject s) (sp_Weight s) roots))"

definition proveSubject ::
  "Host \<Rightarrow> Keeper \<Rightarrow> u64 \<Rightarrow> u64 \<Rightarrow> bytes \<Rightarrow> i64 \<Rightarrow> bytes \<Rightarrow> bytes" where
  "proveSubject h k period index subject weight roots =
    (case proveValsetStwo h period index (ebOfWeight weight) subject of
       Inr proof \<Rightarrow>
         if length proof \<ge> 4 then proof
         else if k_AllowDummy k then DummyStwoProveBoundRoots period subject weight roots else []
     | Inl _ \<Rightarrow>
         if k_AllowDummy k then DummyStwoProveBoundRoots period subject weight roots else [])"

subsection \<open>Verification of an LNPR\<close>

definition knownSubjectSet :: "Host \<Rightarrow> u64 \<Rightarrow> store \<Rightarrow> bytes list \<times> store" where
  "knownSubjectSet h period s =
    (let rows = DebugSubjectsFromBits s;
         (rows, s) = (if length rows = 0 then BondedSetOrCarry (h_sha256 h) period s else (rows, s))
     in (map pw_Subject rows, s))"

text \<open>
  The loop over the subjects. \<open>i\<close> is the row, \<open>raw\<close> the number of proofs counted so far,
  \<open>extraIdx\<close> the deposit index the next new subject is proved for.
\<close>

fun verifyRows ::
  "Host \<Rightarrow> Keeper \<Rightarrow> u64 \<Rightarrow> bytes \<Rightarrow> bool \<Rightarrow> bytes list \<Rightarrow> nat \<Rightarrow> nat \<Rightarrow> u64 \<Rightarrow> SubjectProof list \<Rightarrow>
   lean_error + unit" where
  "verifyRows h k period roots hasFold known i raw extraIdx [] = Inr ()"
| "verifyRows h k period roots hasFold known i raw extraIdx (s # ss) =
    (let extra = (sp_Subject s \<notin> set known \<and> sint (sp_Weight s) > 0 \<and> length known > 0);
         dummy = Contains (sp_Proof s) dummyMagic;
         counted = (length (sp_Proof s) > 0 \<and> \<not> isFoldProof (sp_Proof s));
         raw = (if counted then raw + 1 else raw)
     in if dummy \<and> hasFold then Inl (errProof ''Dummy DSTW in an aggregate must fail the batch'')
        else if dummy \<and> extra then Inl (errProof ''Dummy DSTW rejected on JOIN extra'')
        else if counted \<and> raw > MaxRawStarksPerLNPR
        then Inl (errProof ''too many raw STARKs per slot (aggregate or cap)'')
        else if extra then
          if length (sp_Proof s) = 0 \<or> isFoldProof (sp_Proof s)
          then Inl (errProof ''unprovable extra subject'')
          else if dummy then Inl (errProof ''Dummy DSTW rejected on JOIN extra'')
          else if \<not> isSTWO (sp_Proof s)
          then Inl (errProof ''JOIN extra requires named STWO (prover_id=2)'')
          else if length (sp_Proof s) > MaxProofBytes then Inl (errProof ''proof too large'')
          else (case verifySubjectProof h k period extraIdx s roots of
                  Inl e \<Rightarrow> Inl (Errorf ''leanval: JOIN extra STWO'')
                | Inr _ \<Rightarrow> verifyRows h k period roots hasFold known (i + 1) raw (extraIdx + 1) ss)
        else if hasFold then verifyRows h k period roots hasFold known (i + 1) raw extraIdx ss
        else if length (sp_Proof s) > MaxProofBytes then Inl (errProof ''proof too large'')
        else (case verifySubjectProof h k period (word_of_nat i) s roots of
                Inl e \<Rightarrow> Inl e
              | Inr _ \<Rightarrow> verifyRows h k period roots hasFold known (i + 1) raw extraIdx ss))"

definition verifyLNPR :: "Host \<Rightarrow> bool \<Rightarrow> LNPRBlob \<Rightarrow> Keeper \<Rightarrow> (lean_error + unit) \<times> Keeper" where
  "verifyLNPR h skipCrypto blob k =
    (case CheckLNPRUniqueness (k_store k) blob of
       Inl e \<Rightarrow> (Inl e, k)
     | Inr _ \<Rightarrow>
         if skipCrypto then (Inr (), k)
         else let k = k\<lparr>k_gasUsed := map_option (\<lambda>g. g + stwoDummyGas) (k_gasUsed k)\<rparr> in
           if length (lb_Subjects blob) = 0 then (Inr (), k)
           else let roots = LastObjectRoots (k_store k);
                    fp = foldProofFromLNPR blob;
                    folded = (case fp of
                        None \<Rightarrow> if \<not> k_AllowDummy k
                          then Inl (errProof ''STWO FOLD required (bitfield root, not Dummy-N)'')
                          else Inr ()
                      | Some f \<Rightarrow>
                          if length f > MaxProofBytes then Inl (errProof ''proof too large'')
                          else VerifySameStatementFold h f (foldPairStrings roots))
                in case folded of
                     Inl e \<Rightarrow> (Inl e, k)
                   | Inr _ \<Rightarrow>
                       let (known, s) = knownSubjectSet h (lb_Period blob) (k_store k);
                           k = k\<lparr>k_store := s\<rparr>
                       in (verifyRows h k (lb_Period blob) roots (fp \<noteq> None) known 0
                             (if fp \<noteq> None then 1 else 0)
                             (ucast (nextDepositIndex s)) (lb_Subjects blob), k))"

definition VerifyLNPR :: "Host \<Rightarrow> LNPRBlob \<Rightarrow> Keeper \<Rightarrow> (lean_error + unit) \<times> Keeper" where
  "VerifyLNPR h blob k = verifyLNPR h False blob k"

definition VerifyLNPRRecheck :: "Host \<Rightarrow> LNPRBlob \<Rightarrow> Keeper \<Rightarrow> (lean_error + unit) \<times> Keeper" where
  "VerifyLNPRRecheck h blob k = verifyLNPR h True blob k"

subsection \<open>Application of an LNPR\<close>

definition applySubject :: "Host \<Rightarrow> u64 \<Rightarrow> SubjectProof \<Rightarrow> Keeper \<Rightarrow> Keeper" where
  "applySubject h period s k =
    (let H = h_sha256 h; x = sp_Subject s; st = k_store k in
     if sint (sp_Weight s) \<le> 0 then
       let st = (if depositIndexOf st x \<noteq> None
                 then case ApplyLeave H \<lparr>vb_Period = period, vb_Subject = x\<rparr> st of
                        Inl _ \<Rightarrow> st | Inr st' \<Rightarrow> st'
                 else st)
       in forgetMembershipSubject x (k\<lparr>k_store := st\<rparr>)
     else
       let st = (if depositIndexOf st x \<noteq> None then snd (admitMember H x (sp_Weight s) st)
                 else if length x > 0 then AcceptProof H period x (sp_Weight s) st else st);
           st = memDelete (PendingJoinKey 0 x) (memDelete (PendingJoinKey period x) st)
       in forgetMembershipJoin x (k\<lparr>k_store := st\<rparr>))"

definition ApplyLNPR :: "Host \<Rightarrow> LNPRBlob \<Rightarrow> Keeper \<Rightarrow> (lean_error + unit) \<times> Keeper" where
  "ApplyLNPR h blob k =
    (case VerifyLNPR h blob k of
       (Inl e, k) \<Rightarrow> (Inl e, k)
     | (Inr _, k) \<Rightarrow>
         let k = fold (applySubject h (lb_Period blob)) (lb_Subjects blob) k
         in (Inr (), k\<lparr>k_store := syncObjectRoots (h_sha256 h) (k_store k)\<rparr>))"

definition countSetBits :: "store \<Rightarrow> nat" where
  "countSetBits s =
    length (filter (BitIsSet s) (map word_of_nat [0..<unat (nextDepositIndex s + 8)]))"

subsection \<open>The proposer\<close>

definition FindLNPR :: "bytes list \<Rightarrow> (LNPRBlob \<times> nat) option" where
  "FindLNPR txs = find_first DecodeLNPR txs"

definition expectedLNPRIndex :: "bytes list \<Rightarrow> nat" where
  "expectedLNPRIndex txs = (if length txs > 0 \<and> HasPrefix (txs ! 0) PrefixHMVE then 1 else 0)"

definition insertAt :: "nat \<Rightarrow> bytes \<Rightarrow> bytes list \<Rightarrow> bytes list" where
  "insertAt idx tx txs = take idx txs @ [tx] @ drop idx txs"

definition injectLNPR :: "bytes list \<Rightarrow> bytes \<Rightarrow> bytes list" where
  "injectLNPR txs lnpr =
    (let out = filter (\<lambda>tx. \<not> HasPrefix tx PrefixLNPR) txs
     in insertAt (expectedLNPRIndex out) lnpr out)"

text \<open>The slot behind the LNPR, or behind the last HMVE seen before one.\<close>

fun ssleSlot :: "nat \<Rightarrow> nat \<Rightarrow> bytes list \<Rightarrow> nat" where
  "ssleSlot i idx [] = idx"
| "ssleSlot i idx (tx # txs) =
    (if HasPrefix tx PrefixLNPR then i + 1
     else ssleSlot (i + 1) (if HasPrefix tx PrefixHMVE then i + 1 else idx) txs)"

definition injectSSLE :: "bytes list \<Rightarrow> bytes \<Rightarrow> bytes list" where
  "injectSSLE txs ssle =
    (let out = filter (\<lambda>tx. \<not> HasPrefix tx PrefixSSLE) txs
     in insertAt (ssleSlot 0 0 out) ssle out)"

fun mergeInto :: "bytes list \<Rightarrow> bytes list \<Rightarrow> bytes list" where
  "mergeInto out [] = out"
| "mergeInto out (tx # txs) =
    (if IsMembershipTx tx \<and> tx \<notin> set out then mergeInto (out @ [tx]) txs else mergeInto out txs)"

definition mergeMembershipFromComet :: "bytes list \<Rightarrow> bytes list \<Rightarrow> bytes list" where
  "mergeMembershipFromComet reqTxs proposed = mergeInto proposed reqTxs"

definition joinProofFor :: "Keeper \<Rightarrow> bytes \<Rightarrow> bytes" where
  "joinProofFor k subj =
    (case List.find (\<lambda>tx. case DecodeJoin tx of Some j \<Rightarrow> jb_Subject j = subj | None \<Rightarrow> False)
            (PendingMembershipTxs k) of
       Some tx \<Rightarrow> (case DecodeJoin tx of Some j \<Rightarrow> jb_Proof j | None \<Rightarrow> [])
     | None \<Rightarrow> [])"

text \<open>Proofs for the subjects the roster does not have yet.\<close>

fun proveExtras ::
  "Host \<Rightarrow> Keeper \<Rightarrow> u64 \<Rightarrow> bytes list \<Rightarrow> u32 \<Rightarrow> SubjectProof list \<Rightarrow> SubjectProof list" where
  "proveExtras h k period known extraIdx [] = []"
| "proveExtras h k period known extraIdx (s # ss) =
    (if sp_Subject s \<in> set known \<or> sint (sp_Weight s) \<le> 0
     then s # proveExtras h k period known extraIdx ss
     else let proof = joinProofFor k (sp_Subject s);
              proof = (if length proof > 0 \<and> Contains proof dummyMagic then [] else proof);
              proof = (if length proof = 0
                       then case proveValsetStwo h period (ucast extraIdx) (ebOfWeight (sp_Weight s))
                                   (sp_Subject s) of
                              Inr p \<Rightarrow> p | Inl _ \<Rightarrow> proof
                       else proof)
          in s\<lparr>sp_Proof := proof\<rparr> # proveExtras h k period known (extraIdx + 1) ss)"

fun firstKnown :: "bytes list \<Rightarrow> nat \<Rightarrow> SubjectProof list \<Rightarrow> nat" where
  "firstKnown known i [] = 0"
| "firstKnown known i (s # ss) =
    (if sp_Subject s \<in> set known then i else firstKnown known (i + 1) ss)"

fun fillDummy :: "u64 \<Rightarrow> bytes \<Rightarrow> nat \<Rightarrow> SubjectProof list \<Rightarrow> SubjectProof list" where
  "fillDummy period roots raw [] = []"
| "fillDummy period roots raw (s # ss) =
    (if raw \<ge> MaxRawStarksPerLNPR then s # ss
     else if length (sp_Proof s) > 0 then s # fillDummy period roots raw ss
     else s\<lparr>sp_Proof := DummyStwoProveBoundRoots period (sp_Subject s) (sp_Weight s) roots\<rparr>
            # fillDummy period roots (raw + 1) ss)"

definition buildBlob :: "Host \<Rightarrow> u64 \<Rightarrow> Keeper \<Rightarrow> LNPRBlob \<times> Keeper" where
  "buildBlob h period k =
    (let s = syncObjectRoots (h_sha256 h) (k_store k);
         rows = DebugSubjectsFromBits s;
         (rows, s) = (if length rows = 0 then BondedSetOrCarry (h_sha256 h) period s else (rows, s));
         k = k\<lparr>k_store := s\<rparr>;
         known = map pw_Subject rows;
         rows = applyQueuedMembership k period rows;
         subs = map (\<lambda>r. \<lparr>sp_Subject = pw_Subject r, sp_Weight = pw_Weight r, sp_Proof = []\<rparr>) rows;
         roots = LastObjectRoots s;
         fp = ProveSameStatementFold h (foldPairStrings roots);
         subs = proveExtras h k period known (nextDepositIndex s) subs;
         subs = (case fp of
             Inr f \<Rightarrow>
               if length f > 0 then
                 if length subs = 0
                 then [\<lparr>sp_Subject = DepositIndexBytes 0, sp_Weight = 0, sp_Proof = f\<rparr>]
                 else let idx = firstKnown known 0 subs in subs[idx := (subs ! idx)\<lparr>sp_Proof := f\<rparr>]
               else if k_AllowDummy k then fillDummy period roots 0 subs else subs
           | Inl _ \<Rightarrow> if k_AllowDummy k then fillDummy period roots 0 subs else subs)
     in (\<lparr>lb_Period = period, lb_Subjects = subs\<rparr>, k))"

definition buildLNPR :: "Host \<Rightarrow> u64 \<Rightarrow> Keeper \<Rightarrow> bytes \<times> Keeper" where
  "buildLNPR h period k = (let (blob, k) = buildBlob h period k in (EncodeLNPR blob, k))"

definition WrapPrepareProposal ::
  "Host \<Rightarrow> (bytes list \<Rightarrow> lean_error + bytes list option) option \<Rightarrow> i64 \<Rightarrow> bytes \<Rightarrow> bytes list \<Rightarrow>
   Keeper \<Rightarrow> (lean_error + bytes list) \<times> Keeper" where
  "WrapPrepareProposal h inner height proposer incoming k =
    (case (case inner of None \<Rightarrow> Inr (Some incoming) | Some f \<Rightarrow> f incoming) of
       Inl e \<Rightarrow> (Inl e, k)
     | Inr resp \<Rightarrow>
         let txs = (case resp of None \<Rightarrow> [] | Some ts \<Rightarrow> ts);
             period = PeriodFromHeight (k_live k) height;
             k = fold (NoteMembershipTx (h_sha256 h)) incoming k;
             k = fold (NoteMembershipTx (h_sha256 h)) (filter IsMembershipTx txs) k;
             kept = filter (\<lambda>tx. \<not> IsMembershipTx tx) txs;
             (lnpr, k) = buildLNPR h period k;
             txs = injectLNPR kept lnpr;
             ssle = buildSSLE h period height proposer
         in (Inr (if length ssle > 0 then injectSSLE txs ssle else txs), k))"

subsection \<open>The validator\<close>

definition checkLNPR :: "Host \<Rightarrow> i64 \<Rightarrow> bytes list \<Rightarrow> Keeper \<Rightarrow> (lean_error + unit) \<times> Keeper" where
  "checkLNPR h height txs k =
    (case FindLNPR txs of
       None \<Rightarrow>
         (if k_RequireLNPR k then Inl (Errorf ''leanval: required LNPR omitted'') else Inr (), k)
     | Some (blob, idx) \<Rightarrow>
         if idx \<noteq> expectedLNPRIndex txs then (Inl (Errorf ''leanval: LNPR at wrong index''), k)
         else if lb_Period blob \<noteq> PeriodFromHeight (k_live k) height
         then (Inl (Errorf ''leanval: LNPR period != height period''), k)
         else VerifyLNPR h blob k)"

definition checkSSLE :: "Host \<Rightarrow> i64 \<Rightarrow> bytes list \<Rightarrow> Keeper \<Rightarrow> lean_error + unit" where
  "checkSSLE h height txs k =
    (case FindSSLE txs of
       None \<Rightarrow> Inr ()
     | Some (blob, idx) \<Rightarrow>
         if ss_Period blob \<noteq> PeriodFromHeight (k_live k) height
         then Inl (Errorf ''leanval: SSLE period != height period'')
         else if ss_Height blob \<noteq> height then Inl (Errorf ''leanval: SSLE height'')
         else VerifySSLEProof h (ss_Proof blob) (ss_Period blob) (ss_Height blob) (ss_Ticket blob))"

datatype ProposalStatus = ACCEPT | REJECT

definition WrapProcessProposal ::
  "Host \<Rightarrow> (bytes list \<Rightarrow> lean_error + ProposalStatus) option \<Rightarrow> i64 \<Rightarrow> bytes list \<Rightarrow> Keeper \<Rightarrow>
   (lean_error + ProposalStatus) \<times> Keeper" where
  "WrapProcessProposal h inner height txs k =
    (case checkLNPR h height txs k of
       (Inl _, k) \<Rightarrow> (Inr REJECT, k)
     | (Inr _, k) \<Rightarrow>
         (case checkSSLE h height txs k of
            Inl _ \<Rightarrow> (Inr REJECT, k)
          | Inr _ \<Rightarrow> (case inner of None \<Rightarrow> (Inr ACCEPT, k) | Some f \<Rightarrow> (f txs, k))))"

definition ProcessInjectedLNPR :: "Host \<Rightarrow> bytes list \<Rightarrow> Keeper \<Rightarrow> (lean_error + unit) \<times> Keeper" where
  "ProcessInjectedLNPR h txs k =
    (case FindLNPR txs of
       None \<Rightarrow>
         (if k_RequireLNPR k then Inl (Errorf ''leanval: required LNPR omitted at finalize'')
          else Inr (), k)
     | Some (blob, idx) \<Rightarrow>
         (case VerifyLNPR h blob k of
            (Inl e, k) \<Rightarrow> (Inl e, k)
          | (Inr _, k) \<Rightarrow>
              let k = k\<lparr>k_pendingLNPR := Some blob\<rparr>
              in if \<not> k_hasKey k then ApplyLNPR h blob k else (Inr (), k)))"

definition ApplyStagedLNPR :: "Host \<Rightarrow> Keeper \<Rightarrow> (lean_error + unit) \<times> Keeper" where
  "ApplyStagedLNPR h k =
    (case k_pendingLNPR k of
       None \<Rightarrow> (Inr (), k)
     | Some blob \<Rightarrow> ApplyLNPR h blob (k\<lparr>k_pendingLNPR := None\<rparr>))"

subsection \<open>What verification establishes\<close>


lemma uniqueSubjects_iff:
  "uniqueSubjects seen ss = Inr () \<longleftrightarrow> distinct (map sp_Subject ss) \<and> sp_Subject ` set ss \<inter> set seen = {}"
  by (induction ss arbitrary: seen) auto

lemma CheckLNPRUniqueness_iff:
  "CheckLNPRUniqueness s blob = Inr () \<longleftrightarrow>
    distinct (map sp_Subject (lb_Subjects blob)) \<and>
    (lb_Subjects blob = [] \<longrightarrow> \<not> hasBondedOrPrior s (lb_Period blob))"
  by (auto simp: CheckLNPRUniqueness_def rejectEmptyReplace_def uniqueSubjects_iff split: if_splits)

lemma verifyLNPR_unique:
  "verifyLNPR h skip blob k = (Inr (), k') \<Longrightarrow>
   distinct (map sp_Subject (lb_Subjects blob)) \<and>
   (lb_Subjects blob = [] \<longrightarrow> \<not> hasBondedOrPrior (k_store k) (lb_Period blob))"
  using CheckLNPRUniqueness_iff [of "k_store k" blob]
  by (auto simp: verifyLNPR_def split: sum.splits)

definition counted_proof :: "SubjectProof \<Rightarrow> bool" where
  "counted_proof s \<longleftrightarrow> sp_Proof s \<noteq> [] \<and> \<not> isFoldProof (sp_Proof s)"

definition extra_subject :: "bytes list \<Rightarrow> SubjectProof \<Rightarrow> bool" where
  "extra_subject known s \<longleftrightarrow> sp_Subject s \<notin> set known \<and> sint (sp_Weight s) > 0 \<and> known \<noteq> []"

lemma verifyRows_cap:
  "verifyRows h k p roots hf known i raw x ss = Inr () \<Longrightarrow> raw \<le> MaxRawStarksPerLNPR \<Longrightarrow>
   raw + length (filter counted_proof ss) \<le> MaxRawStarksPerLNPR"
proof (induction ss arbitrary: i raw x)
  case (Cons s ss)
  let ?raw = "if counted_proof s then raw + 1 else raw"
  have "?raw \<le> MaxRawStarksPerLNPR"
    using Cons.prems by (auto simp: Let_def counted_proof_def split: if_splits)
  moreover have "\<exists>i' x'. verifyRows h k p roots hf known i' ?raw x' ss = Inr ()"
    using Cons.prems(1) by (auto simp: Let_def counted_proof_def split: if_splits sum.splits)
  ultimately show ?case using Cons.IH by (fastforce split: if_splits)
qed simp

lemma verifyRows_no_dummy:
  "verifyRows h k p roots hf known i raw x ss = Inr () \<Longrightarrow> s \<in> set ss \<Longrightarrow>
   hf \<or> extra_subject known s \<Longrightarrow> \<not> Contains (sp_Proof s) dummyMagic"
proof (induction ss arbitrary: i raw x)
  case (Cons r ss)
  have "\<exists>i' raw' x'. verifyRows h k p roots hf known i' raw' x' ss = Inr ()"
    using Cons.prems(1) by (auto simp: Let_def split: if_splits sum.splits)
  moreover have "hf \<or> extra_subject known r \<Longrightarrow> \<not> Contains (sp_Proof r) dummyMagic"
    using Cons.prems(1) by (auto simp: Let_def extra_subject_def split: if_splits)
  ultimately show ?case using Cons.IH Cons.prems(2,3) by auto
qed simp

text \<open>The deposit indices the extras are proved for are consecutive.\<close>

lemma verifyRows_extras:
  "verifyRows h k p roots hf known i raw x ss = Inr () \<Longrightarrow>
   n < length (filter (extra_subject known) ss) \<Longrightarrow>
   s = filter (extra_subject known) ss ! n \<Longrightarrow>
   isSTWO (sp_Proof s) \<and> \<not> isFoldProof (sp_Proof s) \<and> length (sp_Proof s) \<le> MaxProofBytes \<and>
   verifyValsetStwo h (sp_Proof s) p (x + word_of_nat n) (ebOfWeight (sp_Weight s)) (sp_Subject s) = Inr ()"
proof (induction ss arbitrary: i raw x n)
  case (Cons r ss)
  show ?case
  proof (cases "extra_subject known r")
    case True
    then have r: "isSTWO (sp_Proof r)" "\<not> isFoldProof (sp_Proof r)" "length (sp_Proof r) \<le> MaxProofBytes"
      "verifySubjectProof h k p x r roots = Inr ()"
      and rest: "\<exists>raw'. verifyRows h k p roots hf known (i + 1) raw' (x + 1) ss = Inr ()"
      using Cons.prems(1) by (auto simp: Let_def extra_subject_def split: if_splits sum.splits)
    show ?thesis
    proof (cases n)
      case 0
      then show ?thesis using r Cons.prems(3) True by (simp add: verifySubjectProof_def)
    next
      case (Suc m)
      then show ?thesis
        using rest Cons.IH [of "i + 1" _ "x + 1" m] Cons.prems(2,3) True by (auto simp: ac_simps)
    qed
  next
    case False
    then have "\<exists>raw'. verifyRows h k p roots hf known (i + 1) raw' x ss = Inr ()"
      using Cons.prems(1) by (auto simp: Let_def extra_subject_def split: if_splits sum.splits)
    then show ?thesis using Cons.IH [of "i + 1" _ x n] Cons.prems(2,3) False by auto
  qed
qed simp

lemma verifyLNPR_parts:
  assumes V: "verifyLNPR h False blob k = (Inr (), k')" and ne: "lb_Subjects blob \<noteq> []"
  obtains known s where
    "knownSubjectSet h (lb_Period blob) (k_store k) = (known, s)"
    "k_store k' = s" "k_AllowDummy k' = k_AllowDummy k"
    "(case foldProofFromLNPR blob of
        None \<Rightarrow> k_AllowDummy k
      | Some f \<Rightarrow> length f \<le> MaxProofBytes \<and>
          VerifySameStatementFold h f (foldPairStrings (LastObjectRoots (k_store k))) = Inr ())"
    "verifyRows h k' (lb_Period blob) (LastObjectRoots (k_store k)) (foldProofFromLNPR blob \<noteq> None) known 0
       (if foldProofFromLNPR blob \<noteq> None then 1 else 0) (ucast (nextDepositIndex s)) (lb_Subjects blob) = Inr ()"
proof -
  obtain known s where ks: "knownSubjectSet h (lb_Period blob) (k_store k) = (known, s)" by fastforce
  show ?thesis
    by (rule that [OF ks])
      (use V ne ks in \<open>auto simp: verifyLNPR_def Let_def split: sum.splits option.splits if_splits\<close>)
qed

text \<open>The block after the injections: an optional HMVE, the LNPR, the rest.\<close>

lemma injectLNPR_cases:
  obtains (hmve) hm rest where "injectLNPR txs l = hm # l # rest" "HasPrefix hm PrefixHMVE"
      "hm # rest = filter (\<lambda>tx. \<not> HasPrefix tx PrefixLNPR) txs"
  | (plain) rest where "injectLNPR txs l = l # rest" "rest = filter (\<lambda>tx. \<not> HasPrefix tx PrefixLNPR) txs"
      "rest = [] \<or> \<not> HasPrefix (hd rest) PrefixHMVE"
proof -
  define out where "out = filter (\<lambda>tx. \<not> HasPrefix tx PrefixLNPR) txs"
  show ?thesis
  proof (cases "out \<noteq> [] \<and> HasPrefix (hd out) PrefixHMVE")
    case True
    then obtain hm rest where o: "out = hm # rest" by (cases out) auto
    then have "injectLNPR txs l = hm # l # rest"
      using True by (simp add: injectLNPR_def out_def [symmetric] expectedLNPRIndex_def insertAt_def)
    then show ?thesis using hmve [of hm rest] True o by (simp add: out_def)
  next
    case False
    then have "injectLNPR txs l = l # out"
      by (cases out) (auto simp: injectLNPR_def out_def [symmetric] expectedLNPRIndex_def insertAt_def Let_def)
    then show ?thesis using plain [of out] False by (simp add: out_def)
  qed
qed

lemma HasPrefix_class_excl:
  "HasPrefix tx PrefixLNPR \<Longrightarrow> \<not> HasPrefix tx PrefixHMVE" "HasPrefix tx PrefixLNPR \<Longrightarrow> \<not> HasPrefix tx PrefixSSLE"
  "HasPrefix tx PrefixHMVE \<Longrightarrow> \<not> HasPrefix tx PrefixSSLE" "HasPrefix tx PrefixHMVE \<Longrightarrow> \<not> HasPrefix tx PrefixLNPR"
  "HasPrefix tx PrefixSSLE \<Longrightarrow> \<not> HasPrefix tx PrefixHMVE" "HasPrefix tx PrefixSSLE \<Longrightarrow> \<not> HasPrefix tx PrefixLNPR"
  using HasPrefix_same_length [of tx] classes_distinct by auto

lemma DecodeLNPR_None: "\<not> HasPrefix tx PrefixLNPR \<Longrightarrow> DecodeLNPR tx = None"
  by (simp add: DecodeLNPR_def)

lemma FindLNPR_at:
  "wf_LNPR b \<Longrightarrow> FindLNPR (EncodeLNPR b # rest) = Some (b, 0)"
  "wf_LNPR b \<Longrightarrow> \<not> HasPrefix hm PrefixLNPR \<Longrightarrow> FindLNPR (hm # EncodeLNPR b # rest) = Some (b, 1)"
  by (simp_all add: FindLNPR_def lnpr.dec_enc DecodeLNPR_None)

lemma FindLNPR_injected:
  assumes "wf_LNPR b"
  shows "FindLNPR (injectLNPR txs (EncodeLNPR b)) =
      Some (b, expectedLNPRIndex (injectLNPR txs (EncodeLNPR b))) \<and>
    FindLNPR (injectSSLE (injectLNPR txs (EncodeLNPR b)) ssle) =
      Some (b, expectedLNPRIndex (injectSSLE (injectLNPR txs (EncodeLNPR b)) ssle))"
proof (cases rule: injectLNPR_cases [of txs "EncodeLNPR b"])
  case (hmve hm rest)
  have x: "\<not> HasPrefix hm PrefixLNPR" "\<not> HasPrefix hm PrefixSSLE" "\<not> HasPrefix (EncodeLNPR b) PrefixSSLE"
    using hmve HasPrefix_class_excl lnpr.enc_prefix by blast+
  then have s: "injectSSLE (injectLNPR txs (EncodeLNPR b)) ssle =
      hm # EncodeLNPR b # ssle # filter (\<lambda>tx. \<not> HasPrefix tx PrefixSSLE) rest"
    using lnpr.enc_prefix by (simp add: hmve injectSSLE_def Let_def insertAt_def)
  show ?thesis unfolding s unfolding hmve(1) using assms x hmve(2) by (simp add: FindLNPR_at expectedLNPRIndex_def)
next
  case (plain rest)
  have x: "\<not> HasPrefix (EncodeLNPR b) PrefixSSLE" "\<not> HasPrefix (EncodeLNPR b) PrefixHMVE"
    using HasPrefix_class_excl lnpr.enc_prefix by blast+
  then have s: "injectSSLE (injectLNPR txs (EncodeLNPR b)) ssle =
      EncodeLNPR b # ssle # filter (\<lambda>tx. \<not> HasPrefix tx PrefixSSLE) rest"
    using lnpr.enc_prefix by (simp add: plain(1) injectSSLE_def Let_def insertAt_def)
  show ?thesis unfolding s unfolding plain(1) using assms x by (simp add: FindLNPR_at expectedLNPRIndex_def)
qed

text \<open>An injected LNPR is found where a validator looks for it: the index the scan finds is the
  index expected of the block, with or without an HMVE transaction in front, and the SSLE
  injection that may follow keeps it there.
\<close>

theorem injected_LNPR_at_expected_index:
  assumes "wf_LNPR b"
  shows "FindLNPR (injectLNPR txs (EncodeLNPR b)) =
      Some (b, expectedLNPRIndex (injectLNPR txs (EncodeLNPR b))) \<and>
    FindLNPR (injectSSLE (injectLNPR txs (EncodeLNPR b)) ssle) =
      Some (b, expectedLNPRIndex (injectSSLE (injectLNPR txs (EncodeLNPR b)) ssle))"
  using FindLNPR_injected [OF assms] .

subsection \<open>Application refines the abstract roster\<close>


lemma k_store_forget [simp]:
  "k_store (forgetMembershipSubject x k) = k_store k" "k_store (forgetMembershipJoin x k) = k_store k"
  by (simp_all add: forgetMembershipSubject_def forgetMembershipJoin_def forgetMembership_def)

definition spec_apply :: "SubjectProof \<Rightarrow> member list \<Rightarrow> member list" where
  "spec_apply s ms =
    (if sint (sp_Weight s) \<le> 0 then spec_leave (sp_Subject s) ms
     else if sp_Subject s = [] then ms else spec_admit (sp_Subject s) (sp_Weight s) ms)"

lemma length_on_member [simp]: "length (on_member x f ms) = length ms"
  by (simp add: on_member_def)

lemma length_spec_apply: "length (spec_apply s ms) \<le> Suc (length ms)"
  by (simp add: spec_apply_def spec_leave_def spec_admit_def spec_enrol_def Let_def)

lemma roster_del_pending:
  assumes "roster_inv s"
  shows "roster_inv (memDelete (PendingJoinKey p x) s)" "roster (memDelete (PendingJoinKey p x) s) = roster s"
proof -
  have "same_roster (memDelete (PendingJoinKey p x) s) s" "store_ok (memDelete (PendingJoinKey p x) s)"
    using roster_invD(1) [OF assms] by (simp_all add: frame_simps key_simps)
  then show "roster_inv (memDelete (PendingJoinKey p x) s)" "roster (memDelete (PendingJoinKey p x) s) = roster s"
    using roster_inv_same roster_same assms by blast+
qed

lemma ApplyLeave_total: "vb_Subject b \<noteq> [] \<Longrightarrow> \<exists>st. ApplyLeave H b s = Inr st"
  unfolding ApplyLeave_def ValidateLeave_def Let_def by (simp split: option.split)

lemma applySubject_refines:
  assumes inv: "roster_inv (k_store k)" and room: "unat (nextDepositIndex (k_store k)) < 2 ^ 32 - 1"
  shows "roster_inv (k_store (applySubject h p s k)) \<and>
    roster (k_store (applySubject h p s k)) = spec_apply s (roster (k_store k))"
proof (cases "sint (sp_Weight s) \<le> 0")
  case True
  let ?x = "sp_Subject s"
  show ?thesis
  proof (cases "depositIndexOf (k_store k) ?x")
    case None
    then have "?x \<notin> m_subject ` set (roster (k_store k))" using roster_subjects [OF inv] by auto
    then show ?thesis using True None inv by (simp add: applySubject_def Let_def spec_apply_def spec_leave_absent)
  next
    case (Some i)
    then have "?x \<noteq> []" using roster_invD(2) [OF inv] by blast
    then obtain st where st: "ApplyLeave (h_sha256 h) \<lparr>vb_Period = p, vb_Subject = ?x\<rparr> (k_store k) = Inr st"
      using ApplyLeave_total [of "\<lparr>vb_Period = p, vb_Subject = ?x\<rparr>"] by auto
    show ?thesis
      using ApplyLeave_spec [OF inv st] True Some st by (simp add: applySubject_def Let_def spec_apply_def)
  qed
next
  case False
  let ?x = "sp_Subject s" and ?w = "sp_Weight s"
  have hr: "has_room (k_store k) ?x" using room by (simp add: has_room_def)
  define st where "st = (if depositIndexOf (k_store k) ?x \<noteq> None then snd (admitMember (h_sha256 h) ?x ?w (k_store k))
      else if ?x \<noteq> [] then AcceptProof (h_sha256 h) p ?x ?w (k_store k) else k_store k)"
  have "roster_inv st \<and> roster st = (if ?x = [] then roster (k_store k) else spec_admit ?x ?w (roster (k_store k)))"
  proof (cases "?x = []")
    case True
    then have "depositIndexOf (k_store k) ?x = None" using roster_invD(2) [OF inv] by (metis not_None_eq)
    then show ?thesis using True inv by (simp add: st_def)
  next
    case False
    obtain i s' where a: "admitMember (h_sha256 h) ?x ?w (k_store k) = (i, s')" by fastforce
    show ?thesis
      using admitMember_spec [OF inv False hr a] AcceptProof_spec [OF inv False hr] False a
      by (simp add: st_def)
  qed
  moreover have "k_store (applySubject h p s k) = memDelete (PendingJoinKey 0 ?x) (memDelete (PendingJoinKey p ?x) st)"
    using False by (simp add: applySubject_def Let_def st_def)
  ultimately show ?thesis using False roster_del_pending by (simp add: spec_apply_def)
qed

lemma apply_subjects_refine:
  "roster_inv (k_store k) \<Longrightarrow> unat (nextDepositIndex (k_store k)) + length ss < 2 ^ 32 \<Longrightarrow>
   roster_inv (k_store (fold (applySubject h p) ss k)) \<and>
   roster (k_store (fold (applySubject h p) ss k)) = fold spec_apply ss (roster (k_store k))"
proof (induction ss arbitrary: k)
  case (Cons s ss)
  have A: "roster_inv (k_store (applySubject h p s k)) \<and>
      roster (k_store (applySubject h p s k)) = spec_apply s (roster (k_store k))"
    using Cons.prems by (intro applySubject_refines) auto
  then have "unat (nextDepositIndex (k_store (applySubject h p s k))) \<le> Suc (unat (nextDepositIndex (k_store k)))"
    using length_spec_apply [of s "roster (k_store k)"] by (metis length_roster)
  then show ?case using Cons.IH [of "applySubject h p s k"] A Cons.prems(2) by simp
qed simp

lemma sync_roster:
  assumes "roster_inv s"
  shows "roster_inv (syncObjectRoots H s)" "roster (syncObjectRoots H s) = roster s"
  using roster_inv_same [OF assms same_roster_sync_self] roster_same [OF assms same_roster_sync_self]
    roster_invD(1) [OF assms] by simp_all

lemma verifyLNPR_store:
  assumes "DebugSubjectsFromBits (k_store k) \<noteq> []" "verifyLNPR h skip blob k = (r, k')"
  shows "k_store k' = k_store k"
  using assms
  by (auto simp: verifyLNPR_def knownSubjectSet_def Let_def split: sum.splits option.splits if_splits)


subsection \<open>Proposer and validator agree\<close>

text \<open>A node that can only make and check dummy proofs: no fold or SSLE binary, no contract.\<close>

definition dummy_node :: "Host \<Rightarrow> bool" where
  "dummy_node h \<longleftrightarrow> \<not> h_foldBin h \<and> \<not> h_ssleBin h \<and> h_sudo h = None \<and> h_verifier h = Some VerifyDummy"

definition dummy_row :: "u64 \<Rightarrow> bytes \<Rightarrow> SubjectProof \<Rightarrow> bool" where
  "dummy_row p roots s \<longleftrightarrow>
    sp_Proof s = DummyStwoProveBoundRoots p (sp_Subject s) (sp_Weight s) roots"

lemma length_DummyProof [simp]: "length (DummyStwoProveBoundRoots p x w r) = 18"
  by (simp add: DummyStwoProveBoundRoots_def split: prod.split)

lemma DummyProof_padRoots [simp]:
  "DummyStwoProveBoundRoots p x w (padRoots r) = DummyStwoProveBoundRoots p x w r"
  by (simp add: DummyStwoProveBoundRoots_def)

lemma DummyProof_magic: "take 4 (DummyStwoProveBoundRoots p x w r) = dummyMagic"
  by (simp add: DummyStwoProveBoundRoots_def DummyStwoProve_def Let_def dummyMagic_def split: prod.split)

lemma dummy_row_shape:
  assumes "dummy_row p roots s"
  shows "\<not> isSTWO (sp_Proof s)" "\<not> isFoldProof (sp_Proof s)" "length (sp_Proof s) = 18"
  using assms DummyProof_magic [of p "sp_Subject s" "sp_Weight s" roots]
  by (auto simp: dummy_row_def isSTWO_def isFoldProof_def dummyMagic_def stwoMagic_def)

lemma verifySubject_dummy:
  assumes "dummy_node h" "k_AllowDummy k" "dummy_row p roots s"
  shows "verifySubjectProof h k p i s roots = Inr ()"
proof -
  have "VerifyDummy (sp_Proof s) (instancesForRoots p (sp_Subject s) (sp_Weight s) roots) = Inr ()"
    using assms(3) VerifyDummy_accepts_iff [OF length_instancesForRoots splitInstance_for]
    by (simp add: dummy_row_def MaxProofBytes_def)
  then show ?thesis
    using assms dummy_row_shape [OF assms(3)]
    by (simp add: verifySubjectProof_def verifyProof_def dummy_node_def)
qed

lemma verifyRows_dummy:
  assumes "dummy_node h" "k_AllowDummy k"
  shows "(\<And>s. s \<in> set ss \<Longrightarrow> dummy_row p roots s \<and> sp_Subject s \<in> set known) \<Longrightarrow>
    raw + length ss \<le> MaxRawStarksPerLNPR \<Longrightarrow>
    verifyRows h k p roots False known i raw x ss = Inr ()"
proof (induction ss arbitrary: i raw)
  case (Cons s ss)
  then have s: "dummy_row p roots s" "sp_Subject s \<in> set known" by auto
  then show ?case
    using Cons dummy_row_shape [OF s(1)] verifySubject_dummy [OF assms s(1)]
    by (simp add: Let_def MaxProofBytes_def)
qed simp

lemma foldProof_dummy: "(\<And>s. s \<in> set ss \<Longrightarrow> dummy_row p roots s) \<Longrightarrow> foldProofFromSubjects ss = None"
  using dummy_row_shape(2) by (induction ss) auto

lemma VerifyLNPR_dummy:
  assumes h: "dummy_node h" "k_AllowDummy k" and live: "DebugSubjectsFromBits (k_store k) \<noteq> []"
    and rows: "\<And>s. s \<in> set ss \<Longrightarrow> dummy_row p (LastObjectRoots (k_store k)) s \<and>
        sp_Subject s \<in> pw_Subject ` set (DebugSubjectsFromBits (k_store k))"
    and d: "distinct (map sp_Subject ss)" "ss \<noteq> []" "length ss \<le> MaxRawStarksPerLNPR"
  shows "fst (VerifyLNPR h \<lparr>lb_Period = p, lb_Subjects = ss\<rparr> k) = Inr ()"
proof -
  let ?b = "\<lparr>lb_Period = p, lb_Subjects = ss\<rparr>"
  have "CheckLNPRUniqueness (k_store k) ?b = Inr ()" using d by (simp add: CheckLNPRUniqueness_iff)
  moreover have "foldProofFromLNPR ?b = None" using foldProof_dummy rows by (simp add: foldProofFromLNPR_def) blast
  moreover have "verifyRows h k' p (LastObjectRoots (k_store k)) False (map pw_Subject (DebugSubjectsFromBits (k_store k))) 0 0 x ss = Inr ()"
    if "k_AllowDummy k'" for k' x
    using rows d(3) that by (intro verifyRows_dummy [OF h(1)]) auto
  ultimately show ?thesis
    using h live d(2) by (simp add: VerifyLNPR_def verifyLNPR_def knownSubjectSet_def Let_def)
qed

lemma proveExtras_known:
  "(\<And>s. s \<in> set ss \<Longrightarrow> sp_Subject s \<in> set known) \<Longrightarrow> proveExtras h k p known x ss = ss"
  by (induction ss) auto

lemma fillDummy_all:
  "raw + length ss \<le> MaxRawStarksPerLNPR \<Longrightarrow> (\<And>s. s \<in> set ss \<Longrightarrow> sp_Proof s = []) \<Longrightarrow>
   fillDummy p roots raw ss =
     map (\<lambda>s. s\<lparr>sp_Proof := DummyStwoProveBoundRoots p (sp_Subject s) (sp_Weight s) roots\<rparr>) ss"
  by (induction ss arbitrary: raw) auto

definition nothing_queued :: "Keeper \<Rightarrow> u64 \<Rightarrow> bool" where
  "nothing_queued k p \<longleftrightarrow> PendingMembershipTxs k = [] \<and>
     memIteratePrefix (PendingLeavePrefixForPeriod p) (k_store k) = []"

lemma applyQueued_nothing:
  "nothing_queued k p \<Longrightarrow> applyQueuedMembership k p rows = sort_key pw_Subject rows"
  by (simp add: nothing_queued_def applyQueuedMembership_def queued_leaves_def queued_joins_def Let_def
      map_filter_simps)

lemma PendingMembershipTxs_store [simp]: "PendingMembershipTxs (k\<lparr>k_store := s\<rparr>) = PendingMembershipTxs k"
  by (simp add: PendingMembershipTxs_def loadMembershipFiles_def)

lemma nothing_queued_sync:
  "nothing_queued k p \<Longrightarrow> nothing_queued (k\<lparr>k_store := syncObjectRoots H (k_store k)\<rparr>) p"
proof -
  have "\<not> HasPrefix ObjectRootsKey (PendingLeavePrefixForPeriod p)"
    by (simp add: HasPrefix_def key_defs prefix_defs)
  then show "nothing_queued k p \<Longrightarrow> ?thesis"
    by (simp add: nothing_queued_def syncObjectRoots_eq iterate_other)
qed

lemma buildBlob_dummy:
  assumes h: "dummy_node h" "k_AllowDummy k" and inv: "roster_inv (k_store k)"
    and live: "DebugSubjectsFromBits (k_store k) \<noteq> []"
    and cap: "length (DebugSubjectsFromBits (k_store k)) \<le> MaxRawStarksPerLNPR"
    and q: "nothing_queued k p"
  shows "buildBlob h p k = (\<lparr>lb_Period = p, lb_Subjects =
      map (\<lambda>r. \<lparr>sp_Subject = pw_Subject r, sp_Weight = pw_Weight r, sp_Proof = DummyStwoProveBoundRoots p
        (pw_Subject r) (pw_Weight r) (LastObjectRoots (syncObjectRoots (h_sha256 h) (k_store k)))\<rparr>)
      (sort_key pw_Subject (DebugSubjectsFromBits (k_store k)))\<rparr>,
      k\<lparr>k_store := syncObjectRoots (h_sha256 h) (k_store k)\<rparr>)"
proof -
  let ?s = "syncObjectRoots (h_sha256 h) (k_store k)"
  let ?rows = "DebugSubjectsFromBits (k_store k)"
  have rows: "DebugSubjectsFromBits ?s = ?rows"
    using DebugSubjects_same [OF inv same_roster_sync_self] roster_invD(1) [OF inv] by simp
  have fp: "\<exists>e. ProveSameStatementFold h x = Inl e" for x using h(1) by (simp add: ProveSameStatementFold_def dummy_node_def)
  obtain e where e: "ProveSameStatementFold h (foldPairStrings (LastObjectRoots ?s)) = Inl e" using fp by blast
  let ?subs = "map (\<lambda>r. \<lparr>sp_Subject = pw_Subject r, sp_Weight = pw_Weight r, sp_Proof = []\<rparr>)
      (sort_key pw_Subject ?rows)"
  have pe: "proveExtras h k1 p (map pw_Subject ?rows) x ?subs = ?subs" for k1 x
    by (rule proveExtras_known) auto
  have fd: "fillDummy p roots 0 ?subs = map (\<lambda>s. s\<lparr>sp_Proof := DummyStwoProveBoundRoots p (sp_Subject s)
      (sp_Weight s) roots\<rparr>) ?subs" for roots
    by (rule fillDummy_all) (use cap in auto)
  show ?thesis
    using live h(2) nothing_queued_sync [OF q]
    by (simp add: buildBlob_def Let_def rows applyQueued_nothing pe e fd)
qed

lemma Note_none:
  "(\<And>tx. tx \<in> set txs \<Longrightarrow> \<not> IsMembershipTx tx) \<Longrightarrow> fold (NoteMembershipTx H) txs k = k"
proof (induction txs arbitrary: k)
  case (Cons tx txs)
  then have "\<not> IsMembershipTx tx" by simp
  then have "NoteMembershipTx H tx k = k"
    by (simp add: NoteMembershipTx_def NoteMembershipBytes_def split: option.split)
  then show ?case using Cons by simp
qed simp

lemma FindSSLE_None: "(\<And>tx. tx \<in> set txs \<Longrightarrow> \<not> HasPrefix tx PrefixSSLE) \<Longrightarrow> FindSSLE txs = None"
  by (auto simp: FindSSLE_def find_first_None_iff DecodeSSLE_def)

lemma set_injectLNPR: "set (injectLNPR txs l) \<subseteq> insert l (set txs)"
  by (auto simp: injectLNPR_def insertAt_def Let_def dest: in_set_takeD in_set_dropD)


subsection \<open>A one-validator chain: the properties at a concrete input\<close>

definition demo_host :: Host where
  "demo_host = \<lparr>h_sha256 = demo_hash, h_stwo = \<lambda>_ _. Inl (Errorf ''no cgo''), h_foldBin = False,
    h_foldVerify = \<lambda>_ _ _ _. Inl (Errorf ''none''), h_foldProve = \<lambda>_ _ _. Inl (Errorf ''none''),
    h_valsetProve = \<lambda>_ _ _. Inl (Errorf ''none''), h_valsetVerify = \<lambda>_ _ _ _. Inl (Errorf ''none''),
    h_ssleBin = False, h_ssleProve = \<lambda>_ _ _. Inl (Errorf ''none''),
    h_ssleVerify = \<lambda>_ _ _ _. Inl (Errorf ''none''), h_verifier = Some VerifyDummy, h_sudo = None\<rparr>"

definition demo_keeper :: Keeper where
  "demo_keeper = NewKeeper False demo_store 0 None"

definition demo_blob :: LNPRBlob where
  "demo_blob = \<lparr>lb_Period = 0, lb_Subjects = [\<lparr>sp_Subject = alice, sp_Weight = 0,
     sp_Proof = DummyStwoProveBoundRoots 0 alice 0 (LastObjectRoots demo_store)\<rparr>]\<rparr>"

lemma demo_keeper_simps [simp]:
  "k_store demo_keeper = demo_store" "k_AllowDummy demo_keeper" "k_live demo_keeper = 0"
  "k_queue demo_keeper = []" "k_disk demo_keeper = None" "dummy_node demo_host"
  "h_sha256 demo_host = demo_hash"
  by (simp_all add: demo_keeper_def NewKeeper_def demo_host_def dummy_node_def)

lemma demo_blob_accepted: "fst (VerifyLNPR demo_host demo_blob demo_keeper) = Inr ()"
  unfolding demo_blob_def
  by (rule VerifyLNPR_dummy) (auto simp: demo_debug dummy_row_def MaxRawStarksPerLNPR_def)

lemma demo_apply_accepted: "\<exists>k'. ApplyLNPR demo_host demo_blob demo_keeper = (Inr (), k')"
  using demo_blob_accepted
  by (cases "VerifyLNPR demo_host demo_blob demo_keeper") (simp add: ApplyLNPR_def Let_def)


lemma demo_prepare: "\<exists>out k'. WrapPrepareProposal demo_host None 5 [] [] demo_keeper = (Inr out, k')"
  by (auto simp: WrapPrepareProposal_def Let_def split: prod.split)

lemma demo_nothing_queued: "nothing_queued demo_keeper p"
proof -
  have "memGet demo_store (PendingLeaveKey p x) = None" for x
    by (simp add: demo_store_def AcceptProof_def admitMember_other key_simps) (simp add: key_defs prefix_defs)
  then have "memIteratePrefix (PendingLeavePrefixForPeriod p) demo_store = []"
    using mem.iter_Nil_iff [OF roster_invD(1) [OF demo_inv]] by (auto simp: HasPrefix_pending_leave_iff)
  then show ?thesis by (simp add: nothing_queued_def PendingMembershipTxs_def loadMembershipFiles_def)
qed


definition demo_lnpr :: LNPRBlob where
  "demo_lnpr = \<lparr>lb_Period = 3, lb_Subjects = [\<lparr>sp_Subject = [7], sp_Weight = 1, sp_Proof = []\<rparr>]\<rparr>"

theorem injected_LNPR_at_expected_index_witness:
  "wf_LNPR demo_lnpr \<and>
   FindLNPR (injectLNPR [PrefixHMVE, [9]] (EncodeLNPR demo_lnpr)) =
     Some (demo_lnpr, expectedLNPRIndex (injectLNPR [PrefixHMVE, [9]] (EncodeLNPR demo_lnpr)))"
proof -
  have "wf_LNPR demo_lnpr" by (simp add: wf_LNPR_def wf_subject_def demo_lnpr_def)
  then show ?thesis using injected_LNPR_at_expected_index [of demo_lnpr] by blast
qed

end
