(* ===== verification/Lean_Driver.thy ===== *)
theory Lean_Driver
  imports Lean_Participants Lean_Abci
begin

text \<open>
  \<open>x/leanval/cwffi/driver.go\<close>: the automaton that maps consensus rounds onto the application.
  The application is a record of its methods over its own state, the signature check of a certificate
  and the address of a public key are parameters, and the time of a call is an argument. The mutex
  makes every method one atomic step, so a run of the driver is a sequence of events.
\<close>

subsection \<open>The application behind the driver\<close>

type_synonym moment = int

record PrepareReq =
  pr_Height :: i64
  pr_Time :: moment
  pr_MaxTxBytes :: i64
  pr_Txs :: "bytes list"
  pr_Proposer :: bytes

record ProcessReq =
  cr_Txs :: "bytes list"
  cr_Hash :: bytes
  cr_Height :: i64
  cr_Time :: moment
  cr_Proposer :: bytes

record VoteInfo =
  vi_Address :: bytes
  vi_Power :: i64

record FinalizeReq =
  fr_Txs :: "bytes list"
  fr_Hash :: bytes
  fr_Height :: i64
  fr_Time :: moment
  fr_Proposer :: bytes
  fr_Commit :: "VoteInfo list"

text \<open>
  The interface \<open>EngineApp\<close> as a record of its methods over the application's state. An
  \<open>Inl\<close> is the error a method returns and \<open>None\<close> a nil response.
\<close>

record 's EngineApp =
  ea_Info :: "'s \<Rightarrow> lean_error + i64 option"
  ea_PrepareProposal :: "PrepareReq \<Rightarrow> 's \<Rightarrow> (lean_error + bytes list option) \<times> 's"
  ea_ProcessProposal :: "ProcessReq \<Rightarrow> 's \<Rightarrow> (lean_error + ProposalStatus option) \<times> 's"
  ea_FinalizeBlock :: "FinalizeReq \<Rightarrow> 's \<Rightarrow> (lean_error + unit) \<times> 's"
  ea_Commit :: "'s \<Rightarrow> (lean_error + unit) \<times> 's"
  ea_CheckTx :: "bytes \<Rightarrow> 's \<Rightarrow> (lean_error + u32 option) \<times> 's"

record 's Driver =
  d_app :: 's
  d_proposer :: bytes
  d_chainID :: string
  d_next :: i64
  d_lastCert :: LeanCert
  d_lastCertRaw :: bytes
  d_lastPks :: bytes
  d_lastWeights :: "u64 list"
  d_lastPayload :: bytes
  d_mempool :: "bytes list"
  d_committed :: "i64 \<rightharpoonup> bytes \<times> bytes"
  d_storeQuery :: "('s \<Rightarrow> StoreQuery) option"
  d_onCommit :: bool
  d_conflicts :: int
  d_verifyCert :: "(bytes \<Rightarrow> u64 list \<Rightarrow> bytes \<Rightarrow> bool) option"
  d_engineHeight :: u64
  d_notified :: "i64 list"

definition NewDriver :: "'s EngineApp \<Rightarrow> 's \<Rightarrow> string \<Rightarrow> bytes \<Rightarrow> 's Driver" where
  "NewDriver ea app chainID proposer =
    \<lparr>d_app = app, d_proposer = proposer, d_chainID = chainID,
     d_next = (case ea_Info ea app of Inr (Some h) \<Rightarrow> if sint h < 1 then 1 else h + 1 | _ \<Rightarrow> 1),
     d_lastCert = zeroCert, d_lastCertRaw = [], d_lastPks = [], d_lastWeights = [], d_lastPayload = [],
     d_mempool = [], d_committed = Map.empty, d_storeQuery = None, d_onCommit = False, d_conflicts = 0,
     d_verifyCert = None, d_engineHeight = 0, d_notified = []\<rparr>"

definition SetStoreQuery :: "('s \<Rightarrow> StoreQuery) option \<Rightarrow> 's Driver \<Rightarrow> 's Driver" where
  "SetStoreQuery q d = d\<lparr>d_storeQuery := q\<rparr>"

definition SetOnCommit :: "bool \<Rightarrow> 's Driver \<Rightarrow> 's Driver" where
  "SetOnCommit fn d = d\<lparr>d_onCommit := fn\<rparr>"

definition SetVerifyCert :: "(bytes \<Rightarrow> u64 list \<Rightarrow> bytes \<Rightarrow> bool) option \<Rightarrow> 's Driver \<Rightarrow> 's Driver" where
  "SetVerifyCert fn d = d\<lparr>d_verifyCert := fn\<rparr>"

definition Driver_Height :: "'s EngineApp \<Rightarrow> 's Driver \<Rightarrow> i64" where
  "Driver_Height ea d = (case ea_Info ea (d_app d) of Inr (Some h) \<Rightarrow> h | _ \<Rightarrow> d_next d - 1)"

definition ParticipantsWeights :: "u64 \<Rightarrow> 's Driver \<Rightarrow> lean_error + bytes \<times> u64 list" where
  "ParticipantsWeights epoch d =
    (case d_storeQuery d of
       None \<Rightarrow> Inr ([], [])
     | Some q \<Rightarrow> BondedParticipantsWeights (Some (q (d_app d))) epoch)"

definition Participants :: "u64 \<Rightarrow> 's Driver \<Rightarrow> lean_error + bytes" where
  "Participants epoch d =
    (case d_storeQuery d of None \<Rightarrow> Inr [] | Some q \<Rightarrow> BondedParticipants (Some (q (d_app d))) epoch)"

definition Propose :: "'s EngineApp \<Rightarrow> (bytes \<Rightarrow> bytes) \<Rightarrow> moment \<Rightarrow> 's Driver \<Rightarrow> (lean_error + bytes \<times> bytes) \<times> 's Driver" where
  "Propose ea H now d =
    (let h = (if sint (d_next d) < 1 then 1 else d_next d);
         (resp, app) = ea_PrepareProposal ea \<lparr>pr_Height = h, pr_Time = now, pr_MaxTxBytes = 4194304,
            pr_Txs = d_mempool d, pr_Proposer = d_proposer d\<rparr> (d_app d);
         d = d\<lparr>d_app := app\<rparr>
     in case resp of
          Inl e \<Rightarrow> (Inl e, d)
        | Inr None \<Rightarrow> (Inl (Errorf ''lean-cw: nil PrepareProposal''), d)
        | Inr (Some txs) \<Rightarrow>
            let raw = Payload_Encode \<lparr>pl_Height = h, pl_Txs = txs\<rparr>
            in (Inr (H raw, raw), d\<lparr>d_lastPayload := raw\<rparr>))"

definition Driver_Verify :: "'s EngineApp \<Rightarrow> (bytes \<Rightarrow> bytes) \<Rightarrow> moment \<Rightarrow> bytes \<Rightarrow> bytes \<Rightarrow> 's Driver \<Rightarrow> bool \<times> 's Driver" where
  "Driver_Verify ea H now digest payload d =
    (let d = d\<lparr>d_lastPayload := payload\<rparr>
     in if containsDSTW payload then (False, d)
        else case DecodePayload payload of
          Inl _ \<Rightarrow> (False, d)
        | Inr p \<Rightarrow>
            if length digest = 32 \<and> H payload \<noteq> digest then (False, d)
            else let (resp, app) = ea_ProcessProposal ea \<lparr>cr_Txs = pl_Txs p, cr_Hash = digest,
                       cr_Height = pl_Height p, cr_Time = now, cr_Proposer = d_proposer d\<rparr> (d_app d);
                     d = d\<lparr>d_app := app\<rparr>
                 in case resp of
                      Inl _ \<Rightarrow> (False, d)
                    | Inr None \<Rightarrow> (False, d)
                    | Inr (Some status) \<Rightarrow> (status = ACCEPT, d))"

definition Certify :: "'s Driver \<Rightarrow> bool" where
  "Certify d = (\<not> containsDSTW (d_lastPayload d))"

definition Report :: "u32 \<Rightarrow> 's Driver \<Rightarrow> 's Driver" where
  "Report kind d = (if kind = 7 then d\<lparr>d_conflicts := d_conflicts d + 1\<rparr> else d)"

definition participantsAndWeightsLocked :: "u64 \<Rightarrow> 's Driver \<Rightarrow> lean_error + bytes \<times> u64 list" where
  "participantsAndWeightsLocked epoch d =
    (case d_storeQuery d of
       None \<Rightarrow> Inr (d_lastPks d, d_lastWeights d)
     | Some q \<Rightarrow>
        (case BondedParticipantsWeights (Some (q (d_app d))) epoch of
           Inl e \<Rightarrow> Inl e
         | Inr (pks, w) \<Rightarrow> if length pks = 0 then Inr (d_lastPks d, d_lastWeights d) else Inr (pks, w)))"

definition isZeroSig :: "bytes \<Rightarrow> bool" where
  "isZeroSig sig = (if length sig = 0 then True else \<forall>b \<in> set sig. b = 0)"

definition vote_of :: "(bytes \<Rightarrow> bytes) \<Rightarrow> bytes \<Rightarrow> u64 list \<Rightarrow> CertSigner \<Rightarrow> VoteInfo option" where
  "vote_of addr pks weights s =
    (let off = unat (cs_Index s) * 32 in
     if off + 32 > length pks then None
     else let pk = take 32 (drop off pks);
              power = (if unat (cs_Index s) < length weights then weights ! unat (cs_Index s) else 0);
              power = (if sint power \<le> 0 then 1 else power)
          in if isZeroSig (cs_Signature s) then None
             else Some \<lparr>vi_Address = addr pk, vi_Power = power\<rparr>)"

definition lastCommitFromCert :: "(bytes \<Rightarrow> bytes) \<Rightarrow> LeanCert \<Rightarrow> bytes \<Rightarrow> u64 list \<Rightarrow> VoteInfo list" where
  "lastCommitFromCert addr c pks weights = List.map_filter (vote_of addr pks weights) (lc_Signers c)"

text \<open>
  \<open>finalize\<close>. The tests before the block is handed to the application, then the calls to it
  and the bookkeeping. An \<open>Inl\<close> is a run-time panic while the participants are read.
\<close>

definition certified :: "bytes \<Rightarrow> bool \<Rightarrow> bytes \<Rightarrow> u64 list \<Rightarrow> 's Driver \<Rightarrow> bool" where
  "certified cert remote pks weights d =
    (let (parsed, perr) = ParseLeanCert cert in
     \<not> (remote \<and> (length cert = 0 \<or>
          (case d_verifyCert d of None \<Rightarrow> False | Some verify \<Rightarrow> \<not> verify pks weights cert))) \<and>
     \<not> (perr = None \<and> length (lc_Signers parsed) > 0 \<and>
        totalWeight weights > 0 \<and> \<not> MeetsWeight (signedWeight parsed weights) (totalWeight weights)))"

definition commit_block ::
  "'s EngineApp \<Rightarrow> (bytes \<Rightarrow> bytes) \<Rightarrow> (bytes \<Rightarrow> bytes) \<Rightarrow> moment \<Rightarrow> bytes \<Rightarrow> bytes \<Rightarrow> bytes \<Rightarrow> Payload \<Rightarrow>
   bytes \<Rightarrow> u64 list \<Rightarrow> 's Driver \<Rightarrow> 's Driver" where
  "commit_block ea H addr now digest payload cert p pks weights d =
    (let (parsed, perr) = ParseLeanCert cert;
         (r, app) = ea_FinalizeBlock ea \<lparr>fr_Txs = pl_Txs p, fr_Hash = digest, fr_Height = pl_Height p,
            fr_Time = now, fr_Proposer = d_proposer d,
            fr_Commit = lastCommitFromCert addr parsed pks weights\<rparr> (d_app d);
         d = d\<lparr>d_app := app\<rparr>
     in case r of
          Inl _ \<Rightarrow> d
        | Inr _ \<Rightarrow>
            let (r, app) = ea_Commit ea (d_app d); d = d\<lparr>d_app := app\<rparr>
            in case r of
                 Inl _ \<Rightarrow> d
               | Inr _ \<Rightarrow>
                   let included = H ` set (pl_Txs p)
                   in d\<lparr>d_mempool := filter (\<lambda>tx. H tx \<notin> included) (d_mempool d),
                        d_lastCert := (if perr = None then parsed else d_lastCert d),
                        d_lastCertRaw :=
                          (if perr = None then (if length (lc_Raw parsed) > 0 then lc_Raw parsed else cert)
                           else if length cert > 0 then cert else d_lastCertRaw d),
                        d_lastPks := pks, d_lastWeights := weights,
                        d_committed := (d_committed d)(pl_Height p \<mapsto> (payload, cert)),
                        d_next := pl_Height p + 1,
                        d_engineHeight := pl_Height p,
                        d_notified := (if d_onCommit d then d_notified d @ [pl_Height p] else d_notified d)\<rparr>)"

definition finalize ::
  "'s EngineApp \<Rightarrow> (bytes \<Rightarrow> bytes) \<Rightarrow> (bytes \<Rightarrow> bytes) \<Rightarrow> moment \<Rightarrow> u64 \<Rightarrow> bytes \<Rightarrow> bytes \<Rightarrow> bytes \<Rightarrow> bool \<Rightarrow>
   's Driver \<Rightarrow> lean_error + 's Driver" where
  "finalize ea H addr now epoch digest payload cert remote d =
    (case DecodePayload payload of
       Inl _ \<Rightarrow> Inr d
     | Inr p \<Rightarrow>
         if sint (d_next d) > 0 \<and> sint (pl_Height p) < sint (d_next d) then Inr d
         else if sint (d_next d) > 0 \<and> pl_Height p \<noteq> d_next d then Inr d
         else let digest = (if length digest \<noteq> 32 then H payload else digest) in
           (case participantsAndWeightsLocked epoch d of
              Inl e \<Rightarrow> Inl e
            | Inr (pks, weights) \<Rightarrow>
                if \<not> certified cert remote pks weights d then Inr d
                else Inr (commit_block ea H addr now digest payload cert p pks weights d)))"

definition Driver_Finalize ::
  "'s EngineApp \<Rightarrow> (bytes \<Rightarrow> bytes) \<Rightarrow> (bytes \<Rightarrow> bytes) \<Rightarrow> moment \<Rightarrow> u64 \<Rightarrow> bytes \<Rightarrow> bytes \<Rightarrow> bytes \<Rightarrow>
   's Driver \<Rightarrow> lean_error + 's Driver" where
  "Driver_Finalize ea H addr now epoch digest payload cert d =
     finalize ea H addr now epoch digest payload cert False d"

definition ApplyRemote ::
  "'s EngineApp \<Rightarrow> (bytes \<Rightarrow> bytes) \<Rightarrow> (bytes \<Rightarrow> bytes) \<Rightarrow> moment \<Rightarrow> bytes \<Rightarrow> bytes \<Rightarrow> 's Driver \<Rightarrow> lean_error + 's Driver" where
  "ApplyRemote ea H addr now payload cert d =
    (if length payload = 0 \<or> length cert = 0 then Inr d
     else finalize ea H addr now 0 (H payload) payload cert True d)"

definition PayloadAt :: "i64 \<Rightarrow> 's Driver \<Rightarrow> bytes \<times> i64 \<times> bytes" where
  "PayloadAt h d =
    (let h = (if sint h \<le> 0 then d_next d - 1 else h) in
     if sint h < 1 then ([], 0, d_lastCertRaw d)
     else case d_committed d h of
            Some (payload, cert) \<Rightarrow> (payload, h, cert)
          | None \<Rightarrow> ([], h, d_lastCertRaw d))"

definition Driver_CheckTx :: "'s EngineApp \<Rightarrow> (bytes \<Rightarrow> bytes) \<Rightarrow> bytes \<Rightarrow> 's Driver \<Rightarrow> (lean_error + u32 option) \<times> 's Driver" where
  "Driver_CheckTx ea H tx d =
    (let (resp, app) = ea_CheckTx ea tx (d_app d); d = d\<lparr>d_app := app\<rparr>
     in case resp of
          Inl e \<Rightarrow> (Inl e, d)
        | Inr None \<Rightarrow> (Inr None, d)
        | Inr (Some code) \<Rightarrow>
            (Inr (Some code),
             if code = 0 \<and> length tx > 0 \<and> \<not> (\<exists>t \<in> set (d_mempool d). H t = H tx)
             then d\<lparr>d_mempool := d_mempool d @ [tx]\<rparr> else d))"

subsection \<open>What a finalization does\<close>

text \<open>Either nothing but the application's state moves, or exactly one block is appended.\<close>

definition appended :: "(bytes \<Rightarrow> bytes) \<Rightarrow> Payload \<Rightarrow> bytes \<Rightarrow> bytes \<Rightarrow> 's Driver \<Rightarrow> 's Driver \<Rightarrow> bool" where
  "appended H p payload cert d d' \<longleftrightarrow>
     d_committed d' = (d_committed d)(pl_Height p \<mapsto> (payload, cert)) \<and>
     d_next d' = pl_Height p + 1 \<and>
     d_mempool d' = filter (\<lambda>tx. H tx \<notin> H ` set (pl_Txs p)) (d_mempool d) \<and>
     d_engineHeight d' = pl_Height p \<and>
     d_notified d' = (if d_onCommit d then d_notified d @ [pl_Height p] else d_notified d) \<and>
     d_verifyCert d' = d_verifyCert d \<and> d_storeQuery d' = d_storeQuery d \<and> d_onCommit d' = d_onCommit d \<and>
     d_lastPayload d' = d_lastPayload d \<and> d_conflicts d' = d_conflicts d \<and>
     d_proposer d' = d_proposer d"

lemma commit_block_cases:
  "(\<exists>app. commit_block ea H addr now digest payload cert p pks weights d = d\<lparr>d_app := app\<rparr>) \<or>
   appended H p payload cert d (commit_block ea H addr now digest payload cert p pks weights d)"
proof -
  obtain parsed perr where P: "ParseLeanCert cert = (parsed, perr)" by fastforce
  define rq where "rq = \<lparr>fr_Txs = pl_Txs p, fr_Hash = digest, fr_Height = pl_Height p,
            fr_Time = now, fr_Proposer = d_proposer d,
            fr_Commit = lastCommitFromCert addr parsed pks weights\<rparr>"
  obtain r app where F: "ea_FinalizeBlock ea rq (d_app d) = (r, app)" by fastforce
  obtain r' app' where C: "ea_Commit ea app = (r', app')" by fastforce
  show ?thesis
  proof (cases r)
    case (Inl e)
    then show ?thesis using F by (auto simp: commit_block_def P rq_def Let_def)
  next
    case (Inr u)
    show ?thesis
    proof (cases r')
      case (Inl e)
      then show ?thesis using F Inr C by (auto simp: commit_block_def P rq_def Let_def)
    next
      case Inr': (Inr u')
      then show ?thesis using F Inr C by (simp add: commit_block_def P rq_def appended_def Let_def)
    qed
  qed
qed

lemma finalize_shape:
  assumes "finalize ea H addr now epoch digest payload cert remote d = Inr d'"
  obtains (refused) "d' = d"
  | (accepted) p pks weights dg where "DecodePayload payload = Inr p" "sint (d_next d) > 0 \<Longrightarrow> pl_Height p = d_next d"
      "participantsAndWeightsLocked epoch d = Inr (pks, weights)" "certified cert remote pks weights d"
      "d' = commit_block ea H addr now dg payload cert p pks weights d"
proof (cases "DecodePayload payload")
  case (Inl e)
  then show ?thesis using assms refused by (simp add: finalize_def)
next
  case (Inr p)
  show ?thesis
  proof (cases "sint (d_next d) > 0 \<and> pl_Height p \<noteq> d_next d")
    case True
    then show ?thesis using assms refused Inr by (simp add: finalize_def split: if_splits)
  next
    case h: False
    then obtain pks weights where W: "participantsAndWeightsLocked epoch d = Inr (pks, weights)"
      using assms Inr by (cases "participantsAndWeightsLocked epoch d") (auto simp: finalize_def split: if_splits)
    have g: "\<not> (sint (d_next d) > 0 \<and> sint (pl_Height p) < sint (d_next d))" using h by auto
    show ?thesis
    proof (cases "certified cert remote pks weights d")
      case False
      then show ?thesis using assms refused Inr W g h by (simp add: finalize_def)
    next
      case True
      have "d' = commit_block ea H addr now (if length digest \<noteq> 32 then H payload else digest) payload cert p pks weights d"
        using assms Inr W g h True by (simp add: finalize_def Let_def)
      then show ?thesis using accepted [OF Inr _ W True] h by blast
    qed
  qed
qed

lemma finalize_cases:
  assumes "finalize ea H addr now epoch digest payload cert remote d = Inr d'"
  obtains (unchanged) app where "d' = d\<lparr>d_app := app\<rparr>"
  | (block) p pks weights where "DecodePayload payload = Inr p" "sint (d_next d) > 0 \<Longrightarrow> pl_Height p = d_next d"
      "participantsAndWeightsLocked epoch d = Inr (pks, weights)" "certified cert remote pks weights d"
      "appended H p payload cert d d'"
  using assms
proof (cases rule: finalize_shape)
  case refused
  then have "d' = d\<lparr>d_app := d_app d\<rparr>" by simp
  then show ?thesis by (rule unchanged)
next
  case (accepted p pks weights dg)
  then show ?thesis
    using commit_block_cases [of ea H addr now dg payload cert p pks weights d] unchanged block [OF accepted(1-4)] by blast
qed

subsection \<open>The driver as a state machine\<close>

datatype 's drv_event =
    EvPropose moment
  | EvVerify moment bytes bytes
  | EvReport u32
  | EvFinalize moment u64 bytes bytes bytes
  | EvApplyRemote moment bytes bytes
  | EvCheckTx bytes
  | EvSetStoreQuery "('s \<Rightarrow> StoreQuery) option"
  | EvSetVerifyCert "(bytes \<Rightarrow> u64 list \<Rightarrow> bytes \<Rightarrow> bool) option"
  | EvSetOnCommit bool

fun drv_step :: "'s EngineApp \<Rightarrow> (bytes \<Rightarrow> bytes) \<Rightarrow> (bytes \<Rightarrow> bytes) \<Rightarrow> 's drv_event \<Rightarrow> 's Driver \<Rightarrow> lean_error + 's Driver" where
  "drv_step ea H addr (EvPropose now) d = Inr (snd (Propose ea H now d))"
| "drv_step ea H addr (EvVerify now digest payload) d = Inr (snd (Driver_Verify ea H now digest payload d))"
| "drv_step ea H addr (EvReport kind) d = Inr (Report kind d)"
| "drv_step ea H addr (EvFinalize now epoch digest payload cert) d =
     Driver_Finalize ea H addr now epoch digest payload cert d"
| "drv_step ea H addr (EvApplyRemote now payload cert) d = ApplyRemote ea H addr now payload cert d"
| "drv_step ea H addr (EvCheckTx tx) d = Inr (snd (Driver_CheckTx ea H tx d))"
| "drv_step ea H addr (EvSetStoreQuery q) d = Inr (SetStoreQuery q d)"
| "drv_step ea H addr (EvSetVerifyCert f) d = Inr (SetVerifyCert f d)"
| "drv_step ea H addr (EvSetOnCommit b) d = Inr (SetOnCommit b d)"

inductive drv_run :: "'s EngineApp \<Rightarrow> (bytes \<Rightarrow> bytes) \<Rightarrow> (bytes \<Rightarrow> bytes) \<Rightarrow> nat \<Rightarrow> 's Driver \<Rightarrow> 's Driver \<Rightarrow> bool"
  for ea H addr where
  start: "drv_run ea H addr 0 d d"
| step: "drv_run ea H addr n d d' \<Longrightarrow> drv_step ea H addr ev d' = Inr d'' \<Longrightarrow> drv_run ea H addr (Suc n) d d''"

text \<open>The committed blocks are the heights from the first one up to the next.\<close>

definition ledger_inv :: "(bytes \<Rightarrow> bytes) \<Rightarrow> int \<Rightarrow> 's Driver \<Rightarrow> bool" where
  "ledger_inv H first d \<longleftrightarrow>
     0 < first \<and> first \<le> sint (d_next d) \<and>
     dom (d_committed d) = {h. first \<le> sint h \<and> sint h < sint (d_next d)} \<and>
     (\<forall>h payload cert. d_committed d h = Some (payload, cert) \<longrightarrow>
        (\<exists>p. DecodePayload payload = Inr p \<and> pl_Height p = h)) \<and>
     distinct (map H (d_mempool d))"

lemma sint_succ: "sint (h :: i64) < 2 ^ 63 - 1 \<Longrightarrow> sint (h + 1) = sint h + 1"
proof -
  assume h: "sint h < 2 ^ 63 - 1"
  have "- (2 ^ 63) \<le> sint h" using sint_greater_eq [of h] by simp
  then have "signed_take_bit 63 (sint h + 1) = sint h + 1"
    using h by (intro signed_take_bit_int_eq_self) simp_all
  then show ?thesis by (simp add: sint_word_ariths)
qed

definition quiet :: "(bytes \<Rightarrow> bytes) \<Rightarrow> 's Driver \<Rightarrow> 's Driver \<Rightarrow> bool" where
  "quiet H d d' \<longleftrightarrow> d_committed d' = d_committed d \<and> d_next d' = d_next d \<and>
     (d_mempool d' = d_mempool d \<or> (\<exists>tx. d_mempool d' = d_mempool d @ [tx] \<and> H tx \<notin> H ` set (d_mempool d)))"

lemma quiet_events:
  "quiet H d (d\<lparr>d_app := app\<rparr>)" "quiet H d (snd (Propose ea H now d))"
  "quiet H d (snd (Driver_Verify ea H now digest payload d))" "quiet H d (Report kind d)"
  "quiet H d (SetStoreQuery q d)" "quiet H d (SetVerifyCert f d)" "quiet H d (SetOnCommit b d)"
  by (auto simp: quiet_def Propose_def Driver_Verify_def Report_def SetStoreQuery_def SetVerifyCert_def SetOnCommit_def
      Let_def split_def split: sum.splits option.splits if_splits)

lemma quiet_CheckTx: "quiet H d (snd (Driver_CheckTx ea H tx d))"
proof -
  obtain r app where "ea_CheckTx ea tx (d_app d) = (r, app)" by fastforce
  then show ?thesis by (auto simp: quiet_def Driver_CheckTx_def Let_def split: sum.split option.split)
qed

lemma finalize_quiet_or_appended:
  assumes "finalize ea H addr now epoch digest payload cert remote d = Inr d'"
  shows "quiet H d d' \<or>
    (\<exists>p. DecodePayload payload = Inr p \<and> (sint (d_next d) > 0 \<longrightarrow> pl_Height p = d_next d) \<and> appended H p payload cert d d')"
  using assms by (cases rule: finalize_cases) (auto simp: quiet_events)

lemma drv_step_cases:
  assumes "drv_step ea H addr ev d = Inr d'"
  obtains (quiet) "quiet H d d'"
  | (block) p payload cert where "DecodePayload payload = Inr p" "sint (d_next d) > 0 \<Longrightarrow> pl_Height p = d_next d"
      "appended H p payload cert d d'"
proof (cases ev)
  case (EvFinalize now epoch digest pl cert)
  then show ?thesis using assms finalize_quiet_or_appended that by (auto simp: Driver_Finalize_def) blast
next
  case (EvApplyRemote now pl cert)
  show ?thesis
  proof (cases "length pl = 0 \<or> length cert = 0")
    case True
    then have "d' = d\<lparr>d_app := d_app d\<rparr>" using assms EvApplyRemote by (auto simp: ApplyRemote_def)
    then show ?thesis using quiet_events(1) that(1) by metis
  next
    case False
    then show ?thesis using assms EvApplyRemote finalize_quiet_or_appended that by (auto simp: ApplyRemote_def) blast
  qed
qed (use assms that(1) in \<open>auto simp: quiet_events quiet_CheckTx\<close>)

lemma ledger_inv_step:
  assumes "ledger_inv H first d" "sint (d_next d) < 2 ^ 63 - 1" "drv_step ea H addr ev d = Inr d'"
  shows "ledger_inv H first d' \<and> d_committed d \<subseteq>\<^sub>m d_committed d' \<and>
     sint (d_next d) \<le> sint (d_next d') \<and> sint (d_next d') \<le> sint (d_next d) + 1"
  using assms(3)
proof (cases rule: drv_step_cases)
  case quiet
  then show ?thesis using assms(1) by (auto simp: ledger_inv_def quiet_def)
next
  case (block p payload cert)
  have I: "0 < first" "first \<le> sint (d_next d)" "dom (d_committed d) = {h. first \<le> sint h \<and> sint h < sint (d_next d)}"
    using assms(1) by (simp_all add: ledger_inv_def)
  then have h: "pl_Height p = d_next d" using block(2) by simp
  have n: "d_next d' = d_next d + 1" "sint (d_next d + 1) = sint (d_next d) + 1"
    using block(3) assms(2) by (simp_all add: appended_def h sint_succ)
  have new: "d_committed d (d_next d) = None" using I(3) by (metis (mono_tags, lifting) domIff less_irrefl mem_Collect_eq)
  have c: "d_committed d' = (d_committed d)(d_next d \<mapsto> (payload, cert))" using block(3) by (simp add: appended_def h)
  have "sint x < sint (d_next d) + 1 \<longleftrightarrow> x = d_next d \<or> sint x < sint (d_next d)" for x
    by (metis sint_eq_iff zless_add1_eq)
  then have "dom (d_committed d') = {x. first \<le> sint x \<and> sint x < sint (d_next d')}"
    using I unfolding c n dom_fun_upd by auto
  moreover have "distinct (map H (d_mempool d'))"
    using assms(1) block(3) by (simp add: ledger_inv_def appended_def distinct_map_filter)
  moreover have "\<exists>p. DecodePayload pl = Inr p \<and> pl_Height p = x" if "d_committed d' x = Some (pl, ct)" for x pl ct
    using that assms(1) block(1) h by (auto simp: c ledger_inv_def split: if_splits)
  ultimately show ?thesis using I n new by (auto simp: ledger_inv_def map_le_def c)
qed

lemma NewDriver_ledger_inv:
  assumes "sint (d_next (NewDriver ea app cid prop)) > 0"
  shows "ledger_inv H (sint (d_next (NewDriver ea app cid prop))) (NewDriver ea app cid prop)"
  using assms by (simp add: ledger_inv_def NewDriver_def)

lemma drv_run_ledger:
  assumes "drv_run ea H addr n d d'" "ledger_inv H first d" "sint (d_next d) + int n < 2 ^ 63"
  shows "ledger_inv H first d' \<and> d_committed d \<subseteq>\<^sub>m d_committed d' \<and> sint (d_next d') \<le> sint (d_next d) + int n"
  using assms
proof (induction rule: drv_run.induct)
  case (start d)
  then show ?case by simp
next
  case (step n d d' ev d'')
  then have "sint (d_next d') < 2 ^ 63 - 1" by simp
  then show ?case using step ledger_inv_step [of H first d' ea addr ev d''] map_le_trans by fastforce
qed

subsection \<open>Properties\<close>

text \<open>The driver votes for a payload exactly if it carries no dummy proof, decodes, hashes to the digest
  where one is given, and the application accepts the decoded transactions at the decoded height.\<close>

theorem Verify_accepts_iff:
  "fst (Driver_Verify ea H now digest payload d) \<longleftrightarrow>
     \<not> containsDSTW payload \<and>
     (\<exists>p. DecodePayload payload = Inr p \<and> (if length digest = 32 then digest = H payload else True) \<and>
        fst (ea_ProcessProposal ea \<lparr>cr_Txs = pl_Txs p, cr_Hash = digest, cr_Height = pl_Height p,
               cr_Time = now, cr_Proposer = d_proposer d\<rparr> (d_app d)) = Inr (Some ACCEPT))"
  by (auto simp: Driver_Verify_def Let_def split_def split: sum.splits option.splits)

lemma ApplyRemote_eq:
  assumes "DecodePayload payload = Inr p" "pl_Height p = d_next d" "cert \<noteq> []"
    and "participantsAndWeightsLocked 0 d = Inr (pks, ws)" "certified cert True pks ws d" "length (H payload) = 32"
  shows "ApplyRemote ea H addr now payload cert d =
    Inr (commit_block ea H addr now (H payload) payload cert p pks ws d)"
proof -
  have "payload \<noteq> []" using assms(1) by (auto simp: DecodePayload_def)
  then show ?thesis using assms by (simp add: ApplyRemote_def finalize_def Let_def)
qed

lemma commit_block_success:
  assumes "\<And>rq s. fst (ea_FinalizeBlock ea rq s) = Inr ()" "\<And>s. fst (ea_Commit ea s) = Inr ()"
  shows "appended H p payload cert d (commit_block ea H addr now digest payload cert p pks weights d)"
proof -
  obtain parsed perr where P: "ParseLeanCert cert = (parsed, perr)" by fastforce
  define rq where "rq = \<lparr>fr_Txs = pl_Txs p, fr_Hash = digest, fr_Height = pl_Height p,
            fr_Time = now, fr_Proposer = d_proposer d,
            fr_Commit = lastCommitFromCert addr parsed pks weights\<rparr>"
  obtain app where F: "ea_FinalizeBlock ea rq (d_app d) = (Inr (), app)"
    using assms(1) [of rq "d_app d"] by (cases "ea_FinalizeBlock ea rq (d_app d)") auto
  obtain app' where C: "ea_Commit ea app = (Inr (), app')"
    using assms(2) [of app] by (cases "ea_Commit ea app") auto
  show ?thesis using F C by (simp add: commit_block_def P rq_def appended_def Let_def)
qed


subsection \<open>The driver and its application\<close>

text \<open>What the driver relies on: only a successful commit moves the height, to that of the block.\<close>

definition height_laws :: "'s EngineApp \<Rightarrow> ('s \<Rightarrow> i64) \<Rightarrow> bool" where
  "height_laws ea ht \<longleftrightarrow>
     (\<forall>s. ea_Info ea s = Inr (Some (ht s))) \<and>
     (\<forall>rq s. ht (snd (ea_PrepareProposal ea rq s)) = ht s) \<and>
     (\<forall>rq s. ht (snd (ea_ProcessProposal ea rq s)) = ht s) \<and>
     (\<forall>tx s. ht (snd (ea_CheckTx ea tx s)) = ht s) \<and>
     (\<forall>rq s. ht (snd (ea_FinalizeBlock ea rq s)) = ht s) \<and>
     (\<forall>rq s s' s''. ea_FinalizeBlock ea rq s = (Inr (), s') \<longrightarrow> ea_Commit ea s' = (Inr (), s'') \<longrightarrow> ht s'' = fr_Height rq) \<and>
     (\<forall>s e s'. ea_Commit ea s = (Inl e, s') \<longrightarrow> ht s' = ht s)"

definition in_step :: "('s \<Rightarrow> i64) \<Rightarrow> 's Driver \<Rightarrow> bool" where
  "in_step ht d \<longleftrightarrow> d_next d = ht (d_app d) + 1"

lemma commit_block_in_step:
  assumes L: "height_laws ea ht" and S: "in_step ht d" "pl_Height p = d_next d"
  shows "in_step ht (commit_block ea H addr now digest payload cert p pks weights d)"
proof -
  obtain parsed perr where P: "ParseLeanCert cert = (parsed, perr)" by fastforce
  define rq where "rq = \<lparr>fr_Txs = pl_Txs p, fr_Hash = digest, fr_Height = pl_Height p,
            fr_Time = now, fr_Proposer = d_proposer d,
            fr_Commit = lastCommitFromCert addr parsed pks weights\<rparr>"
  obtain r app where F: "ea_FinalizeBlock ea rq (d_app d) = (r, app)" by fastforce
  obtain r' app' where C: "ea_Commit ea app = (r', app')" by fastforce
  have h1: "ht app = ht (d_app d)" using L F unfolding height_laws_def by (metis snd_conv)
  have h2: "r' = Inl e \<Longrightarrow> ht app' = ht app" for e using L C unfolding height_laws_def by blast
  have h3: "r = Inr () \<Longrightarrow> r' = Inr () \<Longrightarrow> ht app' = pl_Height p"
    using L F C unfolding height_laws_def rq_def by (metis FinalizeReq.select_convs(3))
  show ?thesis
    using S F C h1 h2 h3
    by (cases r; cases r') (auto simp: commit_block_def P rq_def in_step_def Let_def)
qed

lemma finalize_in_step:
  assumes "height_laws ea ht" "in_step ht d" "0 < sint (d_next d)"
    and "finalize ea H addr now epoch digest payload cert remote d = Inr d'"
  shows "in_step ht d'"
  using assms(4) by (cases rule: finalize_shape) (use assms commit_block_in_step in auto)

lemma app_call_in_step:
  assumes "height_laws ea ht" "in_step ht d"
  shows "in_step ht (snd (Propose ea H now d))" "in_step ht (snd (Driver_Verify ea H now digest payload d))"
    "in_step ht (snd (Driver_CheckTx ea H tx d))"
  using assms
  by (auto simp: Propose_def Driver_Verify_def Driver_CheckTx_def in_step_def height_laws_def Let_def split_def
      split: sum.splits option.splits)

lemma in_step_step:
  assumes "height_laws ea ht" "in_step ht d" "0 < sint (d_next d)"
    and "drv_step ea H addr ev d = Inr d'"
  shows "in_step ht d'"
proof (cases ev)
  case (EvFinalize now epoch digest payload cert)
  then show ?thesis using assms finalize_in_step by (auto simp: Driver_Finalize_def)
next
  case (EvApplyRemote now payload cert)
  then show ?thesis using assms finalize_in_step by (auto simp: ApplyRemote_def split: if_splits)
qed (use assms app_call_in_step in \<open>auto simp: Report_def SetStoreQuery_def SetVerifyCert_def SetOnCommit_def in_step_def\<close>)

lemma drv_run_in_step:
  assumes "drv_run ea H addr n d d'" "height_laws ea ht" "in_step ht d" "ledger_inv H first d"
    "sint (d_next d) + int n < 2 ^ 63"
  shows "in_step ht d'"
  using assms
proof (induction rule: drv_run.induct)
  case (step n d d' ev d'')
  have "ledger_inv H first d'" using drv_run_ledger [OF step(1) step(6)] step(7) by simp
  then have "0 < sint (d_next d')" by (simp add: ledger_inv_def)
  then show ?case using step in_step_step by fastforce
qed

lemma NewDriver_next:
  assumes "height_laws ea ht" "0 \<le> sint (ht app)"
  shows "d_next (NewDriver ea app cid proposer) = ht app + 1"
proof -
  have info: "ea_Info ea app = Inr (Some (ht app))" using assms(1) by (simp add: height_laws_def)
  have "sint (ht app) < 1 \<Longrightarrow> ht app = 0" using assms(2) sint_eq_iff [of "ht app" 0] by simp
  then show ?thesis by (auto simp: NewDriver_def info)
qed

text \<open>C18. The driver and its application stay in step through any sequence of calls: the next height is
  one above the application's, the committed blocks are exactly the heights since the start, and each
  stored payload decodes to its own height.\<close>

theorem driver_follows_application:
  assumes "height_laws ea ht" "0 \<le> sint (ht app)" "sint (ht app) + int n < 2 ^ 63 - 1"
    and "drv_run ea H addr n (NewDriver ea app cid proposer) d"
  shows "d_next d = ht (d_app d) + 1 \<and> Driver_Height ea d = ht (d_app d) \<and>
     dom (d_committed d) = {h. sint (ht app) < sint h \<and> sint h \<le> sint (ht (d_app d))} \<and>
     (\<forall>h payload cert. d_committed d h = Some (payload, cert) \<longrightarrow>
        (\<exists>p. DecodePayload payload = Inr p \<and> pl_Height p = h))"
proof -
  let ?d0 = "NewDriver ea app cid proposer"
  have n0: "d_next ?d0 = ht app + 1" using assms(1,2) by (rule NewDriver_next)
  have s0: "sint (d_next ?d0) = sint (ht app) + 1" unfolding n0 using assms(3) by (intro sint_succ) simp
  have I0: "ledger_inv H (sint (ht app) + 1) ?d0" using NewDriver_ledger_inv [of ea app cid proposer H] s0 assms(2) by simp
  have b: "sint (d_next ?d0) + int n < 2 ^ 63" using assms(3) s0 by simp
  have "in_step ht ?d0" by (simp add: in_step_def n0) (simp add: NewDriver_def)
  then have st: "d_next d = ht (d_app d) + 1"
    using drv_run_in_step [OF assms(4) assms(1) _ I0 b] by (simp add: in_step_def)
  have I: "ledger_inv H (sint (ht app) + 1) d" "sint (d_next d) \<le> sint (ht app) + 1 + int n"
    using drv_run_ledger [OF assms(4) I0 b] s0 by simp_all
  have "sint (ht (d_app d)) < 2 ^ 63 - 1"
  proof (rule ccontr)
    assume "\<not> sint (ht (d_app d)) < 2 ^ 63 - 1"
    then have "sint (ht (d_app d)) = 2 ^ 63 - 1" using sint_less [of "ht (d_app d)"] by simp
    then have "ht (d_app d) = 0x7FFFFFFFFFFFFFFF" by (intro signed_word_eqI) simp
    then have "sint (d_next d) < 0" unfolding st by simp
    then show False using I(1) by (simp add: ledger_inv_def)
  qed
  then have "sint (d_next d) = sint (ht (d_app d)) + 1" unfolding st by (rule sint_succ)
  then show ?thesis
    using I(1) st assms(1) by (auto simp: ledger_inv_def Driver_Height_def height_laws_def)
qed

text \<open>C3. The ledger only grows: any run keeps the ledger invariant (contiguous heights, payloads that
  decode to their height, no two pooled transactions with the same hash) and never changes a committed
  block.\<close>

theorem driver_ledger:
  assumes "ledger_inv H first d" "drv_run ea H addr n d d'" "sint (d_next d) + int n < 2 ^ 63"
  shows "ledger_inv H first d' \<and> d_committed d \<subseteq>\<^sub>m d_committed d'"
  using drv_run_ledger [OF assms(2,1,3)] by blast

subsection \<open>The properties at concrete inputs\<close>

text \<open>An application that keeps only its height and the height of the block being finalized.\<close>

definition counting_app :: "(i64 \<times> i64) EngineApp" where
  "counting_app = \<lparr>ea_Info = \<lambda>s. Inr (Some (fst s)),
     ea_PrepareProposal = \<lambda>rq s. (Inr (Some (pr_Txs rq)), s),
     ea_ProcessProposal = \<lambda>rq s. (Inr (Some ACCEPT), s),
     ea_FinalizeBlock = \<lambda>rq s. (Inr (), (fst s, fr_Height rq)),
     ea_Commit = \<lambda>s. (Inr (), (snd s, snd s)),
     ea_CheckTx = \<lambda>tx s. (Inr (Some 0), s)\<rparr>"

definition fresh_driver :: "(i64 \<times> i64) Driver" where
  "fresh_driver = NewDriver counting_app (0, 0) ''terp'' [1]"

definition block_one :: Payload where
  "block_one = \<lparr>pl_Height = 1, pl_Txs = [[5], [6]]\<rparr>"

lemma counting_laws: "height_laws counting_app fst"
  by (simp add: height_laws_def counting_app_def)

lemma decode_block_one: "DecodePayload (Payload_Encode block_one) = Inr block_one"
  using DecodePayload_enc [of block_one "[]"] by (simp add: wf_Payload_def block_one_def)

lemma finalize_block_one:
  "finalize counting_app demo_hash id 0 0 [] (Payload_Encode block_one) [] False fresh_driver =
   Inr (commit_block counting_app demo_hash id 0 (demo_hash (Payload_Encode block_one)) (Payload_Encode block_one) []
      block_one [] [] fresh_driver)"
  by (simp add: finalize_def decode_block_one)
    (simp add: fresh_driver_def NewDriver_def counting_app_def block_one_def participantsAndWeightsLocked_def
      certified_def ParseLeanCert_def zeroCert_def)

lemma run_block_one:
  "drv_run counting_app demo_hash id (Suc 0) fresh_driver
    (commit_block counting_app demo_hash id 0 (demo_hash (Payload_Encode block_one)) (Payload_Encode block_one) []
      block_one [] [] fresh_driver)"
  by (rule drv_run.step [OF drv_run.start, where ev = "EvFinalize 0 0 [] (Payload_Encode block_one) []"])
    (simp add: Driver_Finalize_def finalize_block_one)

theorem driver_follows_application_witness:
  "\<exists>d. drv_run counting_app demo_hash id 1 (NewDriver counting_app (0, 0) ''terp'' [1]) d \<and>
     d_next d = fst (d_app d) + 1 \<and>
     dom (d_committed d) = {h. sint (0 :: i64) < sint h \<and> sint h \<le> sint (fst (d_app d))} \<and>
     d_committed d 1 = Some (Payload_Encode block_one, [])"
proof -
  let ?d = "commit_block counting_app demo_hash id 0 (demo_hash (Payload_Encode block_one)) (Payload_Encode block_one) []
      block_one [] [] fresh_driver"
  have r: "drv_run counting_app demo_hash id 1 (NewDriver counting_app (0, 0) ''terp'' [1]) ?d"
    using run_block_one by (simp add: fresh_driver_def)
  have "d_committed ?d 1 = Some (Payload_Encode block_one, [])"
    using commit_block_success [of counting_app demo_hash block_one "Payload_Encode block_one" "[]" fresh_driver id 0
        "demo_hash (Payload_Encode block_one)" "[]" "[]"]
    by (simp add: appended_def counting_app_def block_one_def)
  then show ?thesis
    using r driver_follows_application [OF counting_laws, of "(0, 0)" 1 demo_hash id "''terp''" "[1]" ?d] by auto
qed

theorem driver_ledger_witness:
  "\<exists>d. drv_run counting_app demo_hash id (Suc 0) fresh_driver d \<and> ledger_inv demo_hash 1 d"
proof -
  have "ledger_inv demo_hash 1 fresh_driver" "sint (d_next fresh_driver) = 1"
    by (simp_all add: fresh_driver_def NewDriver_def counting_app_def ledger_inv_def)
  then show ?thesis using driver_ledger [OF _ run_block_one, of 1] run_block_one by auto
qed


end
