(* ===== verification/Lean_Registry.thy ===== *)
theory Lean_Registry
  imports Lean_Abci
begin

text \<open>
  The registries beside the roster (\<open>x/leanval/keeper/daily.go\<close>, \<open>withdraw.go\<close>, \<open>privacy.go\<close>): daily
  keys, hidden withdrawals and their named proofs. The provers and verifiers are programs the node
  starts, fields of the record \<open>RegHost\<close>; the byte checks around them and the store entries they
  guard are modelled as written. The locales \<open>named_proof\<close> and \<open>two_named_proofs\<close> say what the kind
  bytes of a proof promise, and are interpreted for every verifier of the module.
\<close>

text \<open>The provers and verifiers of the registries, programs the module runs.\<close>

record RegHost = Host +
  rh_dailyBin :: bool
  rh_dailyProve :: "u64 \<Rightarrow> bytes \<Rightarrow> bytes \<Rightarrow> lean_error + bytes"
  rh_dailyVerify :: "u64 \<Rightarrow> bytes \<Rightarrow> bytes \<Rightarrow> bytes \<Rightarrow> lean_error + unit"
  rh_withdrawBin :: bool
  rh_nwProve :: "u64 \<Rightarrow> bytes \<Rightarrow> bytes \<Rightarrow> lean_error + bytes"
  rh_nwVerify :: "u64 \<Rightarrow> bytes \<Rightarrow> bytes \<Rightarrow> bytes \<Rightarrow> lean_error + unit"
  rh_pwProve :: "u64 \<Rightarrow> bytes \<Rightarrow> u64 \<Rightarrow> lean_error + bytes"
  rh_pwVerify :: "u64 \<Rightarrow> bytes \<Rightarrow> bytes \<Rightarrow> bytes \<Rightarrow> lean_error + unit"

subsection \<open>Named proofs\<close>

definition dailyKind :: bytes where "dailyKind = [0x44, 0x41, 0x59, 0x4B]"
definition noWithdrawKind :: bytes where "noWithdrawKind = [0x4E, 0x57, 0x44, 0x41]"
definition partialKind :: bytes where "partialKind = [0x50, 0x57, 0x44, 0x57]"

definition pad32 :: "bytes \<Rightarrow> bytes" where
  "pad32 b = (if length b \<ge> 32 then take 32 b else copy_pad 32 b)"

definition checkNamedStwo :: "bytes \<Rightarrow> bytes \<Rightarrow> lean_error + unit" where
  "checkNamedStwo proof kind =
    (if Contains proof dummyMagic then Inl (Errorf ''leanval: Dummy-N is not a proof'')
     else if length proof < 10 \<or> take 4 proof \<noteq> stwoMagic then Inl (Errorf ''leanval: proof must be STWO magic'')
     else if proof ! 4 \<noteq> 2 \<or> proof ! 5 \<noteq> 5 then Inl (Errorf ''leanval: wants prover_id=2 curve_id=5'')
     else if take 4 (drop 6 proof) \<noteq> kind then Inl (Errorf ''leanval: kind missing'')
     else Inr ())"

text \<open>\<open>inst\<close>: the public inputs a named proof carries behind its header.\<close>

definition embedded_inputs :: "bytes \<Rightarrow> bytes" where
  "embedded_inputs proof = (if length proof \<ge> 82 then take 72 (drop 10 proof) else [])"

subsection \<open>Daily keys\<close>

definition dailyTag :: bytes where
  "dailyTag = map (\<lambda>c. of_nat (of_char c)) ''leanval/daily/key/v1''"

definition DailyKey :: "(bytes \<Rightarrow> bytes) \<Rightarrow> u64 \<Rightarrow> bytes \<Rightarrow> bytes" where
  "DailyKey H period ident = H (dailyTag @ putU64 period @ ident)"

definition PutDailyKey :: "u64 \<Rightarrow> bytes \<Rightarrow> store \<Rightarrow> store" where
  "PutDailyKey period key s = (if length key = 0 then s else memSet (DailyKeyKey period) key s)"

definition GetDailyKey :: "u64 \<Rightarrow> store \<Rightarrow> bytes" where
  "GetDailyKey period s = getb s (DailyKeyKey period)"

definition ProveDailyKey :: "RegHost \<Rightarrow> u64 \<Rightarrow> bytes \<Rightarrow> bytes \<Rightarrow> lean_error + bytes \<times> bytes" where
  "ProveDailyKey h period ident prevRoot =
    (if \<not> rh_dailyBin h then Inl (Errorf ''leanval: lean-daily-keys not on PATH'')
     else let prevRoot = (if length prevRoot < 32 then copy_pad 32 prevRoot else prevRoot) in
       case rh_dailyProve h period ident (take 32 prevRoot) of
         Inl e \<Rightarrow> Inl (Errorf ''leanval: daily prove'')
       | Inr out \<Rightarrow>
           if length out < 32 + 10 \<or> take 4 (drop 32 out) \<noteq> stwoMagic
           then Inl (Errorf ''leanval: daily prove missing STWO'')
           else if Contains out dummyMagic then Inl (Errorf ''leanval: daily prove emitted Dummy'')
           else Inr (take 32 out, drop 32 out))"

definition VerifyDailyKeyProof :: "RegHost \<Rightarrow> bytes \<Rightarrow> u64 \<Rightarrow> bytes \<Rightarrow> bytes \<Rightarrow> lean_error + unit" where
  "VerifyDailyKeyProof h proof period dayKey prevRoot =
    (if Contains proof dummyMagic then Inl (Errorf ''leanval: Dummy-N is not a daily-key proof'')
     else if length proof < 10 \<or> take 4 proof \<noteq> stwoMagic then Inl (Errorf ''leanval: daily proof must be STWO magic'')
     else if proof ! 4 \<noteq> 2 \<or> proof ! 5 \<noteq> 5 then Inl (Errorf ''leanval: daily wants prover_id=2 curve_id=5'')
     else if take 4 (drop 6 proof) \<noteq> dailyKind then Inl (Errorf ''leanval: daily kind missing'')
     else let prevRoot = (if length prevRoot < 32 then copy_pad 32 prevRoot else prevRoot) in
       case h_stwo h proof (embedded_inputs proof) of
         Inr _ \<Rightarrow> Inr ()
       | Inl _ \<Rightarrow>
           if \<not> rh_dailyBin h then Inl (Errorf ''leanval: lean-daily-keys not on PATH (not cargo)'')
           else rh_dailyVerify h period dayKey (take 32 prevRoot) proof)"

definition RegisterDailyKey :: "RegHost \<Rightarrow> u64 \<Rightarrow> bytes \<Rightarrow> bytes \<Rightarrow> store \<Rightarrow> (lean_error + bytes) \<times> store" where
  "RegisterDailyKey h period ident prevRoot s =
    (case ProveDailyKey h period ident prevRoot of
       Inl e \<Rightarrow> (Inl e, s)
     | Inr (key, proof) \<Rightarrow>
        (case VerifyDailyKeyProof h proof period key prevRoot of
           Inl e \<Rightarrow> (Inl e, s)
         | Inr _ \<Rightarrow> (Inr key, PutDailyKey period key s)))"

subsection \<open>Hidden withdrawals\<close>

definition commitTag :: bytes where
  "commitTag = map (\<lambda>c. of_nat (of_char c)) ''leanval/withdraw/commit/v1''"
definition nwaccTag :: bytes where
  "nwaccTag = map (\<lambda>c. of_nat (of_char c)) ''leanval/withdraw/nwacc/v1''"
definition partialTag :: bytes where
  "partialTag = map (\<lambda>c. of_nat (of_char c)) ''leanval/withdraw/partial/v1''"

definition WithdrawCommit :: "(bytes \<Rightarrow> bytes) \<Rightarrow> bytes \<Rightarrow> bytes \<Rightarrow> bytes" where
  "WithdrawCommit H addr secret = H (commitTag @ addr @ secret)"

definition NoWithdrawAcc :: "(bytes \<Rightarrow> bytes) \<Rightarrow> u64 \<Rightarrow> bytes \<Rightarrow> bytes \<Rightarrow> bytes" where
  "NoWithdrawAcc H period prev commit =
    (let prev = (if length prev < 32 then copy_pad 32 prev else prev)
     in H (nwaccTag @ putU64 period @ take 32 prev @ commit))"

definition PartialNewCommit :: "(bytes \<Rightarrow> bytes) \<Rightarrow> u64 \<Rightarrow> bytes \<Rightarrow> u64 \<Rightarrow> bytes" where
  "PartialNewCommit H period old amount = H (partialTag @ putU64 period @ old @ putU64 amount)"

definition PutWithdrawCommit :: "u64 \<Rightarrow> bytes \<Rightarrow> store \<Rightarrow> store" where
  "PutWithdrawCommit period commit s = (if length commit = 0 then s else memSet (WithdrawCommitKey period) commit s)"

definition GetWithdrawCommit :: "u64 \<Rightarrow> store \<Rightarrow> bytes" where
  "GetWithdrawCommit period s = getb s (WithdrawCommitKey period)"

definition PutNoWithdrawAcc :: "u64 \<Rightarrow> bytes \<Rightarrow> store \<Rightarrow> store" where
  "PutNoWithdrawAcc period acc s = (if length acc = 0 then s else memSet (NoWithdrawAccKey period) acc s)"

definition GetNoWithdrawAcc :: "u64 \<Rightarrow> store \<Rightarrow> bytes" where
  "GetNoWithdrawAcc period s = getb s (NoWithdrawAccKey period)"

definition ProveNoWithdraw :: "RegHost \<Rightarrow> u64 \<Rightarrow> bytes \<Rightarrow> bytes \<Rightarrow> lean_error + bytes \<times> bytes" where
  "ProveNoWithdraw h period prev commit =
    (if \<not> rh_withdrawBin h then Inl (Errorf ''leanval: lean-withdraw not on PATH'')
     else case rh_nwProve h period (pad32 prev) commit of
         Inl e \<Rightarrow> Inl (Errorf ''leanval: no-withdraw prove'')
       | Inr out \<Rightarrow>
           if length out < 32 + 10 \<or> take 4 (drop 32 out) \<noteq> stwoMagic
           then Inl (Errorf ''leanval: no-withdraw prove missing STWO'')
           else if Contains out dummyMagic then Inl (Errorf ''leanval: no-withdraw prove emitted Dummy'')
           else Inr (take 32 out, drop 32 out))"

definition VerifyNoWithdrawProof :: "RegHost \<Rightarrow> bytes \<Rightarrow> u64 \<Rightarrow> bytes \<Rightarrow> bytes \<Rightarrow> lean_error + unit" where
  "VerifyNoWithdrawProof h proof period acc prev =
    (case checkNamedStwo proof noWithdrawKind of
       Inl e \<Rightarrow> Inl e
     | Inr _ \<Rightarrow>
        (case h_stwo h proof (embedded_inputs proof) of
           Inr _ \<Rightarrow> Inr ()
         | Inl _ \<Rightarrow>
             if \<not> rh_withdrawBin h then Inl (Errorf ''leanval: lean-withdraw not on PATH (not cargo)'')
             else rh_nwVerify h period (pad32 acc) (pad32 prev) proof))"

definition ProvePartialWithdraw :: "RegHost \<Rightarrow> u64 \<Rightarrow> bytes \<Rightarrow> u64 \<Rightarrow> lean_error + bytes \<times> bytes" where
  "ProvePartialWithdraw h period old amount =
    (if \<not> rh_withdrawBin h then Inl (Errorf ''leanval: lean-withdraw not on PATH'')
     else case rh_pwProve h period old amount of
         Inl e \<Rightarrow> Inl (Errorf ''leanval: partial prove'')
       | Inr out \<Rightarrow>
           if length out < 32 + 10 \<or> take 4 (drop 32 out) \<noteq> stwoMagic
           then Inl (Errorf ''leanval: partial prove missing STWO'')
           else if Contains out dummyMagic then Inl (Errorf ''leanval: partial prove emitted Dummy'')
           else if take 4 (drop 38 out) = noWithdrawKind then Inl (Errorf ''leanval: partial must not be NWDA'')
           else Inr (take 32 out, drop 32 out))"

definition VerifyPartialWithdrawProof :: "RegHost \<Rightarrow> bytes \<Rightarrow> u64 \<Rightarrow> bytes \<Rightarrow> bytes \<Rightarrow> lean_error + unit" where
  "VerifyPartialWithdrawProof h proof period old new =
    (case checkNamedStwo proof partialKind of
       Inl e \<Rightarrow> Inl e
     | Inr _ \<Rightarrow>
        (case h_stwo h proof (embedded_inputs proof) of
           Inr _ \<Rightarrow> Inr ()
         | Inl _ \<Rightarrow>
             if \<not> rh_withdrawBin h then Inl (Errorf ''leanval: lean-withdraw not on PATH (not cargo)'')
             else rh_pwVerify h period old new proof))"

definition RegisterNoWithdraw :: "RegHost \<Rightarrow> u64 \<Rightarrow> bytes \<Rightarrow> bytes \<Rightarrow> store \<Rightarrow> (lean_error + bytes) \<times> store" where
  "RegisterNoWithdraw h period prev commit s =
    (case ProveNoWithdraw h period prev commit of
       Inl e \<Rightarrow> (Inl e, s)
     | Inr (acc, proof) \<Rightarrow>
        (case VerifyNoWithdrawProof h proof period acc prev of
           Inl e \<Rightarrow> (Inl e, s)
         | Inr _ \<Rightarrow> (Inr acc, PutNoWithdrawAcc period acc (PutWithdrawCommit period commit s))))"

text \<open>\<open>privacy.go\<close>: the commitment of the hidden withdrawal without a circuit.\<close>

definition hashAddrSecret :: "(bytes \<Rightarrow> bytes) \<Rightarrow> bytes \<Rightarrow> bytes \<Rightarrow> bytes" where
  "hashAddrSecret H addr secret = copy_pad 32 (H (addr @ secret))"

definition Commit :: "(bytes \<Rightarrow> bytes) \<Rightarrow> bytes \<Rightarrow> bytes \<Rightarrow> lean_error + bytes" where
  "Commit H addr secret = Inr (hashAddrSecret H addr secret)"

definition Open :: "(bytes \<Rightarrow> bytes) \<Rightarrow> bytes \<Rightarrow> bytes \<Rightarrow> bytes \<Rightarrow> lean_error + unit" where
  "Open H commit addr secret =
    (if hashAddrSecret H addr secret \<noteq> commit then Inl (Errorf ''leanval: withdrawal open mismatch'') else Inr ())"

subsection \<open>Named proofs as an interface\<close>

locale named_proof =
  fixes kind :: bytes
    and accepted :: "bytes \<Rightarrow> bool"
  assumes header: "accepted pf \<Longrightarrow> take 4 pf = stwoMagic \<and> take 4 (drop 6 pf) = kind"
    and no_dummy: "accepted pf \<Longrightarrow> \<not> Contains pf dummyMagic"
begin

lemma wrong_kind: "take 4 (drop 6 pf) \<noteq> kind \<Longrightarrow> \<not> accepted pf"
  using header by blast

lemma dummy_refused: "accepted pf \<Longrightarrow> pf \<noteq> xs @ dummyMagic @ ys"
  using no_dummy Contains_iff by blast

end

locale two_named_proofs = a: named_proof kind1 accepted1 + b: named_proof kind2 accepted2
  for kind1 accepted1 kind2 accepted2 +
  assumes kinds_differ: "kind1 \<noteq> kind2"
begin

lemma exclusive: "accepted1 pf \<Longrightarrow> \<not> accepted2 pf"
  using a.header b.header kinds_differ by metis

end

lemma checkNamedStwo_iff:
  "checkNamedStwo pf kind = Inr () \<longleftrightarrow>
     \<not> Contains pf dummyMagic \<and> 10 \<le> length pf \<and> take 4 pf = stwoMagic \<and> pf ! 4 = 2 \<and> pf ! 5 = 5 \<and>
     take 4 (drop 6 pf) = kind"
  by (auto simp: checkNamedStwo_def)

interpretation daily: named_proof dailyKind "\<lambda>pf. VerifyDailyKeyProof h pf period key prev = Inr ()" for h period key prev
  by unfold_locales (auto simp: VerifyDailyKeyProof_def split: if_splits)

interpretation nowithdraw: named_proof noWithdrawKind "\<lambda>pf. VerifyNoWithdrawProof h pf period acc prev = Inr ()" for h period acc prev
  by unfold_locales (auto simp: VerifyNoWithdrawProof_def checkNamedStwo_iff split: sum.splits)

interpretation partialw: named_proof partialKind "\<lambda>pf. VerifyPartialWithdrawProof h pf period old new = Inr ()" for h period old new
  by unfold_locales (auto simp: VerifyPartialWithdrawProof_def checkNamedStwo_iff split: sum.splits)

interpretation ssle_proof: named_proof ssleKind "\<lambda>pf. VerifySSLEProof h pf period height ticket = Inr ()" for h period height ticket
  by unfold_locales (auto simp: VerifySSLEProof_def split: if_splits)

interpretation fold_proof: named_proof foldKind "\<lambda>pf. VerifySameStatementFold h pf pairs = Inr ()" for h pairs
  by unfold_locales (auto simp: VerifySameStatementFold_def split: if_splits)

lemmas kind_defs = dailyKind_def noWithdrawKind_def partialKind_def ssleKind_def foldKind_def

interpretation nw_daily: two_named_proofs noWithdrawKind "\<lambda>pf. VerifyNoWithdrawProof h pf p a r = Inr ()"
    dailyKind "\<lambda>pf. VerifyDailyKeyProof h pf p' k r' = Inr ()" for h p a r p' k r'
  by unfold_locales (simp add: kind_defs)

interpretation nw_partial: two_named_proofs noWithdrawKind "\<lambda>pf. VerifyNoWithdrawProof h pf p a r = Inr ()"
    partialKind "\<lambda>pf. VerifyPartialWithdrawProof h pf p' old new = Inr ()" for h p a r p' old new
  by unfold_locales (simp add: kind_defs)

interpretation nw_ssle: two_named_proofs noWithdrawKind "\<lambda>pf. VerifyNoWithdrawProof h pf p a r = Inr ()"
    ssleKind "\<lambda>pf. VerifySSLEProof h' pf p' ht t = Inr ()" for h p a r h' p' ht t
  by unfold_locales (simp add: kind_defs)

interpretation nw_fold: two_named_proofs noWithdrawKind "\<lambda>pf. VerifyNoWithdrawProof h pf p a r = Inr ()"
    foldKind "\<lambda>pf. VerifySameStatementFold h' pf pairs = Inr ()" for h p a r h' pairs
  by unfold_locales (simp add: kind_defs)

subsection \<open>Properties\<close>

text \<open>A proof accepted as a proof of no withdrawal is accepted as nothing else: the same bytes are
  refused as a partial withdrawal, a daily key, an election ticket and a fold, whatever the programs
  behind the checks answer.
\<close>

theorem no_withdraw_proof_exclusive:
  assumes "VerifyNoWithdrawProof h pf period acc prev = Inr ()"
  shows "VerifyPartialWithdrawProof h pf p1 old new \<noteq> Inr () \<and> VerifyDailyKeyProof h pf p2 key root \<noteq> Inr () \<and>
     VerifySSLEProof h' pf p3 ht ticket \<noteq> Inr () \<and> VerifySameStatementFold h' pf pairs \<noteq> Inr ()"
  using nw_partial.exclusive [OF assms] nw_daily.exclusive [OF assms] nw_ssle.exclusive [OF assms] nw_fold.exclusive [OF assms]
  by blast

text \<open>A node on which every in-process check succeeds, and whose prover answers a fixed proof.\<close>

definition nw_proof :: bytes where
  "nw_proof = stwoMagic @ [2, 5] @ noWithdrawKind"

definition demo_reg_host :: RegHost where
  "demo_reg_host = Host.extend (demo_host\<lparr>h_stwo := \<lambda>_ _. Inr ()\<rparr>)
     \<lparr>rh_dailyBin = False, rh_dailyProve = \<lambda>_ _ _. Inl (Errorf []), rh_dailyVerify = \<lambda>_ _ _ _. Inl (Errorf []),
      rh_withdrawBin = True, rh_nwProve = \<lambda>_ _ _. Inr (alice @ nw_proof), rh_nwVerify = \<lambda>_ _ _ _. Inl (Errorf []),
      rh_pwProve = \<lambda>_ _ _. Inl (Errorf []), rh_pwVerify = \<lambda>_ _ _ _. Inl (Errorf [])\<rparr>"

lemma demo_reg_host_simps [simp]:
  "h_stwo demo_reg_host = (\<lambda>_ _. Inr ())" "rh_withdrawBin demo_reg_host"
  "rh_nwProve demo_reg_host = (\<lambda>_ _ _. Inr (alice @ nw_proof))"
  by (simp_all add: demo_reg_host_def Host.defs)

lemma nw_proof_accepted: "VerifyNoWithdrawProof demo_reg_host nw_proof p a r = Inr ()"
  by (simp add: VerifyNoWithdrawProof_def checkNamedStwo_def nw_proof_def stwoMagic_def noWithdrawKind_def
      dummyMagic_def HasPrefix_def)

theorem no_withdraw_proof_exclusive_witness:
  "VerifyNoWithdrawProof demo_reg_host nw_proof 1 [] [] = Inr () \<and>
   VerifyPartialWithdrawProof demo_reg_host nw_proof 1 [] [] \<noteq> Inr ()"
  using no_withdraw_proof_exclusive [OF nw_proof_accepted [of 1 "[]" "[]"]] nw_proof_accepted by blast

lemma registry_frame:
  "same_roster (PutWithdrawCommit p c s) s" "same_roster (PutNoWithdrawAcc p a s) s" "same_roster (PutDailyKey p key s) s"
  by (simp_all add: PutWithdrawCommit_def PutNoWithdrawAcc_def PutDailyKey_def frame_simps key_simps)

lemma registry_reads:
  "GetNoWithdrawAcc q (PutNoWithdrawAcc p a s) = (if q = p \<and> a \<noteq> [] then a else GetNoWithdrawAcc q s)"
  "GetWithdrawCommit q (PutWithdrawCommit p c s) = (if q = p \<and> c \<noteq> [] then c else GetWithdrawCommit q s)"
  "GetWithdrawCommit q (PutNoWithdrawAcc p a s) = GetWithdrawCommit q s"
  "GetNoWithdrawAcc q (PutWithdrawCommit p c s) = GetNoWithdrawAcc q s"
  "GetDailyKey q (PutDailyKey p key s) = (if q = p \<and> key \<noteq> [] then key else GetDailyKey q s)"
  by (auto simp: GetNoWithdrawAcc_def PutNoWithdrawAcc_def GetWithdrawCommit_def PutWithdrawCommit_def GetDailyKey_def
      PutDailyKey_def key_simps dest!: arg_cong [of _ _ hd])

text \<open>Registering a period without withdrawal is all or nothing: on an error the store is as it was,
  and on success the accumulator and the commitment of exactly that period are set, those of every
  other period and the roster are kept.
\<close>

theorem RegisterNoWithdraw_spec:
  assumes "RegisterNoWithdraw h period prev commit s = (r, s')"
  shows "case r of
      Inl e \<Rightarrow> s' = s
    | Inr acc \<Rightarrow> length acc = 32 \<and>
        GetNoWithdrawAcc q s' = (if q = period then acc else GetNoWithdrawAcc q s) \<and>
        GetWithdrawCommit q s' = (if q = period \<and> commit \<noteq> [] then commit else GetWithdrawCommit q s) \<and>
        same_roster s' s"
proof (cases r)
  case (Inl e)
  then show ?thesis using assms by (auto simp: RegisterNoWithdraw_def split: sum.splits)
next
  case (Inr acc)
  obtain pf where P: "ProveNoWithdraw h period prev commit = Inr (acc, pf)"
    and s': "s' = PutNoWithdrawAcc period acc (PutWithdrawCommit period commit s)"
    using assms Inr by (auto simp: RegisterNoWithdraw_def split: sum.splits)
  have l: "length acc = 32" using P by (auto simp: ProveNoWithdraw_def split: if_splits sum.splits)
  then have "acc \<noteq> []" by auto
  moreover have "same_roster s' s" unfolding s' using registry_frame same_roster_trans by blast
  ultimately show ?thesis using Inr l by (auto simp: s' registry_reads)
qed

lemma demo_registered:
  "RegisterNoWithdraw demo_reg_host 3 [] [9] [] = (Inr alice, PutNoWithdrawAcc 3 alice (PutWithdrawCommit 3 [9] []))"
proof -
  have l: "length alice = 32" by (simp add: alice_def)
  have "\<not> Contains (alice @ nw_proof) dummyMagic" by code_simp
  moreover have "take 4 nw_proof = stwoMagic" "length nw_proof = 10" by code_simp+
  ultimately have "ProveNoWithdraw demo_reg_host 3 [] [9] = Inr (alice, nw_proof)"
    by (simp add: ProveNoWithdraw_def l)
  then show ?thesis by (simp add: RegisterNoWithdraw_def nw_proof_accepted)
qed

theorem RegisterNoWithdraw_spec_witness:
  "\<exists>s'. RegisterNoWithdraw demo_reg_host 3 [] [9] [] = (Inr alice, s') \<and>
     GetNoWithdrawAcc 3 s' = alice \<and> GetWithdrawCommit 3 s' = [9] \<and> GetNoWithdrawAcc 4 s' = []"
  using RegisterNoWithdraw_spec [OF demo_registered, of 3] RegisterNoWithdraw_spec [OF demo_registered, of 4] demo_registered
  by (auto simp: GetNoWithdrawAcc_def getb_def memGet_def)

text \<open>When the in-process verifier accepts, the period, the accumulator and the previous root are not compared with anything.\<close>

lemma in_process_inputs_not_compared:
  assumes "checkNamedStwo pf noWithdrawKind = Inr ()" "h_stwo h pf (embedded_inputs pf) = Inr ()"
  shows "VerifyNoWithdrawProof h pf period acc prev = Inr ()"
  using assms by (simp add: VerifyNoWithdrawProof_def)

text \<open>The commitment does not mark where the address ends.\<close>

lemma withdrawal_opening:
  "Open H (hashAddrSecret H addr secret) addr' secret' = Inr () \<longleftrightarrow>
     hashAddrSecret H addr' secret' = hashAddrSecret H addr secret"
  by (simp add: Open_def)

lemma open_other_split: "Open H (hashAddrSecret H (a @ b) c) a (b @ c) = Inr ()"
  by (simp add: Open_def hashAddrSecret_def)

end
