(* ===== verification/Lean_App.thy ===== *)
theory Lean_App
  imports Lean_Abci
begin

text \<open>
  The leanval module inside the application: the transaction decoder, ante and mempool hooks
  (\<open>x/leanval/txdecode.go\<close>, \<open>checktx.go\<close>, \<open>reap.go\<close>, \<open>ante/reject_sudo.go\<close>), the wrappers of the staking,
  distribution and slashing modules (\<open>staking_mod.go\<close>, \<open>staking_wrap.go\<close>, \<open>distr_wrap.go\<close>, \<open>slash_wrap.go\<close>,
  \<open>cons_lookup.go\<close>, \<open>keeper/fusion.go\<close>), the module hooks (\<open>module.go\<close>, \<open>keeper/sdk_wrap.go\<close>) and the block
  hooks of \<open>app/app.go\<close>. The Cosmos SDK and the other modules are parameters: an abstract state and the
  functions of the record \<open>hooks\<close>. The block hooks are composed into one block, blocks into a chain
  from genesis, and the chain is shown to keep the consensus engine and the application in step.
\<close>

subsection \<open>Transactions at the mempool\<close>

definition err_text :: "lean_error \<Rightarrow> string" where
  "err_text e =
    (case e of
       ErrSudoLeanVerifier \<Rightarrow> ''MsgSudoContract targeting Lean verifier is forbidden''
     | ErrSudoNotPermitted \<Rightarrow> ''only x/leanval may sudo the Lean verifier''
     | ErrMempoolLNPR \<Rightarrow> ''LNPR is proposer-inject only; CheckTx rejected''
     | ErrMempoolSSLE \<Rightarrow> ''SSLE is proposer-inject only; CheckTx rejected''
     | Errorf s \<Rightarrow> s
     | Panic s \<Rightarrow> s)"

datatype 'tx lean_tx = MembershipTx bytes | SdkTx 'tx

definition WrapTxDecoder :: "(bytes \<Rightarrow> lean_error + 'tx) \<Rightarrow> bytes \<Rightarrow> lean_error + 'tx lean_tx" where
  "WrapTxDecoder inner txBytes =
    (case RejectMempoolLNPR txBytes of
       Inl e \<Rightarrow> Inl e
     | Inr _ \<Rightarrow>
        (case RejectMempoolSSLE txBytes of
           Inl e \<Rightarrow> Inl e
         | Inr _ \<Rightarrow>
            if IsMembershipTx txBytes then
              (case DecodeJoin txBytes of
                 Some j \<Rightarrow> (case ValidateJoin j of Inl e \<Rightarrow> Inl e | Inr _ \<Rightarrow> Inr (MembershipTx txBytes))
               | None \<Rightarrow>
                  (case DecodeLeave txBytes of
                     Some l \<Rightarrow> (case ValidateLeave l of Inl e \<Rightarrow> Inl e | Inr _ \<Rightarrow> Inr (MembershipTx txBytes))
                   | None \<Rightarrow> Inl ErrMempoolLNPR))
            else map_sum id SdkTx (inner txBytes)))"

definition WrapAnte :: "('c \<Rightarrow> 'tx \<Rightarrow> bool \<Rightarrow> lean_error + 'c) option \<Rightarrow> 'c \<Rightarrow> 'tx lean_tx \<Rightarrow> bool \<Rightarrow> lean_error + 'c" where
  "WrapAnte inner ctx tx simulate =
    (case tx of
       MembershipTx _ \<Rightarrow> Inr ctx
     | SdkTx t \<Rightarrow> (case inner of None \<Rightarrow> Inr ctx | Some f \<Rightarrow> f ctx t simulate))"

record ResponseCheckTx =
  rc_Code :: u32
  rc_GasWanted :: i64
  rc_GasUsed :: i64
  rc_Log :: string
  rc_Data :: bytes

text \<open>\<open>runTx\<close> of the SDK: the gas wanted and used, and the error or the result (nil or log and data).\<close>

type_synonym RunTx = "bytes \<Rightarrow> (i64 \<times> i64) \<times> (lean_error + (string \<times> bytes) option)"

definition CheckTx :: "(lean_error \<Rightarrow> i64 \<Rightarrow> i64 \<Rightarrow> ResponseCheckTx) \<Rightarrow> RunTx \<Rightarrow> bytes \<Rightarrow> ResponseCheckTx" where
  "CheckTx errResponse runTx tx =
    (if IsMembershipTx tx then
       (case DecodeJoin tx of
          Some j \<Rightarrow>
           (case ValidateJoin j of
              Inl e \<Rightarrow> \<lparr>rc_Code = 1, rc_GasWanted = 0, rc_GasUsed = 0, rc_Log = err_text e, rc_Data = []\<rparr>
            | Inr _ \<Rightarrow> \<lparr>rc_Code = 0, rc_GasWanted = 0, rc_GasUsed = 0, rc_Log = [], rc_Data = []\<rparr>)
        | None \<Rightarrow>
           (case DecodeLeave tx of
              Some l \<Rightarrow>
               (case ValidateLeave l of
                  Inl e \<Rightarrow> \<lparr>rc_Code = 1, rc_GasWanted = 0, rc_GasUsed = 0, rc_Log = err_text e, rc_Data = []\<rparr>
                | Inr _ \<Rightarrow> \<lparr>rc_Code = 0, rc_GasWanted = 0, rc_GasUsed = 0, rc_Log = [], rc_Data = []\<rparr>)
            | None \<Rightarrow> \<lparr>rc_Code = 1, rc_GasWanted = 0, rc_GasUsed = 0,
                       rc_Log = ''leanval: bad membership tx'', rc_Data = []\<rparr>))
     else
       let ((wanted, used), r) = runTx tx in
         case r of
           Inl e \<Rightarrow> errResponse e wanted used
         | Inr None \<Rightarrow> \<lparr>rc_Code = 0, rc_GasWanted = wanted, rc_GasUsed = used, rc_Log = [], rc_Data = []\<rparr>
         | Inr (Some (log, data)) \<Rightarrow>
             \<lparr>rc_Code = 0, rc_GasWanted = wanted, rc_GasUsed = used, rc_Log = log, rc_Data = data\<rparr>)"

definition NewCheckTx ::
  "Host \<Rightarrow> (lean_error \<Rightarrow> i64 \<Rightarrow> i64 \<Rightarrow> ResponseCheckTx) \<Rightarrow> RunTx \<Rightarrow> bytes \<Rightarrow> Keeper \<Rightarrow> ResponseCheckTx \<times> Keeper" where
  "NewCheckTx h errResponse runTx tx k =
    (let resp = CheckTx errResponse runTx tx
     in (resp, if rc_Code resp = 0 then NoteMembershipTx (h_sha256 h) tx k else k))"

definition NewInsertTx :: "Host \<Rightarrow> bytes \<Rightarrow> Keeper \<Rightarrow> Keeper" where
  "NewInsertTx h tx k = NoteMembershipTx (h_sha256 h) tx k"

definition NewReapTxs :: "Keeper \<Rightarrow> bytes list" where
  "NewReapTxs k = PendingMembershipTxs k"

subsection \<open>The verifier contract is out of reach of transactions\<close>

datatype msg = MsgSudoContract string | OtherMsg

definition RejectLeanSudo :: "bytes \<Rightarrow> lean_error + unit" where
  "RejectLeanSudo contract = (if contract = TestLeanVerifierAcc then Inl ErrSudoLeanVerifier else Inr ())"

fun scan_sudo :: "(string \<Rightarrow> lean_error + bytes) \<Rightarrow> msg list \<Rightarrow> lean_error + unit" where
  "scan_sudo bech32 [] = Inr ()"
| "scan_sudo bech32 (OtherMsg # ms) = scan_sudo bech32 ms"
| "scan_sudo bech32 (MsgSudoContract c # ms) =
    (if c = [] then scan_sudo bech32 ms
     else case bech32 c of
       Inl _ \<Rightarrow> Inl ErrSudoNotPermitted
     | Inr addr \<Rightarrow> (case RejectLeanSudo addr of Inl e \<Rightarrow> Inl e | Inr _ \<Rightarrow> scan_sudo bech32 ms))"

definition Decorator_AnteHandle ::
  "(string \<Rightarrow> lean_error + bytes) \<Rightarrow> ('c \<Rightarrow> msg list \<Rightarrow> bool \<Rightarrow> lean_error + 'c) \<Rightarrow> 'c \<Rightarrow> msg list \<Rightarrow> bool \<Rightarrow> lean_error + 'c" where
  "Decorator_AnteHandle bech32 next_handler ctx msgs simulate =
    (case scan_sudo bech32 msgs of Inl e \<Rightarrow> Inl e | Inr _ \<Rightarrow> next_handler ctx msgs simulate)"

subsection \<open>Rewards and slashing\<close>

definition BlockIDFlagCommit :: int where "BlockIDFlagCommit = 2"

record CometVote =
  cv_Address :: bytes
  cv_Power :: i64
  cv_Flag :: int

definition consAddrFromSubject :: "(bytes \<Rightarrow> bytes) \<Rightarrow> bytes \<Rightarrow> bytes" where
  "consAddrFromSubject addr pub = (if length pub = 0 then [] else addr pub)"

definition bonded_vote :: "(bytes \<Rightarrow> bytes) \<Rightarrow> SubjectPower \<Rightarrow> CometVote option" where
  "bonded_vote addr r =
    (if sint (pw_Weight r) \<le> 0 \<or> \<not> pw_HasProof r then None
     else let a = consAddrFromSubject addr (pw_Subject r) in
       if length a = 0 then None
       else Some \<lparr>cv_Address = a, cv_Power = pw_Weight r, cv_Flag = BlockIDFlagCommit\<rparr>)"

definition VoteInfosFromBondedSet :: "(bytes \<Rightarrow> bytes) \<Rightarrow> SubjectPower list \<Rightarrow> CometVote list \<times> i64" where
  "VoteInfosFromBondedSet addr rows =
    (let votes = List.map_filter (bonded_vote addr) rows
     in (votes, fold (\<lambda>v t. t + cv_Power v) votes 0))"

type_synonym 'd allocator = "i64 \<Rightarrow> CometVote list \<Rightarrow> 'd \<Rightarrow> (lean_error + unit) \<times> 'd"

definition AllocateDelegatorFees :: "CometVote list \<Rightarrow> 'd allocator option \<Rightarrow> 'd \<Rightarrow> (lean_error + unit) \<times> 'd" where
  "AllocateDelegatorFees votes alloc s =
    (case alloc of
       None \<Rightarrow> (Inr (), s)
     | Some f \<Rightarrow>
         if length votes = 0 then (Inr (), s)
         else let out = filter (\<lambda>v. cv_Flag v = BlockIDFlagCommit) votes;
                  tot = fold (\<lambda>v t. t + cv_Power v) out 0
              in if length out = 0 then (Inr (), s) else f tot out s)"

text \<open>\<open>ValidatorByConsAddr\<close> of the staking module, as the test that it finds the address.\<close>

type_synonym 'd lookup = "'d \<Rightarrow> bytes \<Rightarrow> bool"

definition skipUnknownAlloc :: "'d allocator option \<Rightarrow> 'd lookup option \<Rightarrow> 'd allocator" where
  "skipUnknownAlloc inner cons _ votes s =
    (case inner of
       None \<Rightarrow> (Inr (), s)
     | Some f \<Rightarrow>
         let kept = filter (\<lambda>v. case cons of None \<Rightarrow> True | Some known \<Rightarrow> known s (cv_Address v)) votes
         in f (fold (\<lambda>v t. t + cv_Power v) kept 0) kept s)"

definition DistrAppModule_BeginBlock ::
  "('d \<Rightarrow> (lean_error + unit) \<times> 'd) \<Rightarrow> 'd allocator option \<Rightarrow> 'd lookup option \<Rightarrow> CometVote list \<Rightarrow> store \<Rightarrow>
   Keeper option \<Rightarrow> 'd \<Rightarrow> ((lean_error + unit) \<times> 'd) \<times> Keeper option" where
  "DistrAppModule_BeginBlock stock alloc cons votes ctx_store lean s =
    (case lean of
       None \<Rightarrow> (stock s, None)
     | Some k \<Rightarrow>
         if \<not> OwnsValset k then (stock s, Some k)
         else let k = BindContext ctx_store k;
                  alloc = (case cons of None \<Rightarrow> alloc | Some _ \<Rightarrow> Some (skipUnknownAlloc alloc cons))
              in (AllocateDelegatorFees votes alloc s, Some k))"

fun slash_votes ::
  "'d lookup \<Rightarrow> (bytes \<Rightarrow> i64 \<Rightarrow> int \<Rightarrow> 'd \<Rightarrow> (lean_error + unit) \<times> 'd) \<Rightarrow> CometVote list \<Rightarrow> 'd \<Rightarrow> (lean_error + unit) \<times> 'd" where
  "slash_votes known handle [] s = (Inr (), s)"
| "slash_votes known handle (v # vs) s =
    (if \<not> known s (cv_Address v) then slash_votes known handle vs s
     else case handle (cv_Address v) (cv_Power v) (cv_Flag v) s of
       (Inl e, s) \<Rightarrow> (Inl e, s)
     | (Inr _, s) \<Rightarrow> slash_votes known handle vs s)"

definition SlashAppModule_BeginBlock ::
  "('d \<Rightarrow> (lean_error + unit) \<times> 'd) \<Rightarrow> (bytes \<Rightarrow> i64 \<Rightarrow> int \<Rightarrow> 'd \<Rightarrow> (lean_error + unit) \<times> 'd) \<Rightarrow> 'd lookup option \<Rightarrow>
   CometVote list \<Rightarrow> Keeper option \<Rightarrow> 'd \<Rightarrow> (lean_error + unit) \<times> 'd" where
  "SlashAppModule_BeginBlock stock handle cons votes lean s =
    (case (lean, cons) of
       (Some k, Some known) \<Rightarrow> if \<not> OwnsValset k then stock s else slash_votes known handle votes s
     | _ \<Rightarrow> stock s)"

definition WrappedStaking_EndBlock ::
  "Keeper option \<Rightarrow> ValidatorUpdate list \<times> lean_error option \<Rightarrow> ValidatorUpdate list \<times> lean_error option" where
  "WrappedStaking_EndBlock lean r =
    (case lean of Some k \<Rightarrow> if OwnsValset k then ([], snd r) else r | None \<Rightarrow> r)"

definition WrapStakingEndBlock ::
  "Keeper option \<Rightarrow> (ValidatorUpdate list \<times> lean_error option) option \<Rightarrow> ValidatorUpdate list \<times> lean_error option" where
  "WrapStakingEndBlock lean staking =
    (case staking of
       None \<Rightarrow> ([], None)
     | Some r \<Rightarrow> (case lean of Some k \<Rightarrow> if OwnsValset k then ([], snd r) else r | None \<Rightarrow> r))"

subsection \<open>The application's block\<close>

definition SetEndPeriod :: "u64 \<Rightarrow> Keeper \<Rightarrow> Keeper" where
  "SetEndPeriod p k = k\<lparr>k_endPeriod := p\<rparr>"

definition SDKWrapPrepare ::
  "Host \<Rightarrow> store \<Rightarrow> (bytes list \<Rightarrow> lean_error + bytes list option) option \<Rightarrow> i64 \<Rightarrow> bytes \<Rightarrow> bytes list \<Rightarrow>
   Keeper \<Rightarrow> (lean_error + bytes list) \<times> Keeper" where
  "SDKWrapPrepare h ctx_store inner height proposer txs k =
     WrapPrepareProposal h inner height proposer txs (BindContext ctx_store k)"

definition SDKWrapProcess ::
  "Host \<Rightarrow> store \<Rightarrow> nat \<Rightarrow> (bytes list \<Rightarrow> lean_error + ProposalStatus) option \<Rightarrow> i64 \<Rightarrow> bytes list \<Rightarrow>
   Keeper \<Rightarrow> (lean_error + ProposalStatus) \<times> Keeper" where
  "SDKWrapProcess h ctx_store gas inner height txs k =
    (let k = (BindContext ctx_store k)\<lparr>k_gasUsed := Some gas\<rparr>;
         (r, k) = WrapProcessProposal h inner height txs k
     in (r, k\<lparr>k_gasUsed := None\<rparr>))"

text \<open>
  The hooks of \<open>app.go\<close>. The other modules are one state \<open>ta_rest\<close> and their hooks, run by the
  module manager in the order of \<open>modules.go\<close>, are parameters: those before and those after the
  module the hook is about. The leanval keeper reads and writes its own store of the same block.
\<close>

record 'r TerpApp =
  ta_lean :: Keeper
  ta_rest :: 'r

record 'r hooks =
  hk_voteExtension :: "bytes list \<Rightarrow> 'r \<Rightarrow> 'r"
  hk_preBlock :: "'r \<Rightarrow> (lean_error + unit) \<times> 'r"
  hk_beginBefore :: "'r \<Rightarrow> (lean_error + unit) \<times> 'r"
  hk_distr :: "'r \<Rightarrow> (lean_error + unit) \<times> 'r"
  hk_alloc :: "'r allocator"
  hk_known :: "'r lookup"
  hk_slash :: "'r \<Rightarrow> (lean_error + unit) \<times> 'r"
  hk_signature :: "bytes \<Rightarrow> i64 \<Rightarrow> int \<Rightarrow> 'r \<Rightarrow> (lean_error + unit) \<times> 'r"
  hk_beginAfter :: "'r \<Rightarrow> (lean_error + unit) \<times> 'r"
  hk_deliver :: "bytes list \<Rightarrow> 'r \<Rightarrow> 'r"
  hk_endBefore :: "'r \<Rightarrow> (lean_error + ValidatorUpdate list) \<times> 'r"
  hk_endAfter :: "ValidatorUpdate list \<Rightarrow> 'r \<Rightarrow> (lean_error + ValidatorUpdate list) \<times> 'r"
  hk_initBefore :: "'r \<Rightarrow> (lean_error + ValidatorUpdate list) \<times> 'r"
  hk_initAfter :: "ValidatorUpdate list \<Rightarrow> 'r \<Rightarrow> (lean_error + ValidatorUpdate list) \<times> 'r"

definition PreBlocker :: "Host \<Rightarrow> 'r hooks \<Rightarrow> bytes list \<Rightarrow> 'r TerpApp \<Rightarrow> (lean_error + unit) \<times> 'r TerpApp" where
  "PreBlocker h hk txs app =
    (let app = app\<lparr>ta_rest := hk_voteExtension hk txs (ta_rest app)\<rparr>
     in case ProcessInjectedLNPR h txs (BindContext (k_store (ta_lean app)) (ta_lean app)) of
          (Inl e, k) \<Rightarrow> (Inl e, app\<lparr>ta_lean := k\<rparr>)
        | (Inr _, k) \<Rightarrow>
            let (r, rest) = hk_preBlock hk (ta_rest app)
            in (r, app\<lparr>ta_lean := k, ta_rest := rest\<rparr>))"

definition BeginBlocker :: "'r hooks \<Rightarrow> CometVote list \<Rightarrow> 'r TerpApp \<Rightarrow> (lean_error + unit) \<times> 'r TerpApp" where
  "BeginBlocker hk votes app =
    (case hk_beginBefore hk (ta_rest app) of
       (Inl e, rest) \<Rightarrow> (Inl e, app\<lparr>ta_rest := rest\<rparr>)
     | (Inr _, rest) \<Rightarrow>
        (case DistrAppModule_BeginBlock (hk_distr hk) (Some (hk_alloc hk)) (Some (hk_known hk)) votes
                (k_store (ta_lean app)) (Some (ta_lean app)) rest of
           ((r, rest), lean) \<Rightarrow>
             let app = app\<lparr>ta_lean := the lean, ta_rest := rest\<rparr> in
             case r of
               Inl e \<Rightarrow> (Inl e, app)
             | Inr _ \<Rightarrow>
                (case SlashAppModule_BeginBlock (hk_slash hk) (hk_signature hk) (Some (hk_known hk)) votes
                        (Some (ta_lean app)) rest of
                   (Inl e, rest) \<Rightarrow> (Inl e, app\<lparr>ta_rest := rest\<rparr>)
                 | (Inr _, rest) \<Rightarrow>
                     let (r, rest) = hk_beginAfter hk rest in (r, app\<lparr>ta_rest := rest\<rparr>))))"

definition AppModule_EndBlock :: "i64 \<Rightarrow> store \<Rightarrow> Keeper \<Rightarrow> Keeper" where
  "AppModule_EndBlock height ctx_store k =
    (let k = BindContext ctx_store k in SetEndPeriod (PeriodFromHeight (k_live k) height) k)"

text \<open>\<open>mm.EndBlock\<close>: the leanval module comes after staking and before the rest.\<close>

definition mm_EndBlock :: "'r hooks \<Rightarrow> i64 \<Rightarrow> 'r TerpApp \<Rightarrow> (lean_error + ValidatorUpdate list) \<times> 'r TerpApp" where
  "mm_EndBlock hk height app =
    (case hk_endBefore hk (ta_rest app) of
       (Inl e, rest) \<Rightarrow> (Inl e, app\<lparr>ta_rest := rest\<rparr>)
     | (Inr ups, rest) \<Rightarrow>
         let k = AppModule_EndBlock height (k_store (ta_lean app)) (ta_lean app);
             (r, rest) = hk_endAfter hk ups rest
         in (r, app\<lparr>ta_lean := k, ta_rest := rest\<rparr>))"

definition EndBlocker :: "Host \<Rightarrow> 'r hooks \<Rightarrow> i64 \<Rightarrow> 'r TerpApp \<Rightarrow> (lean_error + ValidatorUpdate list) \<times> 'r TerpApp" where
  "EndBlocker h hk height app =
    (case mm_EndBlock hk height app of
       (Inl e, app) \<Rightarrow> (Inl e, app)
     | (Inr ups, app) \<Rightarrow>
        (case ApplyStagedLNPR h (BindContext (k_store (ta_lean app)) (ta_lean app)) of
           (Inl e, k) \<Rightarrow> (Inl e, app\<lparr>ta_lean := k\<rparr>)
         | (Inr _, k) \<Rightarrow>
             if OwnsValset k then
               let p = PeriodFromHeight (k_live k) height;
                   k = SetEndPeriod p k;
                   (ups, s) = ValidatorUpdates (h_sha256 h) p (k_store k)
               in (Inr ups, app\<lparr>ta_lean := k\<lparr>k_store := s\<rparr>\<rparr>)
             else (Inr ups, app\<lparr>ta_lean := k\<rparr>)))"

text \<open>The module's genesis, from the parsed JSON on; an empty section is the zero value.\<close>

definition AppModule_InitGenesis :: "(bytes \<Rightarrow> bytes) \<Rightarrow> GenesisState \<Rightarrow> store \<Rightarrow> Keeper \<Rightarrow> lean_error + Keeper" where
  "AppModule_InitGenesis H gs ctx_store k = InitGenesis H gs (BindContext ctx_store k)"

definition AppModule_ExportGenesis :: "store \<Rightarrow> Keeper option \<Rightarrow> GenesisState" where
  "AppModule_ExportGenesis ctx_store k =
    (case k of None \<Rightarrow> DefaultGenesis | Some k \<Rightarrow> ExportGenesis (BindContext ctx_store k))"

definition InitChainer ::
  "Host \<Rightarrow> 'r hooks \<Rightarrow> GenesisState \<Rightarrow> 'r TerpApp \<Rightarrow> (lean_error + ValidatorUpdate list) \<times> 'r TerpApp" where
  "InitChainer h hk gs app =
    (case hk_initBefore hk (ta_rest app) of
       (Inl e, rest) \<Rightarrow> (Inl e, app\<lparr>ta_rest := rest\<rparr>)
     | (Inr vals, rest) \<Rightarrow>
        (case AppModule_InitGenesis (h_sha256 h) gs (k_store (ta_lean app)) (ta_lean app) of
           Inl e \<Rightarrow> (Inl e, app\<lparr>ta_rest := rest\<rparr>)
         | Inr k \<Rightarrow>
            (case hk_initAfter hk vals rest of
               (Inl e, rest) \<Rightarrow> (Inl e, app\<lparr>ta_lean := k, ta_rest := rest\<rparr>)
             | (Inr vals, rest) \<Rightarrow>
                 let k = BindContext (k_store k) k;
                     app = app\<lparr>ta_lean := k, ta_rest := rest\<rparr>
                 in if OwnsValset k
                    then let (ups, s) = ValidatorUpdates (h_sha256 h) 0 (k_store k)
                         in (Inr ups, app\<lparr>ta_lean := k\<lparr>k_store := s\<rparr>\<rparr>)
                    else (Inr vals, app))))"

text \<open>A block as the ABCI server runs it: the hooks around the transactions, which reach the lean store only through the hooks.\<close>

definition FinalizeBlock ::
  "Host \<Rightarrow> 'r hooks \<Rightarrow> i64 \<Rightarrow> CometVote list \<Rightarrow> bytes list \<Rightarrow> 'r TerpApp \<Rightarrow> (lean_error + ValidatorUpdate list) \<times> 'r TerpApp" where
  "FinalizeBlock h hk height votes txs app =
    (case PreBlocker h hk txs app of
       (Inl e, app) \<Rightarrow> (Inl e, app)
     | (Inr _, app) \<Rightarrow>
        (case BeginBlocker hk votes app of
           (Inl e, app) \<Rightarrow> (Inl e, app)
         | (Inr _, app) \<Rightarrow> EndBlocker h hk height (app\<lparr>ta_rest := hk_deliver hk txs (ta_rest app)\<rparr>)))"

subsection \<open>What a block leaves alone\<close>

definition setting_key :: "bytes \<Rightarrow> bool" where
  "setting_key key \<longleftrightarrow> key \<noteq> [] \<and> hd key \<in> {LastUpdatesPrefix, OwnsValsetPrefix, PeriodParamPrefix}"

definition same_settings :: "store \<Rightarrow> store \<Rightarrow> bool" where
  "same_settings s t \<longleftrightarrow> (\<forall>key. setting_key key \<longrightarrow> memGet s key = memGet t key)"

lemma setting_key_simps [key_simps]:
  "setting_key (LastPowerKey x)" "setting_key OwnsValsetKey" "setting_key PeriodParamKey"
  by (simp_all add: setting_key_def key_defs prefix_defs)

lemma setting_key_other:
  assumes "setting_key key"
  shows "\<not> roster_key key" "key \<noteq> ObjectRootsKey" "key \<noteq> BondedKey p x" "key \<noteq> PendingJoinKey p x" "key \<noteq> PendingLeaveKey p x"
  using assms by (auto simp: setting_key_def roster_key_def key_defs prefix_defs)

lemma same_settings_refl [simp]: "same_settings s s"
  by (simp add: same_settings_def)

lemma same_settings_trans: "same_settings s t \<Longrightarrow> same_settings t u \<Longrightarrow> same_settings s u"
  by (simp add: same_settings_def)

lemma same_settings_reads:
  assumes "same_settings s t"
  shows "lastPower s = lastPower t" "getb s OwnsValsetKey = getb t OwnsValsetKey" "getb s PeriodParamKey = getb t PeriodParamKey"
  using assms by (auto simp: same_settings_def lastPower_def getb_def key_simps fun_eq_iff)

lemma settings_set [frame_simps]:
  "same_settings (memSet (BondedKey p x) v s) t = same_settings s t"
  "same_settings (memSet (PendingJoinKey p x) v s) t = same_settings s t"
  "same_settings (memSet (PendingLeaveKey p x) v s) t = same_settings s t"
  "same_settings (memSet ObjectRootsKey v s) t = same_settings s t"
  "same_settings (memDelete (BondedKey p x) s) t = same_settings s t"
  "same_settings (memDelete (PendingJoinKey p x) s) t = same_settings s t"
  "roster_key key \<Longrightarrow> same_settings (memSet key v s) t = same_settings s t"
  by (auto simp: same_settings_def setting_key_other dest: setting_key_other)

lemma settings_ops [frame_simps]:
  "same_settings (snd (admitMember H x w s)) s" "same_settings (AcceptProof H p x w s) s"
  "same_settings (syncObjectRoots H s) s"
  "ApplyLeave H b s = Inr s' \<Longrightarrow> same_settings s' s"
proof -
  show a: "same_settings (snd (admitMember H x w s)) s" for s
    by (simp add: same_settings_def admitMember_other setting_key_other)
  show "same_settings (AcceptProof H p x w s) s"
    using a [of "memSet (BondedKey p x) (encodeRec True w) s"] by (simp add: AcceptProof_def same_settings_def setting_key_other)
  show "same_settings (syncObjectRoots H s) s" by (simp add: syncObjectRoots_eq frame_simps)
  show "ApplyLeave H b s = Inr s' \<Longrightarrow> same_settings s' s"
    by (auto simp: ApplyLeave_def Let_def SetEB_def BitClear_def setBitfield_def syncObjectRoots_eq frame_simps
        roster_key_simps split: sum.splits option.splits)
qed

lemma settings_applySubject: "same_settings (k_store (applySubject h p s k)) (k_store k)"
  by (auto simp: applySubject_def Let_def forgetMembershipSubject_def forgetMembershipJoin_def forgetMembership_def frame_simps
      split: sum.split)

definition same_node :: "Keeper \<Rightarrow> Keeper \<Rightarrow> bool" where
  "same_node k' k \<longleftrightarrow> k_hasKey k' = k_hasKey k \<and> k_ownsValset k' = k_ownsValset k \<and> k_AllowDummy k' = k_AllowDummy k"

lemma same_node_refl [simp]: "same_node k k"
  by (simp add: same_node_def)

lemma applySubject_fields:
  "same_node (applySubject h p s k) k" "k_pendingLNPR (applySubject h p s k) = k_pendingLNPR k"
  by (simp_all add: same_node_def applySubject_def Let_def forgetMembershipSubject_def forgetMembershipJoin_def forgetMembership_def)

lemma fold_applySubject:
  "same_node (fold (applySubject h p) ss k) k \<and> k_pendingLNPR (fold (applySubject h p) ss k) = k_pendingLNPR k \<and>
   same_settings (k_store (fold (applySubject h p) ss k)) (k_store k)"
proof (induction ss arbitrary: k)
  case (Cons s ss)
  let ?k = "applySubject h p s k"
  have "same_settings (k_store (fold (applySubject h p) ss ?k)) (k_store k)"
    by (rule same_settings_trans [OF _ settings_applySubject]) (use Cons [of ?k] in blast)
  then show ?case using Cons [of ?k] applySubject_fields [of h p s k] by (simp add: same_node_def)
qed simp

lemma verifyLNPR_fields:
  assumes "verifyLNPR h skip blob k = (r, k')"
  shows "same_node k' k \<and> k_pendingLNPR k' = k_pendingLNPR k"
  using assms
  by (auto simp: verifyLNPR_def Let_def same_node_def split: sum.splits option.splits if_splits prod.splits)

lemma ApplyLNPR_accepted:
  assumes inv: "roster_inv (k_store k)" and live: "DebugSubjectsFromBits (k_store k) \<noteq> []"
    and room: "unat (nextDepositIndex (k_store k)) + length (lb_Subjects blob) < 2 ^ 32"
    and A: "ApplyLNPR h blob k = (Inr u, k')"
  shows "roster_inv (k_store k')" "synced (h_sha256 h) (k_store k')"
    "roster (k_store k') = fold spec_apply (lb_Subjects blob) (roster (k_store k))"
    "same_settings (k_store k') (k_store k)" "same_node k' k" "k_pendingLNPR k' = k_pendingLNPR k"
proof -
  obtain v k1 where V: "VerifyLNPR h blob k = (v, k1)" by fastforce
  note V' = V [unfolded VerifyLNPR_def]
  have s1: "k_store k1 = k_store k" by (rule verifyLNPR_store [OF live V'])
  let ?k2 = "fold (applySubject h (lb_Period blob)) (lb_Subjects blob) k1"
  have k': "k' = ?k2\<lparr>k_store := syncObjectRoots (h_sha256 h) (k_store ?k2)\<rparr>"
    using A V by (auto simp: ApplyLNPR_def Let_def split: sum.splits)
  have "roster_inv (k_store k1)" "unat (nextDepositIndex (k_store k1)) + length (lb_Subjects blob) < 2 ^ 32"
    using inv room s1 by simp_all
  note F = apply_subjects_refine [OF this, of h "lb_Period blob"]
  show "roster_inv (k_store k')" "synced (h_sha256 h) (k_store k')"
    "roster (k_store k') = fold spec_apply (lb_Subjects blob) (roster (k_store k))"
    using F sync_roster s1 by (simp_all add: k')
  note G = fold_applySubject [of h "lb_Period blob" "lb_Subjects blob" k1]
  have "same_settings (k_store ?k2) (k_store k)" using G s1 by simp
  then show "same_settings (k_store k') (k_store k)"
    using same_settings_trans [OF settings_ops(3)] by (simp add: k')
  show "same_node k' k" "k_pendingLNPR k' = k_pendingLNPR k"
    using G verifyLNPR_fields [OF V'] by (simp_all add: k' same_node_def)
qed

subsection \<open>One block\<close>

text \<open>The roster changes a block asks for, and when they can be made.\<close>

definition block_subjects :: "bytes list \<Rightarrow> SubjectProof list" where
  "block_subjects txs = (case FindLNPR txs of None \<Rightarrow> [] | Some (blob, _) \<Rightarrow> lb_Subjects blob)"

definition block_room :: "bytes list \<Rightarrow> store \<Rightarrow> bool" where
  "block_room txs s \<longleftrightarrow> DebugSubjectsFromBits s \<noteq> [] \<and> unat (nextDepositIndex s) + length (block_subjects txs) < 2 ^ 32"

text \<open>The keeper of a node between two blocks.\<close>

definition idle :: "Keeper \<Rightarrow> bool" where
  "idle k \<longleftrightarrow> k_hasKey k \<and> k_pendingLNPR k = None \<and> roster_inv (k_store k)"

lemma BindContext_self:
  "k_store (BindContext (k_store k) k) = k_store k" "k_pendingLNPR (BindContext s k) = k_pendingLNPR k"
  "same_node (BindContext s k) k" "k_hasKey (BindContext s k) = k_hasKey k"
  by (auto simp: BindContext_def Let_def same_node_def)

lemma OwnsValset_cong:
  "same_settings (k_store k') (k_store k) \<Longrightarrow> same_node k' k \<Longrightarrow> OwnsValset k' = OwnsValset k"
  by (simp add: OwnsValset_def same_node_def same_settings_reads(2) Let_def)

lemma PreBlocker_stages:
  assumes k: "k_hasKey (ta_lean app)" "k_pendingLNPR (ta_lean app) = None" and live: "DebugSubjectsFromBits (k_store (ta_lean app)) \<noteq> []"
    and P: "PreBlocker h hk txs app = (r, app')"
  shows "k_store (ta_lean app') = k_store (ta_lean app)" "same_node (ta_lean app') (ta_lean app)"
    "r = Inr u \<Longrightarrow> k_pendingLNPR (ta_lean app') = map_option fst (FindLNPR txs)"
proof -
  let ?k = "BindContext (k_store (ta_lean app)) (ta_lean app)"
  obtain v k1 where I: "ProcessInjectedLNPR h txs ?k = (v, k1)" by fastforce
  have t: "ta_lean app' = k1" "r = Inr u \<Longrightarrow> \<exists>u. v = Inr u"
    using P I by (auto simp: PreBlocker_def Let_def split: sum.splits prod.splits)
  have "k_store k1 = k_store (ta_lean app) \<and> same_node k1 (ta_lean app) \<and>
      ((\<exists>u. v = Inr u) \<longrightarrow> k_pendingLNPR k1 = map_option fst (FindLNPR txs))"
  proof (cases "FindLNPR txs")
    case None
    then show ?thesis using I k by (auto simp: ProcessInjectedLNPR_def BindContext_self split: if_splits)
  next
    case (Some bi)
    obtain blob i where bi: "bi = (blob, i)" by fastforce
    obtain v2 k2 where V: "VerifyLNPR h blob ?k = (v2, k2)" by fastforce
    note V' = V [unfolded VerifyLNPR_def]
    have "k_store k2 = k_store (ta_lean app)" using verifyLNPR_store [OF _ V'] live by (simp add: BindContext_self)
    moreover have "same_node k2 (ta_lean app)"
      using verifyLNPR_fields [OF V'] BindContext_self(3) [of "k_store (ta_lean app)" "ta_lean app"] by (simp add: same_node_def)
    ultimately show ?thesis
      using I V Some k by (auto simp: bi ProcessInjectedLNPR_def Let_def same_node_def split: sum.splits)
  qed
  then show "k_store (ta_lean app') = k_store (ta_lean app)" "same_node (ta_lean app') (ta_lean app)"
    "r = Inr u \<Longrightarrow> k_pendingLNPR (ta_lean app') = map_option fst (FindLNPR txs)"
    using t by auto
qed

lemma BeginBlocker_lean:
  assumes "BeginBlocker hk votes app = (r, app')"
  shows "k_store (ta_lean app') = k_store (ta_lean app) \<and> same_node (ta_lean app') (ta_lean app) \<and>
    k_pendingLNPR (ta_lean app') = k_pendingLNPR (ta_lean app)"
  using assms
  by (auto simp: BeginBlocker_def DistrAppModule_BeginBlock_def Let_def BindContext_self split: sum.splits prod.splits if_splits)

lemma mm_EndBlock_lean:
  assumes "mm_EndBlock hk height app = (r, app')"
  shows "k_store (ta_lean app') = k_store (ta_lean app) \<and> same_node (ta_lean app') (ta_lean app) \<and>
    k_pendingLNPR (ta_lean app') = k_pendingLNPR (ta_lean app)"
  using assms
  by (auto simp: mm_EndBlock_def AppModule_EndBlock_def SetEndPeriod_def same_node_def BindContext_self
      BindContext_self(3) [unfolded same_node_def] Let_def split: sum.splits prod.splits)

lemma ApplyStaged_accepted:
  assumes inv: "roster_inv (k_store k)" and st: "k_pendingLNPR k = map_option fst (FindLNPR txs)"
    and room: "block_room txs (k_store k)" and A: "ApplyStagedLNPR h k = (Inr u, k')"
  shows "roster_inv (k_store k')" "roster (k_store k') = fold spec_apply (block_subjects txs) (roster (k_store k))"
    "same_settings (k_store k') (k_store k)" "same_node k' k" "k_pendingLNPR k' = None"
    "synced (h_sha256 h) (k_store k) \<Longrightarrow> synced (h_sha256 h) (k_store k')"
proof -
  have "roster_inv (k_store k') \<and> roster (k_store k') = fold spec_apply (block_subjects txs) (roster (k_store k)) \<and>
    same_settings (k_store k') (k_store k) \<and> same_node k' k \<and> k_pendingLNPR k' = None \<and>
    (synced (h_sha256 h) (k_store k) \<longrightarrow> synced (h_sha256 h) (k_store k'))"
  proof (cases "FindLNPR txs")
    case None
    then show ?thesis using A st inv by (auto simp: ApplyStagedLNPR_def block_subjects_def)
  next
    case (Some bi)
    obtain blob i where bi: "bi = (blob, i)" by fastforce
    let ?k = "k\<lparr>k_pendingLNPR := None\<rparr>"
    have "ApplyLNPR h blob ?k = (Inr u, k')" using A st Some by (simp add: bi ApplyStagedLNPR_def)
    moreover have "roster_inv (k_store ?k)" "DebugSubjectsFromBits (k_store ?k) \<noteq> []"
      "unat (nextDepositIndex (k_store ?k)) + length (lb_Subjects blob) < 2 ^ 32"
      using inv room Some by (simp_all add: bi block_room_def block_subjects_def)
    ultimately show ?thesis
      using ApplyLNPR_accepted [of ?k blob h u k'] Some by (simp add: bi block_subjects_def same_node_def)
  qed
  then show "roster_inv (k_store k')" "roster (k_store k') = fold spec_apply (block_subjects txs) (roster (k_store k))"
    "same_settings (k_store k') (k_store k)" "same_node k' k" "k_pendingLNPR k' = None"
    "synced (h_sha256 h) (k_store k) \<Longrightarrow> synced (h_sha256 h) (k_store k')" by blast+
qed

text \<open>What a block that succeeds does: the store in which the updates are computed.\<close>

lemma FinalizeBlock_accepted:
  assumes idle: "idle (ta_lean app)" and room: "block_room txs (k_store (ta_lean app))"
    and F: "FinalizeBlock h hk height votes txs app = (Inr ups, app')"
  obtains p s where "roster_inv s" "roster s = fold spec_apply (block_subjects txs) (roster (k_store (ta_lean app)))"
    "same_settings s (k_store (ta_lean app))" "same_node (ta_lean app') (ta_lean app)" "k_pendingLNPR (ta_lean app') = None"
    "synced (h_sha256 h) (k_store (ta_lean app)) \<Longrightarrow> synced (h_sha256 h) s"
    "if OwnsValset (ta_lean app) then ValidatorUpdates (h_sha256 h) p s = (ups, k_store (ta_lean app'))
     else k_store (ta_lean app') = s"
proof -
  let ?k0 = "ta_lean app"
  obtain u1 a1 where P: "PreBlocker h hk txs app = (Inr u1, a1)"
    using F by (auto simp: FinalizeBlock_def split: sum.splits prod.splits)
  obtain u2 a2 where B: "BeginBlocker hk votes a1 = (Inr u2, a2)"
    using F P by (auto simp: FinalizeBlock_def split: sum.splits prod.splits)
  let ?a3 = "a2\<lparr>ta_rest := hk_deliver hk txs (ta_rest a2)\<rparr>"
  have E: "EndBlocker h hk height ?a3 = (Inr ups, app')" using F P B by (simp add: FinalizeBlock_def)
  obtain ups4 a4 where M: "mm_EndBlock hk height ?a3 = (Inr ups4, a4)"
    using E by (auto simp: EndBlocker_def split: sum.splits prod.splits)
  let ?k4 = "BindContext (k_store (ta_lean a4)) (ta_lean a4)"
  obtain u5 k5 where A: "ApplyStagedLNPR h ?k4 = (Inr u5, k5)"
    using E M by (auto simp: EndBlocker_def split: sum.splits prod.splits)
  have k0: "k_hasKey ?k0" "k_pendingLNPR ?k0 = None" "roster_inv (k_store ?k0)" "DebugSubjectsFromBits (k_store ?k0) \<noteq> []"
    using idle room by (simp_all add: idle_def block_room_def)
  note S = PreBlocker_stages [OF k0(1,2,4) P] BeginBlocker_lean [OF B] mm_EndBlock_lean [OF M]
  have "k_store ?k4 = k_store (ta_lean a4)" by (rule BindContext_self(1))
  then have k4: "k_store ?k4 = k_store ?k0" using S(1,4,5) by (elim conjE) simp
  have k4': "same_node ?k4 ?k0" "k_pendingLNPR ?k4 = map_option fst (FindLNPR txs)"
    using S BindContext_self(3) [of "k_store (ta_lean a4)" "ta_lean a4"] by (simp_all add: BindContext_self(2,4) same_node_def)
  have "roster_inv (k_store ?k4)" "block_room txs (k_store ?k4)" using k0 room by (simp_all only: k4)
  note R = ApplyStaged_accepted [OF this(1) k4'(2) this(2) A]
  have node: "same_node k5 ?k0" using R(4) k4'(1) by (simp add: same_node_def)
  have own: "OwnsValset k5 = OwnsValset ?k0" using OwnsValset_cong node R(3) by (simp only: k4)
  have app': "ta_lean app' = (if OwnsValset k5 then (SetEndPeriod (PeriodFromHeight (k_live k5) height) k5)
       \<lparr>k_store := snd (ValidatorUpdates (h_sha256 h) (PeriodFromHeight (k_live k5) height) (k_store k5))\<rparr> else k5)"
    "OwnsValset k5 \<Longrightarrow> ups = fst (ValidatorUpdates (h_sha256 h) (PeriodFromHeight (k_live k5) height) (k_store k5))"
    using E M A by (auto simp: EndBlocker_def Let_def SetEndPeriod_def split: prod.splits if_splits)
  show thesis
  proof (rule that [of "k_store k5" "PeriodFromHeight (k_live k5) height"])
    show "same_node (ta_lean app') ?k0" using node by (simp add: app' same_node_def SetEndPeriod_def)
    show "k_pendingLNPR (ta_lean app') = None" using R(5) by (simp add: app' SetEndPeriod_def)
  qed (use R [unfolded k4] own app' in \<open>simp_all add: SetEndPeriod_def\<close>)
qed

subsection \<open>Genesis\<close>

definition spec_seed :: "GenesisSubject \<Rightarrow> member list \<Rightarrow> member list" where
  "spec_seed g ms =
    (if gs_PubKey g = [] \<or> sint (gs_Weight g) \<le> 0 then ms else spec_admit (gs_PubKey g) (gs_Weight g) ms)"

lemma length_spec_seed: "length (spec_seed g ms) \<le> Suc (length ms)" "length ms \<le> length (spec_seed g ms)"
  by (simp_all add: spec_seed_def spec_admit_def spec_enrol_def Let_def)

lemma seed_refines:
  assumes inv: "roster_inv s" and room: "unat (nextDepositIndex s) < 2 ^ 32 - 1"
  shows "roster_inv (seed_subject H g s) \<and> roster (seed_subject H g s) = spec_seed g (roster s) \<and>
    same_settings (seed_subject H g s) s"
proof -
  have hr: "has_room s (gs_PubKey g)" using room by (simp add: has_room_def)
  have sr: "same_roster (PutSubject 0 x w s) s" "store_ok (PutSubject 0 x w s)" "same_settings (PutSubject 0 x w s) s" for x w
    using roster_invD(1) [OF inv] by (simp_all add: PutSubject_def frame_simps key_simps)
  show ?thesis
    using AcceptProof_spec [OF inv _ hr] roster_inv_same [OF inv sr(1,2)] roster_same [OF inv sr(1,2)] inv sr(3)
    by (simp add: seed_subject_def spec_seed_def frame_simps)
qed

lemma seeds_refine:
  "roster_inv s \<Longrightarrow> unat (nextDepositIndex s) + length gs < 2 ^ 32 \<Longrightarrow>
   roster_inv (fold (seed_subject H) gs s) \<and> roster (fold (seed_subject H) gs s) = fold spec_seed gs (roster s) \<and>
   same_settings (fold (seed_subject H) gs s) s"
proof (induction gs arbitrary: s)
  case (Cons g gs)
  have A: "roster_inv (seed_subject H g s) \<and> roster (seed_subject H g s) = spec_seed g (roster s) \<and>
    same_settings (seed_subject H g s) s"
    using Cons.prems by (intro seed_refines) auto
  then have "unat (nextDepositIndex (seed_subject H g s)) \<le> Suc (unat (nextDepositIndex s))"
    using length_spec_seed(1) [of g "roster s"] by (metis length_roster)
  then show ?case using Cons.IH [of "seed_subject H g s"] A Cons.prems(2) same_settings_trans by fastforce
qed simp

lemma seeds_grow: "length ms \<le> length (fold spec_seed gs ms)"
  by (induction gs arbitrary: ms) (auto intro: order_trans [OF length_spec_seed(2)])

lemma seeds_nonempty:
  "g \<in> set gs \<Longrightarrow> gs_PubKey g \<noteq> [] \<Longrightarrow> sint (gs_Weight g) > 0 \<Longrightarrow> fold spec_seed gs ms \<noteq> []"
proof (induction gs arbitrary: ms)
  case (Cons a gs)
  show ?case
  proof (cases "a = g")
    case True
    then have "spec_seed a ms \<noteq> []"
      using Cons.prems by (auto simp: spec_seed_def spec_admit_def spec_enrol_def on_member_def Let_def)
    then show ?thesis using seeds_grow [of "spec_seed a ms" gs] by (cases "fold spec_seed gs (spec_seed a ms)") auto
  next
    case False
    then show ?thesis using Cons by auto
  qed
qed simp

text \<open>A node before genesis: nothing stored yet.\<close>

definition fresh_node :: "Keeper \<Rightarrow> bool" where
  "fresh_node k \<longleftrightarrow> k_store k = NewMemStore \<and> k_hasKey k \<and> k_pendingLNPR k = None"

definition seeds_some :: "GenesisState \<Rightarrow> bool" where
  "seeds_some gs \<longleftrightarrow> gn_OwnsValset gs \<and> length (gn_GenesisSubjects gs) < 2 ^ 32 \<and>
     list_ex (\<lambda>g. gs_PubKey g \<noteq> [] \<and> sint (gs_Weight g) > 0) (gn_GenesisSubjects gs)"

lemma bits_live_roster: "roster s \<noteq> [] \<Longrightarrow> bits_live s"
  unfolding bits_live_def using length_roster [of s] by (metis length_0_conv unat_eq_0 word_neq_0_conv)

lemma InitGenesis_seeds:
  assumes fresh: "fresh_node k" and gs: "seeds_some gs" and I: "InitGenesis H gs (BindContext (k_store k) k) = Inr k'"
  shows "roster_inv (k_store k')" "roster (k_store k') = fold spec_seed (gn_GenesisSubjects gs) []"
    "synced H (k_store k')" "lastPower (k_store k') = (\<lambda>_. 0)" "OwnsValset k'" "k_hasKey k'" "k_pendingLNPR k' = None"
    "roster (k_store k') \<noteq> []"
proof -
  let ?n = "if sint (gn_BlocksPerPeriod gs) \<le> 0 then BlocksPerPeriod else gn_BlocksPerPeriod gs"
  let ?s0 = "memSet OwnsValsetKey [1] (memSet PeriodParamKey (PutI64 ?n) NewMemStore)"
  let ?s1 = "fold (seed_subject H) (gn_GenesisSubjects gs) ?s0"
  define kb where "kb = BindContext (k_store k) k"
  have kb: "k_store kb = NewMemStore" "k_hasKey kb" "k_pendingLNPR kb = None"
    using fresh BindContext_self(1) [of k] by (simp_all add: kb_def fresh_node_def BindContext_self(2,4))
  have "Inr k' = InitGenesis H gs kb" using I by (simp add: kb_def)
  then have k': "k_store k' = syncObjectRoots H ?s1" "k_hasKey k'" "k_pendingLNPR k' = None"
    using gs kb by (auto simp: InitGenesis_def SetOwnsValset_def SetModuleVerifier_def seeds_some_def Let_def
        split: sum.splits if_split)
  have sr: "same_roster ?s0 NewMemStore" "store_ok ?s0" 
    using roster_invD(1) [OF roster_inv_New] by (simp_all add: frame_simps key_simps)
  note base = roster_inv_same [OF roster_inv_New sr] roster_same [OF roster_inv_New sr]
  have "unat (nextDepositIndex ?s0) = 0" using length_roster [of ?s0] base(2) by (simp add: roster_New)
  then have F: "roster_inv ?s1 \<and> roster ?s1 = fold spec_seed (gn_GenesisSubjects gs) [] \<and> same_settings ?s1 ?s0"
    using seeds_refine [OF base(1), of "gn_GenesisSubjects gs" H] gs base(2) by (simp add: seeds_some_def roster_New)
  have S: "same_settings (k_store k') ?s0" using same_settings_trans [OF settings_ops(3)] F by (simp add: k')
  show "roster_inv (k_store k')" and R: "roster (k_store k') = fold spec_seed (gn_GenesisSubjects gs) []"
    and "synced H (k_store k')" using F sync_roster by (simp_all add: k')
  show "lastPower (k_store k') = (\<lambda>_. 0)"
  proof
    fix x
    have "LastPowerKey x \<noteq> OwnsValsetKey" "LastPowerKey x \<noteq> PeriodParamKey" by (simp_all add: key_defs prefix_defs)
    then have "lastPower ?s0 x = lastPower NewMemStore x" by (simp add: lastPower_def)
    also have "\<dots> = 0" by (simp add: lastPower_def NewMemStore_def getb_def memGet_def GetI64_def GetU64_def)
    finally show "lastPower (k_store k') x = 0" using same_settings_reads(1) [OF S] by simp
  qed
  show "OwnsValset k'" using same_settings_reads(2) [OF S] by (simp add: OwnsValset_def)
  show "k_hasKey k'" "k_pendingLNPR k' = None" using k' by simp_all
  show "roster (k_store k') \<noteq> []" using gs seeds_nonempty R by (auto simp: seeds_some_def list_ex_iff)
qed

lemma spec_apply_grow: "length ms \<le> length (fold spec_apply ss ms)"
proof (induction ss arbitrary: ms)
  case (Cons s ss)
  have "length ms \<le> length (spec_apply s ms)"
    by (simp add: spec_apply_def spec_leave_def spec_admit_def spec_enrol_def Let_def)
  then show ?case using Cons [of "spec_apply s ms"] by simp
qed simp

lemma block_room_roster: "block_room txs s \<Longrightarrow> roster_inv s \<Longrightarrow> roster s \<noteq> []"
  by (auto simp: block_room_def DebugSubjectsFromBits_roster)

text \<open>The recorded powers and the roster after the updates of a block.\<close>

lemma updates_step:
  assumes inv: "roster_inv s" and ne: "roster s \<noteq> []" and V: "ValidatorUpdates H p s = (ups, s')"
  shows "roster_inv s'" "roster s' = roster s"
    "getb s' OwnsValsetKey = getb s OwnsValsetKey"
    "lastPower s' x \<noteq> 0 \<Longrightarrow> length x = 32 \<and> (\<exists>m \<in> set (roster s). m_active m \<and> m_subject m = x)"
    "(\<And>y. length y \<noteq> 32 \<Longrightarrow> lastPower s y = 0) \<Longrightarrow> apply_updates (lastPower s) ups = lastPower s'"
proof -
  note live = bits_live_roster [OF ne]
  note B = ValidatorUpdates_bits [OF inv live V]
  have sr: "same_roster s' s" using B(2) by (rule other_entries_roster)
  show "roster_inv s'" "roster s' = roster s" using roster_inv_same [OF inv sr B(3)] roster_same [OF inv sr B(3)] by auto
  have "OwnsValsetKey \<noteq> LastPowerKey y" for y by (simp add: key_defs prefix_defs)
  then show "getb s' OwnsValsetKey = getb s OwnsValsetKey" using B(2) by (simp add: other_entries_def getb_def)
  show "length x = 32 \<and> (\<exists>m \<in> set (roster s). m_active m \<and> m_subject m = x)" if nz: "lastPower s' x \<noteq> 0"
  proof -
    have "x \<in> set (seen_subjects s)" using nz B(1) by (metis (mono_tags))
    then show ?thesis by (auto simp: seen_subjects_def DebugSubjectsFromBits_roster [OF inv] Let_def)
  qed
  show "apply_updates (lastPower s) ups = lastPower s'" if "\<And>y. length y \<noteq> 32 \<Longrightarrow> lastPower s y = 0"
  proof
    fix y show "apply_updates (lastPower s) ups y = lastPower s' y"
      using ValidatorUpdates_applied [OF inv live V, of y] ValidatorUpdates_other_keys [OF inv live V, of y] that
      by (cases "length y = 32") auto
  qed
qed

subsection \<open>The chain\<close>

inductive chain_run :: "Host \<Rightarrow> 'r hooks \<Rightarrow> 'r TerpApp \<Rightarrow> (bytes \<Rightarrow> i64) \<Rightarrow> bool" for h hk where
  genesis: "fresh_node (ta_lean app) \<Longrightarrow> seeds_some gs \<Longrightarrow> InitChainer h hk gs app = (Inr ups, app') \<Longrightarrow>
    chain_run h hk app' (apply_updates (\<lambda>_. 0) ups)"
| block: "chain_run h hk app view \<Longrightarrow> block_room txs (k_store (ta_lean app)) \<Longrightarrow>
    FinalizeBlock h hk height votes txs app = (Inr ups, app') \<Longrightarrow> chain_run h hk app' (apply_updates view ups)"

definition chain_inv :: "Host \<Rightarrow> 'r TerpApp \<Rightarrow> (bytes \<Rightarrow> i64) \<Rightarrow> bool" where
  "chain_inv h app view \<longleftrightarrow>
    (let k = ta_lean app in idle k \<and> OwnsValset k \<and> synced (h_sha256 h) (k_store k) \<and> view = lastPower (k_store k) \<and>
      (\<forall>x. view x \<noteq> 0 \<longrightarrow> length x = 32 \<and> (\<exists>m \<in> set (roster (k_store k)). m_active m \<and> m_subject m = x)))"

lemma chain_inv_genesis:
  assumes fresh: "fresh_node (ta_lean app)" and gs: "seeds_some gs" and I: "InitChainer h hk gs app = (Inr ups, app')"
  shows "chain_inv h app' (apply_updates (\<lambda>_. 0) ups)"
proof -
  obtain k where G: "InitGenesis (h_sha256 h) gs (BindContext (k_store (ta_lean app)) (ta_lean app)) = Inr k"
    using I by (auto simp: InitChainer_def AppModule_InitGenesis_def split: sum.splits prod.splits)
  note S = InitGenesis_seeds [OF fresh gs G]
  let ?k = "BindContext (k_store k) k"
  have own: "OwnsValset ?k" using OwnsValset_cong [OF _ BindContext_self(3)] S(5) by (metis BindContext_self(1) same_settings_refl)
  have V: "ValidatorUpdates (h_sha256 h) 0 (k_store k) = (ups, k_store (ta_lean app'))"
    "ta_lean app' = ?k\<lparr>k_store := k_store (ta_lean app')\<rparr>"
    using I G own by (auto simp: InitChainer_def AppModule_InitGenesis_def BindContext_self(1) Let_def split: sum.splits prod.splits)
  note U = updates_step [OF S(1,8) V(1)]
  have k: "k_hasKey (ta_lean app')" "k_pendingLNPR (ta_lean app') = None" "k_ownsValset (ta_lean app') = k_ownsValset k"
    using S(6,7) BindContext_self(2-4) [of "k_store k" k] by (subst V(2); simp add: same_node_def)+
  have "apply_updates (\<lambda>_. 0) ups = lastPower (k_store (ta_lean app'))" using U(5) S(4) by simp
  moreover have "OwnsValset (ta_lean app')" using S(5) U(3) k(3) by (simp add: OwnsValset_def Let_def)
  moreover have "synced (h_sha256 h) (k_store (ta_lean app'))"
    by (rule synced_ValidatorUpdates [OF bits_live_roster [OF S(8)] S(3) V(1)])
  ultimately show ?thesis using U(1,2,4) k by (simp add: chain_inv_def Let_def idle_def)
qed

lemma chain_inv_block:
  assumes C: "chain_inv h app view" and room: "block_room txs (k_store (ta_lean app))"
    and F: "FinalizeBlock h hk height votes txs app = (Inr ups, app')"
  shows "chain_inv h app' (apply_updates view ups)"
proof -
  let ?k = "ta_lean app" and ?k' = "ta_lean app'"
  have I: "idle ?k" "OwnsValset ?k" "synced (h_sha256 h) (k_store ?k)" "view = lastPower (k_store ?k)"
    "\<And>x. view x \<noteq> 0 \<Longrightarrow> length x = 32" using C by (simp_all add: chain_inv_def Let_def)
  obtain p s where S: "roster_inv s" "roster s = fold spec_apply (block_subjects txs) (roster (k_store ?k))"
    "same_settings s (k_store ?k)" "same_node ?k' ?k" "k_pendingLNPR ?k' = None"
    "synced (h_sha256 h) (k_store ?k) \<Longrightarrow> synced (h_sha256 h) s"
    and V: "ValidatorUpdates (h_sha256 h) p s = (ups, k_store ?k')"
    using FinalizeBlock_accepted [OF I(1) room F] I(2) by (metis (full_types))
  have "roster (k_store ?k) \<noteq> []" using block_room_roster [OF room] I(1) by (simp add: idle_def)
  then have ne: "roster s \<noteq> []" using spec_apply_grow [of "roster (k_store ?k)" "block_subjects txs"] S(2) by (metis le_zero_eq length_0_conv)
  note U = updates_step [OF S(1) ne V]
  have view: "view = lastPower s" using I(4) same_settings_reads(1) [OF S(3)] by simp
  have "apply_updates view ups = lastPower (k_store ?k')" unfolding view using U(5) I(5) view by blast
  moreover have "OwnsValset ?k'"
    using I(2) U(3) same_settings_reads(2) [OF S(3)] S(4) by (simp add: OwnsValset_def same_node_def Let_def)
  moreover have "synced (h_sha256 h) (k_store ?k')"
    by (rule synced_ValidatorUpdates [OF bits_live_roster [OF ne] S(6) [OF I(3)] V])
  moreover have "idle ?k'" using I(1) S(4,5) U(1) by (simp add: idle_def same_node_def)
  ultimately show ?thesis using U(2,4) by (simp add: chain_inv_def Let_def)
qed

lemma chain_run_inv: "chain_run h hk app view \<Longrightarrow> chain_inv h app view"
  by (induction rule: chain_run.induct) (blast intro: chain_inv_genesis chain_inv_block)+



text \<open>The transaction decoder and the mempool check agree on membership transactions: exactly the
  transactions of the membership class that \<open>CheckTx\<close> answers with code 0 decode to a membership
  transaction, with their bytes unchanged, and no proposer-injected transaction decodes at all.
\<close>

theorem decoder_agrees_with_CheckTx:
  "(WrapTxDecoder inner tx = Inr (MembershipTx raw) \<longleftrightarrow>
     raw = tx \<and> IsMembershipTx tx \<and> rc_Code (CheckTx errResponse runTx tx) = 0) \<and>
   (WrapTxDecoder inner tx = Inr (SdkTx t) \<longleftrightarrow>
     \<not> HasPrefix tx PrefixLNPR \<and> \<not> HasPrefix tx PrefixSSLE \<and> \<not> IsMembershipTx tx \<and> inner tx = Inr t)"
proof -
  have x: "IsMembershipTx tx \<Longrightarrow> \<not> HasPrefix tx PrefixLNPR \<and> \<not> HasPrefix tx PrefixSSLE"
    using HasPrefix_same_length [of tx] classes_distinct by (auto simp: IsMembershipTx_def)
  show ?thesis
    using x
    by (auto simp: WrapTxDecoder_def CheckTx_def RejectMempoolLNPR_def RejectMempoolSSLE_def map_sum_def
        split: option.splits sum.splits if_splits)
qed

text \<open>While the lean module owns the validator set, rewards are allocated exactly over the votes that
  committed and whose validator the staking module knows, with the total power of those votes; and
  signatures of validators the staking module does not know never reach the slashing keeper.
\<close>

theorem rewards_follow_known_commits:
  assumes "OwnsValset k"
  shows "fst (DistrAppModule_BeginBlock stock (Some alloc) (Some known) votes cs (Some k) s) =
      (let commits = filter (\<lambda>v. cv_Flag v = BlockIDFlagCommit) votes;
           kept = filter (\<lambda>v. known s (cv_Address v)) commits
       in if commits = [] then (Inr (), s) else alloc (\<Sum>v \<leftarrow> kept. cv_Power v) kept s) \<and>
    SlashAppModule_BeginBlock stock' (\<lambda>a p f s. if known s a then sign a p f s else other a p f s) (Some known) votes (Some k) s =
      SlashAppModule_BeginBlock stock' sign (Some known) votes (Some k) s"
proof -
  have tot: "fold (\<lambda>v t. t + cv_Power v) vs t = t + (\<Sum>v \<leftarrow> vs. cv_Power v)" for vs t
    by (induction vs arbitrary: t) (simp_all add: add.assoc)
  have sl: "slash_votes known (\<lambda>a p f s. if known s a then sign a p f s else other a p f s) vs s = slash_votes known sign vs s" for vs s
    by (induction vs arbitrary: s) (auto split: sum.split prod.split)
  show ?thesis
    using assms
    by (auto simp: DistrAppModule_BeginBlock_def SlashAppModule_BeginBlock_def AllocateDelegatorFees_def skipUnknownAlloc_def
        Let_def tot sl)
qed

theorem rewards_follow_known_commits_witness:
  "OwnsValset (SetOwnsValset True demo_keeper) \<and>
   fst (DistrAppModule_BeginBlock (\<lambda>s. (Inr (), s)) (Some (\<lambda>t vs s. (Inr (), s @ [(t, length vs)]))) (Some (\<lambda>_ a. a = alice))
     [\<lparr>cv_Address = alice, cv_Power = 7, cv_Flag = 2\<rparr>, \<lparr>cv_Address = bob, cv_Power = 5, cv_Flag = 2\<rparr>,
      \<lparr>cv_Address = alice, cv_Power = 4, cv_Flag = 1\<rparr>] [] (Some (SetOwnsValset True demo_keeper)) []) = (Inr (), [(7, 1)])"
proof -
  have own: "OwnsValset (SetOwnsValset True demo_keeper)" by (simp add: OwnsValset_def SetOwnsValset_def)
  have "bob \<noteq> alice" by (simp add: alice_def bob_def)
  then show ?thesis
    using own by (simp add: rewards_follow_known_commits [OF own, THEN conjunct1] BlockIDFlagCommit_def)
qed

definition sudo_allowed :: "(string \<Rightarrow> lean_error + bytes) \<Rightarrow> msg \<Rightarrow> bool" where
  "sudo_allowed bech32 m =
    (case m of
       OtherMsg \<Rightarrow> True
     | MsgSudoContract c \<Rightarrow> c = [] \<or> (case bech32 c of Inl _ \<Rightarrow> False | Inr a \<Rightarrow> a \<noteq> TestLeanVerifierAcc))"

text \<open>A transaction passes the sudo check exactly when each of its sudo messages names a contract that
  decodes to another address than the verifier's, or names none; then the rest of the ante chain
  decides, and otherwise one of the two sudo errors is the answer.
\<close>

theorem sudo_check:
  "\<exists>e \<in> {ErrSudoLeanVerifier, ErrSudoNotPermitted}.
     Decorator_AnteHandle bech32 next_handler ctx msgs simulate =
       (if list_all (sudo_allowed bech32) msgs then next_handler ctx msgs simulate else Inl e)"
proof -
  have "\<exists>e \<in> {ErrSudoLeanVerifier, ErrSudoNotPermitted}.
      scan_sudo bech32 msgs = (if list_all (sudo_allowed bech32) msgs then Inr () else Inl e)"
  proof (induction msgs)
    case (Cons m ms)
    then show ?case
    proof (cases "sudo_allowed bech32 m")
      case True
      then have "scan_sudo bech32 (m # ms) = scan_sudo bech32 ms"
        by (cases m) (auto simp: sudo_allowed_def RejectLeanSudo_def split: sum.splits)
      then show ?thesis using Cons True by simp
    next
      case False
      then have "scan_sudo bech32 (m # ms) \<in> {Inl ErrSudoLeanVerifier, Inl ErrSudoNotPermitted}"
        by (cases m) (auto simp: sudo_allowed_def RejectLeanSudo_def split: sum.splits)
      then show ?thesis using False by auto
    qed
  qed auto
  then show ?thesis by (auto simp: Decorator_AnteHandle_def)
qed

definition demo_hooks :: "unit hooks" where
  "demo_hooks = \<lparr>hk_voteExtension = \<lambda>_ r. r, hk_preBlock = \<lambda>r. (Inr (), r), hk_beginBefore = \<lambda>r. (Inr (), r),
    hk_distr = \<lambda>r. (Inr (), r), hk_alloc = \<lambda>_ _ r. (Inr (), r), hk_known = \<lambda>_ _. False, hk_slash = \<lambda>r. (Inr (), r),
    hk_signature = \<lambda>_ _ _ r. (Inr (), r), hk_beginAfter = \<lambda>r. (Inr (), r), hk_deliver = \<lambda>_ r. r,
    hk_endBefore = \<lambda>r. (Inr [], r), hk_endAfter = \<lambda>us r. (Inr us, r), hk_initBefore = \<lambda>r. (Inr [], r),
    hk_initAfter = \<lambda>us r. (Inr us, r)\<rparr>"

lemma demo_begins: "\<exists>app'. BeginBlocker demo_hooks [] app = (Inr (), app')"
  by (auto simp: BeginBlocker_def demo_hooks_def DistrAppModule_BeginBlock_def SlashAppModule_BeginBlock_def
      AllocateDelegatorFees_def Let_def)

lemma demo_ends: "\<exists>app'. mm_EndBlock demo_hooks height app = (Inr [], app')"
  by (auto simp: mm_EndBlock_def demo_hooks_def Let_def)

text \<open>With these hooks a block succeeds as soon as its LNPR verifies in the store it starts from.\<close>

lemma demo_block_succeeds:
  assumes V: "\<And>k. k_store k = k_store (ta_lean app) \<Longrightarrow> k_AllowDummy k \<Longrightarrow> fst (VerifyLNPR h b k) = Inr ()"
    and f: "FindLNPR txs = Some (b, i)" and k: "k_hasKey (ta_lean app)" "k_pendingLNPR (ta_lean app) = None" "k_AllowDummy (ta_lean app)"
    and live: "DebugSubjectsFromBits (k_store (ta_lean app)) \<noteq> []"
  shows "\<exists>ups app'. FinalizeBlock h demo_hooks height [] txs app = (Inr ups, app')"
proof -
  let ?s = "k_store (ta_lean app)" and ?k = "BindContext (k_store (ta_lean app)) (ta_lean app)"
  have b: "k_store ?k = ?s" "same_node ?k (ta_lean app)" by (rule BindContext_self)+
  then have "fst (VerifyLNPR h b ?k) = Inr ()" using V k(3) by (simp add: same_node_def)
  then obtain kv where "VerifyLNPR h b ?k = (Inr (), kv)" by (cases "VerifyLNPR h b ?k") auto
  moreover from this have "k_hasKey kv" using verifyLNPR_fields b(2) k(1) unfolding VerifyLNPR_def same_node_def by metis
  ultimately obtain a1 where P: "PreBlocker h demo_hooks txs app = (Inr (), a1)"
    using f by (simp add: PreBlocker_def ProcessInjectedLNPR_def demo_hooks_def Let_def)
  obtain a2 where B: "BeginBlocker demo_hooks [] a1 = (Inr (), a2)" using demo_begins by blast
  let ?a3 = "a2\<lparr>ta_rest := hk_deliver demo_hooks txs (ta_rest a2)\<rparr>"
  obtain a4 where M: "mm_EndBlock demo_hooks height ?a3 = (Inr [], a4)" using demo_ends by blast
  let ?k4 = "BindContext (k_store (ta_lean a4)) (ta_lean a4)"
  note S = PreBlocker_stages [OF k(1,2) live P] BeginBlocker_lean [OF B] mm_EndBlock_lean [OF M]
  have "k_store ?k4 = k_store (ta_lean a4)" "same_node ?k4 (ta_lean a4)" "k_pendingLNPR ?k4 = k_pendingLNPR (ta_lean a4)"
    by (rule BindContext_self)+
  then have k4: "k_store ?k4 = ?s" "k_AllowDummy ?k4" "k_pendingLNPR ?k4 = Some b"
    using S k(3) f unfolding same_node_def by simp_all
  then have "fst (VerifyLNPR h b (?k4\<lparr>k_pendingLNPR := None\<rparr>)) = Inr ()" by (intro V) simp_all
  then have "\<exists>k5. ApplyStagedLNPR h ?k4 = (Inr (), k5)"
    using k4(3) by (cases "VerifyLNPR h b (?k4\<lparr>k_pendingLNPR := None\<rparr>)") (simp add: ApplyStagedLNPR_def ApplyLNPR_def Let_def)
  then obtain k5 where A: "ApplyStagedLNPR h ?k4 = (Inr (), k5)" by blast
  then have "\<exists>ups app'. EndBlocker h demo_hooks height ?a3 = (Inr ups, app')"
    using M by (auto simp: EndBlocker_def Let_def split: prod.split)
  then show ?thesis using P B by (simp add: FinalizeBlock_def)
qed

definition demo_app :: "unit TerpApp" where
  "demo_app = \<lparr>ta_lean = demo_keeper\<lparr>k_hasKey := True\<rparr>, ta_rest = ()\<rparr>"

lemma demo_app_simps [simp]:
  "k_store (ta_lean demo_app) = demo_store" "k_AllowDummy (ta_lean demo_app)" "k_hasKey (ta_lean demo_app)"
  "k_pendingLNPR (ta_lean demo_app) = None"
  by (simp_all add: demo_app_def demo_keeper_def NewKeeper_def)

lemma demo_blob_found: "FindLNPR [EncodeLNPR demo_blob] = Some (demo_blob, 0)"
  by (rule FindLNPR_at) (simp add: wf_LNPR_def wf_subject_def demo_blob_def alice_def)

lemma demo_blob_verifies: "k_store k = demo_store \<Longrightarrow> k_AllowDummy k \<Longrightarrow> fst (VerifyLNPR demo_host demo_blob k) = Inr ()"
  unfolding demo_blob_def
  by (rule VerifyLNPR_dummy) (auto simp: demo_debug dummy_row_def MaxRawStarksPerLNPR_def)


definition demo_genesis :: GenesisState where
  "demo_genesis = DefaultGenesis\<lparr>gn_OwnsValset := True, gn_GenesisSubjects := [\<lparr>gs_PubKey = alice, gs_Weight = 10\<rparr>]\<rparr>"

definition new_app :: "unit TerpApp" where
  "new_app = \<lparr>ta_lean = (NewKeeper False NewMemStore 0 None)\<lparr>k_hasKey := True\<rparr>, ta_rest = ()\<rparr>"

lemma demo_seeds: "seeds_some demo_genesis" "fresh_node (ta_lean new_app)" "k_AllowDummy (ta_lean new_app)"
  by (simp_all add: seeds_some_def demo_genesis_def fresh_node_def new_app_def NewKeeper_def alice_def)

lemma demo_seeded_roster:
  "fold spec_seed (gn_GenesisSubjects demo_genesis) [] = [\<lparr>m_subject = alice, m_active = True, m_eb = Some 10\<rparr>]"
proof -
  have "alice \<noteq> []" by (simp add: alice_def)
  then show ?thesis
    by (simp add: demo_genesis_def spec_seed_def spec_admit_def spec_enrol_def on_member_def ebFromWeight_def)
qed

lemma InitGenesis_AllowDummy: "Inr k' = InitGenesis H gs k \<Longrightarrow> k_AllowDummy k' = k_AllowDummy k"
  by (auto simp: InitGenesis_def SetOwnsValset_def SetModuleVerifier_def Let_def split: sum.splits if_split)

lemma demo_init:
  obtains k ups app' where "InitGenesis demo_hash demo_genesis (BindContext (k_store (ta_lean new_app)) (ta_lean new_app)) = Inr k"
    "InitChainer demo_host demo_hooks demo_genesis new_app = (Inr ups, app')"
    "ValidatorUpdates demo_hash 0 (k_store k) = (ups, k_store (ta_lean app'))" "k_AllowDummy (ta_lean app')"
proof -
  let ?kb = "BindContext (k_store (ta_lean new_app)) (ta_lean new_app)"
  have "GenesisState_Validate demo_genesis = Inr ()" by (simp add: GenesisState_Validate_def demo_genesis_def)
  then obtain k where G: "InitGenesis demo_hash demo_genesis ?kb = Inr k" by (simp add: InitGenesis_def Let_def)
  note S = InitGenesis_seeds [OF demo_seeds(2,1) G]
  let ?k = "BindContext (k_store k) k"
  have b: "k_store ?k = k_store k" "same_node ?k k" "same_node ?kb (ta_lean new_app)" by (rule BindContext_self)+
  have own: "OwnsValset ?k" using OwnsValset_cong [OF _ b(2)] b(1) S(5) by simp
  obtain ups s where V: "ValidatorUpdates demo_hash 0 (k_store k) = (ups, s)" by fastforce
  have I: "InitChainer demo_host demo_hooks demo_genesis new_app = (Inr ups, new_app\<lparr>ta_lean := ?k\<lparr>k_store := s\<rparr>, ta_rest := ()\<rparr>)"
    using G own V b(1) by (simp add: InitChainer_def AppModule_InitGenesis_def demo_hooks_def Let_def)
  have "k_AllowDummy ?k" using b(2,3) InitGenesis_AllowDummy [OF G [symmetric]] demo_seeds(3) by (simp add: same_node_def)
  then show thesis using that [OF G I] V by simp
qed

lemma demo_genesis_power:
  assumes G: "InitGenesis demo_hash demo_genesis (BindContext (k_store (ta_lean new_app)) (ta_lean new_app)) = Inr k"
    and V: "ValidatorUpdates demo_hash 0 (k_store k) = (ups, s)"
  shows "roster_inv s" "roster s = [\<lparr>m_subject = alice, m_active = True, m_eb = Some 10\<rparr>]" "lastPower s alice = 10"
proof -
  note S = InitGenesis_seeds [OF demo_seeds(2,1) G]
  note U = updates_step [OF S(1,8) V]
  show "roster_inv s" "roster s = [\<lparr>m_subject = alice, m_active = True, m_eb = Some 10\<rparr>]"
    using U(1,2) S(2) demo_seeded_roster by simp_all
  have D: "DebugSubjectsFromBits (k_store k) = [\<lparr>pw_Subject = alice, pw_Weight = 10, pw_HasProof = True\<rparr>]"
    using S(2) demo_seeded_roster by (simp add: DebugSubjectsFromBits_roster [OF S(1)])
  have l: "length alice = 32" by (simp add: alice_def)
  show "lastPower s alice = 10"
    using ValidatorUpdates_bits(1) [OF S(1) bits_live_roster [OF S(8)] V] S(4) l
    by (simp add: seen_subjects_def D announced_power_def row_update_def announced_def existing_power_def existing_total_def)
qed

definition keepalive :: "store \<Rightarrow> LNPRBlob" where
  "keepalive s = \<lparr>lb_Period = 0, lb_Subjects = [\<lparr>sp_Subject = alice, sp_Weight = 10,
     sp_Proof = DummyStwoProveBoundRoots 0 alice 10 (LastObjectRoots s)\<rparr>]\<rparr>"

lemma keepalive_found: "FindLNPR [EncodeLNPR (keepalive s)] = Some (keepalive s, 0)"
  by (rule FindLNPR_at) (simp add: wf_LNPR_def wf_subject_def keepalive_def alice_def)


subsection \<open>Export and import\<close>

definition member_seed :: "member \<Rightarrow> GenesisSubject" where
  "member_seed m = \<lparr>gs_PubKey = m_subject m, gs_Weight = ucast (case m_eb m of None \<Rightarrow> 0 | Some e \<Rightarrow> e)\<rparr>"

definition funded :: "member \<Rightarrow> bool" where
  "funded m \<longleftrightarrow> m_active m \<and> (case m_eb m of None \<Rightarrow> False | Some e \<Rightarrow> e > 0)"

lemma seed_member:
  assumes "funded m" "m_subject m \<noteq> []" "m_subject m \<notin> m_subject ` set acc"
  shows "spec_seed (member_seed m) acc = acc @ [m]"
proof -
  obtain e where e: "m_eb m = Some e" "e > 0" "m_active m" using assms(1) by (auto simp: funded_def split: option.splits)
  have w: "sint (ucast e :: i64) > 0" using e(2) by (simp add: word_less_def)
  have "on_member (m_subject m) f acc = acc" for f
    unfolding on_member_def by (rule map_idI) (use assms(3) in \<open>auto simp: image_iff\<close>)
  then have "on_member (m_subject m) f (acc @ [x]) = acc @ [f x]" if "m_subject x = m_subject m" for f x
    using that by (simp add: on_member_def)
  moreover have "ebFromWeight (ucast e :: i64) = e"
    using w uint_lt2p [of e] by (simp add: ebFromWeight_def ucast_up_ucast_id is_up)
  ultimately show ?thesis
    using assms(2,3) e w by (simp add: spec_seed_def member_seed_def spec_admit_def spec_enrol_def)
qed

lemma seed_members:
  "\<forall>m \<in> set ms. funded m \<and> m_subject m \<noteq> [] \<Longrightarrow> distinct (map m_subject (acc @ ms)) \<Longrightarrow>
   fold spec_seed (map member_seed ms) acc = acc @ ms"
proof (induction ms arbitrary: acc)
  case (Cons m ms)
  have "spec_seed (member_seed m) acc = acc @ [m]" using Cons.prems by (intro seed_member) auto
  then show ?case using Cons.IH [of "acc @ [m]"] Cons.prems by simp
qed simp

lemma export_members:
  assumes "roster_inv (k_store k)"
  shows "gn_GenesisSubjects (ExportGenesis k) = map member_seed (filter m_active (roster (k_store k)))"
  by (simp add: ExportGenesis_def DebugSubjectsFromBits_roster [OF assms] member_seed_def Let_def)

text \<open>C23. Exporting the module's state and starting a fresh node from it restores the active members, in
  their order and with their balances, when each of them has a positive balance; members that left are
  not carried over.
\<close>

theorem export_then_import:
  assumes inv: "roster_inv (k_store k)" and own: "OwnsValset k" and fresh: "fresh_node k0"
    and fund: "\<forall>m \<in> set (filter m_active (roster (k_store k))). funded m" and ne: "filter m_active (roster (k_store k)) \<noteq> []"
    and I: "InitGenesis H (ExportGenesis k) (BindContext (k_store k0) k0) = Inr k'"
  shows "roster (k_store k') = filter m_active (roster (k_store k)) \<and> OwnsValset k'"
proof -
  let ?ms = "filter m_active (roster (k_store k))"
  have subj: "m_subject m \<noteq> []" if "m \<in> set (roster (k_store k))" for m
  proof -
    have "m_subject m \<in> dom (depositIndexOf (k_store k))" using that roster_subjects [OF inv] by blast
    then show ?thesis using roster_invD(2) [OF inv] by blast
  qed
  have G: "gn_GenesisSubjects (ExportGenesis k) = map member_seed ?ms" by (rule export_members [OF inv])
  have "length ?ms \<le> unat (nextDepositIndex (k_store k))" using length_filter_le [of m_active "roster (k_store k)"] by simp
  then have len: "length ?ms < 2 ^ 32" using unsigned_less [where 'a = nat, of "nextDepositIndex (k_store k)"] by simp
  obtain m where m: "m \<in> set ?ms" using ne by (cases ?ms) auto
  then have "gs_PubKey (member_seed m) \<noteq> [] \<and> sint (gs_Weight (member_seed m)) > 0"
    using fund subj by (auto simp: member_seed_def funded_def word_less_def split: option.splits)
  then have "seeds_some (ExportGenesis k)"
    using m len own G unfolding seeds_some_def list_ex_iff by (auto simp: ExportGenesis_def simp del: set_filter)
  note S = InitGenesis_seeds [OF fresh this I]
  have "fold spec_seed (map member_seed ?ms) [] = [] @ ?ms"
    by (rule seed_members) (use fund subj roster_distinct [OF inv] in \<open>auto simp: distinct_map_filter\<close>)
  then show ?thesis using S(2,5) G by simp
qed

theorem export_then_import_witness:
  "\<exists>k'. InitGenesis demo_hash (ExportGenesis (SetOwnsValset True demo_keeper))
       (BindContext NewMemStore (ta_lean new_app)) = Inr k' \<and>
     roster (k_store k') = [\<lparr>m_subject = alice, m_active = True, m_eb = Some 10\<rparr>]"
proof -
  let ?k = "SetOwnsValset True demo_keeper"
  have sr: "same_roster (k_store ?k) demo_store" "store_ok (k_store ?k)"
    using roster_invD(1) [OF demo_inv] by (simp_all add: SetOwnsValset_def frame_simps key_simps)
  note R = roster_inv_same [OF demo_inv sr] roster_same [OF demo_inv sr]
  have own: "OwnsValset ?k" by (simp add: OwnsValset_def SetOwnsValset_def)
  have "GenesisState_Validate (ExportGenesis ?k) = Inr ()"
    using export_members [OF R(1)] R(2) by (simp add: GenesisState_Validate_def demo_roster)
  then obtain k' where I: "InitGenesis demo_hash (ExportGenesis ?k) (BindContext (k_store (ta_lean new_app)) (ta_lean new_app)) = Inr k'"
    by (simp add: InitGenesis_def Let_def)
  have "k_store (ta_lean new_app) = NewMemStore" using demo_seeds(2) by (simp add: fresh_node_def)
  then show ?thesis
    using export_then_import [OF R(1) own demo_seeds(2) _ _ I] I R(2) by (simp add: demo_roster funded_def)
qed

end
