(* ===== verification/Sdk_Base.thy ===== *)
theory Sdk_Base
  imports Prelude "HOL-Library.DAList"
begin

text \<open>
  What the modules share of the SDK: the conversion of strings to bytes, coins, encodings, and the laws
  of its key-value stores.  The stores and encodings themselves are parameters of each module; the
  association lists and the table encodings at the end are the instances the concrete cases use.
\<close>

text \<open>The conversion \<open>[]byte(s)\<close> of a Go string.\<close>

definition str :: "string \<Rightarrow> bytes" where
  "str s = map (\<lambda>c. word_of_nat (of_char c)) s"

record Coin =
  cn_Denom :: string
  cn_Amount :: int

text \<open>
  One step of code that may fail after another: the first error ends the sequence, and the state it
  left stays.
\<close>

definition bindw :: "('e + 'a) \<times> 'w \<Rightarrow> ('a \<Rightarrow> 'w \<Rightarrow> ('e + 'b) \<times> 'w) \<Rightarrow> ('e + 'b) \<times> 'w" where
  "bindw m f = (case m of (Inl err, w) \<Rightarrow> (Inl err, w) | (Inr x, w) \<Rightarrow> f x w)"

lemma bindw_Inr: "bindw m f = (Inr y, w') \<longleftrightarrow> (\<exists>x w. m = (Inr x, w) \<and> f x w = (Inr y, w'))"
  by (auto simp: bindw_def split: prod.splits sum.splits)

lemma bindw_simps [simp]: "bindw (Inr x, w) f = f x w" "bindw (Inl err, w) f = (Inl err, w)"
  by (simp_all add: bindw_def)

text \<open>\<open>strings.Split\<close> and \<open>strings.Join\<close> with a one-character separator.\<close>

fun Split :: "char \<Rightarrow> string \<Rightarrow> string list" where
  "Split c [] = [[]]"
| "Split c (x # s) = (if x = c then [] # Split c s else case Split c s of [] \<Rightarrow> [[x]] | p # ps \<Rightarrow> (x # p) # ps)"

fun Join :: "char \<Rightarrow> string list \<Rightarrow> string" where
  "Join c [] = []"
| "Join c [p] = p"
| "Join c (p # ps) = p @ c # Join c ps"

lemma Split_not_Nil [simp]: "Split c s \<noteq> []"
  by (induction s) (auto split: list.splits)

lemma Join_Split: "Join c (Split c s) = s"
proof (induction s)
  case (Cons x s)
  obtain p ps where "Split c s = p # ps" using Split_not_Nil by (metis neq_Nil_conv)
  then show ?case using Cons by (cases ps) auto
qed simp

lemma Split_append: "c \<notin> set p \<Longrightarrow> Split c (p @ c # s) = p # Split c s"
  by (induction p) auto

text \<open>\<open>strconv.Itoa\<close> and \<open>strconv.FormatUint\<close> in base ten.\<close>

definition digit :: "nat \<Rightarrow> char" where
  "digit d = char_of (48 + d)"

fun Itoa :: "nat \<Rightarrow> string" where
  "Itoa n = (if n < 10 then [digit n] else Itoa (n div 10) @ [digit (n mod 10)])"

declare Itoa.simps [simp del]

definition Atoi :: "string \<Rightarrow> nat" where
  "Atoi = foldl (\<lambda>n c. 10 * n + (of_char c - 48)) 0"

lemma digit_value: "d < 10 \<Longrightarrow> of_char (digit d) - 48 = d"
  by (simp add: digit_def)

lemma Atoi_Itoa [simp]: "Atoi (Itoa n) = n"
proof (induction n rule: Itoa.induct)
  case (1 n)
  then show ?case by (subst Itoa.simps) (auto simp: Atoi_def digit_value)
qed

lemma Itoa_inject [simp]: "Itoa m = Itoa n \<longleftrightarrow> m = n"
  by (metis Atoi_Itoa)

lemma Itoa_digits: "c \<in> set (Itoa n) \<Longrightarrow> \<exists>d < 10. c = digit d"
proof (induction n rule: Itoa.induct)
  case (1 n)
  have "\<exists>d < 10. digit (n mod 10) = digit d" by (rule exI [of _ "n mod 10"]) simp
  with 1 show ?case by (subst (asm) (2) Itoa.simps) (auto split: if_splits)
qed

lemma Itoa_no_separator: "of_char c \<notin> {48..57 :: nat} \<Longrightarrow> c \<notin> set (Itoa n)"
  using Itoa_digits by (fastforce simp: digit_def)

text \<open>An encoding, with errors of type \<open>'e\<close>.\<close>

record ('e, 'a) codec =
  cd_Marshal :: "'a \<Rightarrow> 'e + bytes"
  cd_Unmarshal :: "bytes \<Rightarrow> 'e + 'a"

definition codec_ok :: "('e, 'a) codec \<Rightarrow> bool" where
  "codec_ok c \<longleftrightarrow> (\<forall>x b. cd_Marshal c x = Inr b \<longrightarrow> cd_Unmarshal c b = Inr x)"

text \<open>A store answers with what was last written, an iterator with the entries under its prefix.\<close>

definition kv_laws ::
  "('s \<Rightarrow> bytes \<Rightarrow> bytes option) \<Rightarrow> (bytes \<Rightarrow> bytes \<Rightarrow> 's \<Rightarrow> 's) \<Rightarrow> (bytes \<Rightarrow> 's \<Rightarrow> (bytes \<times> bytes) list) \<Rightarrow> bool" where
  "kv_laws get upd iter \<longleftrightarrow>
    (\<forall>s k v k'. get (upd k v s) k' = (if k' = k then Some v else get s k')) \<and>
    (\<forall>s p. set (iter p s) = {(k, v). get s k = Some v \<and> HasPrefix k p})"

lemma str_inject [simp]: "str a = str b \<longleftrightarrow> a = b"
proof -
  have "inj (\<lambda>c. word_of_nat (of_char c) :: byte)"
  proof (rule injI)
    fix c d assume eq: "(word_of_nat (of_char c) :: byte) = word_of_nat (of_char d)"
    have "of_char c < (256 :: nat)" "of_char d < (256 :: nat)" by simp_all
    with eq have "of_char c = (of_char d :: nat)" by (simp add: word_of_nat_eq_iff take_bit_eq_mod)
    then show "c = d" by simp
  qed
  then show ?thesis by (simp add: str_def inj_map_eq_map)
qed

text \<open>The conversion \<open>string(b)\<close> of a byte slice.\<close>

definition unstr :: "bytes \<Rightarrow> string" where
  "unstr b = map (\<lambda>x. char_of (unat x)) b"

lemma unstr_str [simp]: "unstr (str s) = s"
proof -
  have "char_of (unat (word_of_nat (of_char c) :: byte)) = c" for c
    by (simp add: unat_of_nat take_bit_eq_mod flip: take_bit_eq_mod)
  then show ?thesis by (induction s) (simp_all add: unstr_def str_def)
qed

lemma str_append: "str (a @ b) = str a @ str b" "str (c # b) = word_of_nat (of_char c) # str b"
  by (simp_all add: str_def)

lemma str_Nil [simp]: "str s = [] \<longleftrightarrow> s = []" "str [] = []"
  by (simp_all add: str_def)

lemma set_map_filter_iff: "y \<in> set (List.map_filter f xs) \<longleftrightarrow> (\<exists>x \<in> set xs. f x = Some y)"
  by (induction xs) (auto simp: List.map_filter_simps split: option.splits)

definition table_codec :: "'e \<Rightarrow> ('a \<times> bytes) list \<Rightarrow> ('e, 'a) codec" where
  "table_codec err t =
    \<lparr>cd_Marshal = (\<lambda>x. case map_of t x of None \<Rightarrow> Inl err | Some b \<Rightarrow> Inr b),
     cd_Unmarshal = (\<lambda>b. case map_of (map prod.swap t) b of None \<Rightarrow> Inl err | Some x \<Rightarrow> Inr x)\<rparr>"

lemma codec_ok_table: "distinct (map snd t) \<Longrightarrow> codec_ok (table_codec err t)"
proof -
  assume d: "distinct (map snd t)"
  have swap: "map_of (map prod.swap t) b = Some x" if "(x, b) \<in> set t" for x b
    using that d by (induction t) (auto simp: rev_image_eqI)
  show ?thesis by (auto simp: codec_ok_def table_codec_def swap [OF map_of_SomeD] split: option.split_asm)
qed

definition alist_iter :: "bytes \<Rightarrow> (bytes, bytes) alist \<Rightarrow> (bytes \<times> bytes) list" where
  "alist_iter p s = filter (\<lambda>(k, v). HasPrefix k p) (DAList.impl_of s)"

lemma alist_kv_laws: "kv_laws DAList.lookup DAList.update alist_iter"
proof -
  have "(k, v) \<in> set (DAList.impl_of s) \<longleftrightarrow> DAList.lookup s k = Some v" for k v and s :: "(bytes, bytes) alist"
    using DAList.impl_of_distinct [of s] by (simp add: DAList.lookup.rep_eq)
  then show ?thesis by (auto simp: kv_laws_def alist_iter_def lookup_update)
qed

end
