(* ===== verification/Hash_Merchant.thy ===== *)
theory Hash_Merchant
  imports Lean_Abci Sdk_Base
begin

text \<open>
  The state of \<open>x/hashmerchant\<close>: parameters, the registries of foreign chains and of contracts, escrow
  records, confirmed hash roots and oracle sources (\<open>keeper/keeper.go\<close>, \<open>keeper/oracle_store.go\<close>,
  \<open>types/*.go\<close>), the messages (\<open>keeper/msg_server.go\<close>), the end blocker with its pruning
  (\<open>keeper/vote_ext.go\<close>), the queries and genesis.  The store of the SDK, its codecs, the bank, the
  contracts and the arithmetic of \<open>cosmossdk.io/math\<close> are fields of \<open>HmEnv\<close>.
\<close>

subsection \<open>Types\<close>

datatype hm_error =
    ErrChainNotFound | ErrChainAlreadyExists | ErrContractNotFound | ErrContractAlreadyExists | ErrEscrowNotFound
  | ErrInsufficientEscrow | ErrEscrowExpired | ErrHashRootNotFound | ErrInvalidChainUID | ErrInvalidAlgo | ErrQuorumNotReached | ErrUnauthorized | ErrInvalidParams | ErrChainDisabled
  | ErrInvalidSigner | HmErrorf string | HmPanic string

datatype MarketMode = MARKET_MODE_UNSPECIFIED | MARKET_MODE_OPEN | MARKET_MODE_CLOSED

text \<open>\<open>LegacyDec\<close> counts units of \<open>10 ^ -18\<close>.\<close>

record Params =
  pr_QuorumFraction :: int
  pr_PruneInterval :: u64
  pr_EscrowDenom :: string
  pr_MinEscrowAmount :: int
  pr_MarketMode :: MarketMode

record CustodyAuthenticator =
  ca_Pubkey :: bytes
  ca_Algorithm :: string
  ca_Scope :: string

datatype OracleSourceKind =
    ORACLE_SOURCE_KIND_UNSPECIFIED | ORACLE_SOURCE_KIND_POSTGRES | ORACLE_SOURCE_KIND_BITCOIN_RPC
  | ORACLE_SOURCE_KIND_ZCASH_RPC | ORACLE_SOURCE_KIND_HTTP | ORACLE_SOURCE_KIND_CUSTOM

record OracleSource =
  os_SourceId :: string
  os_Kind :: OracleSourceKind
  os_Endpoint :: string
  os_MerklePrefix :: "bytes list"
  os_Authenticator :: "CustodyAuthenticator option"
  os_Enabled :: bool

record OracleAttestation =
  at_SourceId :: string
  at_Value :: bytes
  at_Height :: u64
  at_Timestamp :: i64
  at_CustodySignature :: bytes
  at_Ics23Proof :: bytes

record RegisteredChain =
  rg_ChainUid :: string
  rg_Name :: string
  rg_RpcEndpoints :: "string list"
  rg_HashAlgos :: "string list"
  rg_Enabled :: bool
  rg_OracleSources :: "OracleSource option list"

record RegisteredContract =
  ct_ContractAddr :: string
  ct_ChainUid :: string
  ct_SubstoreKeys :: "string list"
  ct_Enabled :: bool

record EscrowRecord =
  er_ContractAddr :: string
  er_Amount :: Coin
  er_PaidUntilHeight :: u64
  er_LastPruneHeight :: u64

record HashRoot =
  hr_ChainUid :: string
  hr_Algo :: string
  hr_Height :: u64
  hr_Root :: bytes
  hr_AttestationCount :: u32
  hr_BlockTime :: i64
  hr_Attestations :: "OracleAttestation option list"

record VoteExtensionHashData =
  ve_RuntimeId :: string
  ve_ChainUid :: string
  ve_Algo :: string
  ve_Root :: bytes
  ve_ForeignHeight :: u64
  ve_ForeignBlockTime :: i64
  ve_Ics23Proof :: bytes
  ve_Attestations :: "OracleAttestation option list"

record sidecarAttestationJSON =
  sj_SourceID :: string
  sj_Value :: string
  sj_Height :: u64
  sj_Timestamp :: i64
  sj_CustodySignature :: string

record sidecarResponse =
  sr_RuntimeID :: string
  sr_ChainUID :: string
  sr_Algo :: string
  sr_Root :: string
  sr_ForeignHeight :: u64
  sr_ForeignBlockTime :: i64
  sr_Attestations :: "sidecarAttestationJSON list"

record ExtendedVote =
  ev_Power :: i64
  ev_VoteExtension :: bytes

record HashMerchantSudoPayload =
  sp_ChainUID :: string
  sp_Algo :: string
  sp_Height :: u64
  sp_Root :: bytes
  sp_AttestationCount :: u32
  sp_BlockTime :: i64
  sp_OracleSources :: "(string \<times> bytes \<times> u64) list"

record hm_genesis =
  hg_Params :: Params
  hg_RegisteredChains :: "RegisteredChain list"
  hg_RegisteredContracts :: "RegisteredContract list"
  hg_EscrowRecords :: "EscrowRecord list"
  hg_HashRoots :: "HashRoot list"
  hg_PruneEpoch :: u64

subsection \<open>What the module calls\<close>

record ('s, 'x) world =
  w_store :: 's
  w_ext :: 'x

text \<open>
  The store of the SDK, its codecs, the bank and the contracts, ed25519 and the arithmetic of
  \<open>cosmossdk.io/math\<close>: \<open>hm_Periods a m\<close> is \<open>a.Quo(m).Uint64()\<close> and \<open>hm_Threshold q t\<close> is
  \<open>q.MulInt64(t).TruncateInt().Int64()\<close>, both of which may panic.
\<close>

record ('s, 'x) HmEnv =
  hm_authority :: string
  hm_Get :: "'s \<Rightarrow> bytes \<Rightarrow> bytes option"
  hm_Set :: "bytes \<Rightarrow> bytes \<Rightarrow> 's \<Rightarrow> 's"
  hm_Iter :: "bytes \<Rightarrow> 's \<Rightarrow> (bytes \<times> bytes) list"
  hm_params :: "(hm_error, Params) codec"
  hm_chain :: "(hm_error, RegisteredChain) codec"
  hm_contract :: "(hm_error, RegisteredContract) codec"
  hm_escrow :: "(hm_error, EscrowRecord) codec"
  hm_root :: "(hm_error, HashRoot) codec"
  hm_extension :: "(hm_error, VoteExtensionHashData) codec"
  hm_sources :: "(hm_error, (OracleSource list)) codec"
  hm_bundle :: "(hm_error, (OracleAttestation list)) codec"
  hm_commit :: "(hm_error, (ExtendedVote list)) codec"
  hm_genesisJSON :: "(hm_error, hm_genesis) codec"
  hm_extraJSON :: "bytes \<Rightarrow> hm_error + (string \<times> OracleSource list) list"
  hm_sidecar :: "string \<Rightarrow> hm_error + int \<times> (hm_error + bytes)"
  hm_sidecarJSON :: "bytes \<Rightarrow> hm_error + sidecarResponse"
  hm_sudoJSON :: "HashMerchantSudoPayload \<Rightarrow> hm_error + bytes"
  hm_bech32 :: "string \<Rightarrow> hm_error + bytes"
  hm_GetModuleAccount :: "'x \<Rightarrow> 'x"
  hm_SendCoins :: "bytes \<Rightarrow> Coin \<Rightarrow> 'x \<Rightarrow> (hm_error + unit) \<times> 'x"
  hm_Sudo :: "bytes \<Rightarrow> bytes \<Rightarrow> ('s, 'x) world \<Rightarrow> (hm_error + unit) \<times> ('s, 'x) world"
  hm_ed25519 :: "bytes \<Rightarrow> bytes \<Rightarrow> bytes \<Rightarrow> bool"
  hm_sha256 :: "bytes \<Rightarrow> bytes"
  hm_Periods :: "int \<Rightarrow> int \<Rightarrow> hm_error + u64"
  hm_Threshold :: "int \<Rightarrow> i64 \<Rightarrow> hm_error + i64"
  hm_AddCoin :: "Coin \<Rightarrow> Coin \<Rightarrow> hm_error + Coin"

subsection \<open>Keys and parameters\<close>

definition KeyPrefixRegisteredChains :: bytes where "KeyPrefixRegisteredChains = [0x01]"
definition KeyPrefixRegisteredContracts :: bytes where "KeyPrefixRegisteredContracts = [0x02]"
definition KeyPrefixEscrow :: bytes where "KeyPrefixEscrow = [0x03]"
definition KeyPrefixHashRoots :: bytes where "KeyPrefixHashRoots = [0x04]"
definition KeyPrefixParams :: bytes where "KeyPrefixParams = [0x05]"
definition KeyPrefixPruneEpoch :: bytes where "KeyPrefixPruneEpoch = [0x06]"
definition oracleSourcesKeyPrefix :: bytes where "oracleSourcesKeyPrefix = [0x06]"

lemmas hm_prefix_defs = KeyPrefixRegisteredChains_def KeyPrefixRegisteredContracts_def KeyPrefixEscrow_def
  KeyPrefixHashRoots_def KeyPrefixParams_def KeyPrefixPruneEpoch_def oracleSourcesKeyPrefix_def

definition KeyRegisteredChain :: "string \<Rightarrow> bytes" where
  "KeyRegisteredChain chainUID = KeyPrefixRegisteredChains @ str chainUID"

definition KeyRegisteredContract :: "string \<Rightarrow> bytes" where
  "KeyRegisteredContract contractAddr = KeyPrefixRegisteredContracts @ str contractAddr"

definition KeyEscrow :: "string \<Rightarrow> bytes" where
  "KeyEscrow contractAddr = KeyPrefixEscrow @ str contractAddr"

definition KeyHashRoot :: "string \<Rightarrow> string \<Rightarrow> bytes" where
  "KeyHashRoot chainUID algo = KeyPrefixHashRoots @ str chainUID @ [0x7C] @ str algo"

definition oracleSourcesKey :: "string \<Rightarrow> bytes" where
  "oracleSourcesKey chainUID = oracleSourcesKeyPrefix @ str chainUID"

lemmas hm_key_defs = KeyRegisteredChain_def KeyRegisteredContract_def KeyEscrow_def KeyHashRoot_def oracleSourcesKey_def

definition DefaultParams :: Params where
  "DefaultParams = \<lparr>pr_QuorumFraction = 667 * 10 ^ 15, pr_PruneInterval = 1000, pr_EscrowDenom = ''uterp'',
     pr_MinEscrowAmount = 1000000, pr_MarketMode = MARKET_MODE_OPEN\<rparr>"

definition Params_Validate :: "Params \<Rightarrow> hm_error + unit" where
  "Params_Validate p =
    (if pr_QuorumFraction p < 0 \<or> pr_QuorumFraction p > 10 ^ 18 then Inl ErrInvalidParams
     else if pr_PruneInterval p = 0 then Inl ErrInvalidParams
     else if pr_EscrowDenom p = [] then Inl ErrInvalidParams
     else if pr_MinEscrowAmount p < 0 then Inl ErrInvalidParams
     else Inr ())"

subsection \<open>Store access\<close>

definition put :: "('s, 'x, 'z) HmEnv_scheme \<Rightarrow> (hm_error, 'a) codec \<Rightarrow> bytes \<Rightarrow> 'a \<Rightarrow> 's \<Rightarrow> (hm_error + unit) \<times> 's" where
  "put e c key v s = (case cd_Marshal c v of Inl err \<Rightarrow> (Inl err, s) | Inr bz \<Rightarrow> (Inr (), hm_Set e key bz s))"

definition fetch :: "('s, 'x, 'z) HmEnv_scheme \<Rightarrow> (hm_error, 'a) codec \<Rightarrow> hm_error \<Rightarrow> bytes \<Rightarrow> 's \<Rightarrow> hm_error + 'a" where
  "fetch e c missing key s = (case hm_Get e s key of None \<Rightarrow> Inl missing | Some bz \<Rightarrow> cd_Unmarshal c bz)"

text \<open>The entries under a prefix that unmarshal, in the order of the iterator.\<close>

definition entries :: "('s, 'x, 'z) HmEnv_scheme \<Rightarrow> (hm_error, 'a) codec \<Rightarrow> bytes \<Rightarrow> 's \<Rightarrow> 'a list" where
  "entries e c pfx s =
    List.map_filter (\<lambda>(k, bz). case cd_Unmarshal c bz of Inl _ \<Rightarrow> None | Inr v \<Rightarrow> Some v) (hm_Iter e pfx s)"

definition GetParams :: "('s, 'x) HmEnv \<Rightarrow> 's \<Rightarrow> hm_error + Params" where
  "GetParams e s = (case hm_Get e s KeyPrefixParams of None \<Rightarrow> Inr DefaultParams | Some bz \<Rightarrow> cd_Unmarshal (hm_params e) bz)"

definition SetParams :: "('s, 'x) HmEnv \<Rightarrow> Params \<Rightarrow> 's \<Rightarrow> (hm_error + unit) \<times> 's" where
  "SetParams e p s = put e (hm_params e) KeyPrefixParams p s"

definition SetRegisteredChain :: "('s, 'x) HmEnv \<Rightarrow> RegisteredChain \<Rightarrow> 's \<Rightarrow> (hm_error + unit) \<times> 's" where
  "SetRegisteredChain e c s = put e (hm_chain e) (KeyRegisteredChain (rg_ChainUid c)) c s"

definition GetRegisteredChain :: "('s, 'x) HmEnv \<Rightarrow> string \<Rightarrow> 's \<Rightarrow> hm_error + RegisteredChain" where
  "GetRegisteredChain e chainUID s = fetch e (hm_chain e) ErrChainNotFound (KeyRegisteredChain chainUID) s"

definition HasRegisteredChain :: "('s, 'x) HmEnv \<Rightarrow> string \<Rightarrow> 's \<Rightarrow> bool" where
  "HasRegisteredChain e chainUID s \<longleftrightarrow> hm_Get e s (KeyRegisteredChain chainUID) \<noteq> None"

definition IterateRegisteredChains :: "('s, 'x) HmEnv \<Rightarrow> 's \<Rightarrow> RegisteredChain list" where
  "IterateRegisteredChains e s = entries e (hm_chain e) KeyPrefixRegisteredChains s"

definition SetRegisteredContract :: "('s, 'x) HmEnv \<Rightarrow> RegisteredContract \<Rightarrow> 's \<Rightarrow> (hm_error + unit) \<times> 's" where
  "SetRegisteredContract e c s = put e (hm_contract e) (KeyRegisteredContract (ct_ContractAddr c)) c s"

definition GetRegisteredContract :: "('s, 'x) HmEnv \<Rightarrow> string \<Rightarrow> 's \<Rightarrow> hm_error + RegisteredContract" where
  "GetRegisteredContract e addr s = fetch e (hm_contract e) ErrContractNotFound (KeyRegisteredContract addr) s"

definition IterateRegisteredContracts :: "('s, 'x) HmEnv \<Rightarrow> 's \<Rightarrow> RegisteredContract list" where
  "IterateRegisteredContracts e s = entries e (hm_contract e) KeyPrefixRegisteredContracts s"

definition SetEscrowRecord :: "('s, 'x) HmEnv \<Rightarrow> EscrowRecord \<Rightarrow> 's \<Rightarrow> (hm_error + unit) \<times> 's" where
  "SetEscrowRecord e r s = put e (hm_escrow e) (KeyEscrow (er_ContractAddr r)) r s"

definition GetEscrowRecord :: "('s, 'x) HmEnv \<Rightarrow> string \<Rightarrow> 's \<Rightarrow> hm_error + EscrowRecord" where
  "GetEscrowRecord e addr s = fetch e (hm_escrow e) ErrEscrowNotFound (KeyEscrow addr) s"

definition IterateEscrowRecords :: "('s, 'x) HmEnv \<Rightarrow> 's \<Rightarrow> EscrowRecord list" where
  "IterateEscrowRecords e s = entries e (hm_escrow e) KeyPrefixEscrow s"

definition SetHashRoot :: "('s, 'x) HmEnv \<Rightarrow> HashRoot \<Rightarrow> 's \<Rightarrow> (hm_error + unit) \<times> 's" where
  "SetHashRoot e r s = put e (hm_root e) (KeyHashRoot (hr_ChainUid r) (hr_Algo r)) r s"

definition GetHashRoot :: "('s, 'x) HmEnv \<Rightarrow> string \<Rightarrow> string \<Rightarrow> 's \<Rightarrow> hm_error + HashRoot" where
  "GetHashRoot e chainUID algo s = fetch e (hm_root e) ErrHashRootNotFound (KeyHashRoot chainUID algo) s"

definition IterateHashRoots :: "('s, 'x) HmEnv \<Rightarrow> string \<Rightarrow> 's \<Rightarrow> HashRoot list" where
  "IterateHashRoots e chainUID s = entries e (hm_root e) (KeyPrefixHashRoots @ str chainUID @ [0x7C]) s"

definition iterateAllHashRoots :: "('s, 'x) HmEnv \<Rightarrow> 's \<Rightarrow> HashRoot list" where
  "iterateAllHashRoots e s = entries e (hm_root e) KeyPrefixHashRoots s"

text \<open>\<open>binary.BigEndian.Uint64\<close> panics on fewer than eight bytes.\<close>

definition GetPruneEpoch :: "('s, 'x) HmEnv \<Rightarrow> 's \<Rightarrow> hm_error + u64" where
  "GetPruneEpoch e s =
    (case hm_Get e s KeyPrefixPruneEpoch of
       None \<Rightarrow> Inr 0
     | Some bz \<Rightarrow> if length bz < 8 then Inl (HmPanic ''index out of range'') else Inr (GetU64 (take 8 bz)))"

definition SetPruneEpoch :: "('s, 'x) HmEnv \<Rightarrow> u64 \<Rightarrow> 's \<Rightarrow> 's" where
  "SetPruneEpoch e height s = hm_Set e KeyPrefixPruneEpoch (putU64 height) s"

definition SetOracleSources :: "('s, 'x) HmEnv \<Rightarrow> string \<Rightarrow> OracleSource list \<Rightarrow> 's \<Rightarrow> (hm_error + unit) \<times> 's" where
  "SetOracleSources e chainUID sources s = put e (hm_sources e) (oracleSourcesKey chainUID) sources s"

definition GetOracleSources :: "('s, 'x) HmEnv \<Rightarrow> string \<Rightarrow> 's \<Rightarrow> hm_error + OracleSource list" where
  "GetOracleSources e chainUID s =
    (case hm_Get e s (oracleSourcesKey chainUID) of None \<Rightarrow> Inr [] | Some bz \<Rightarrow> cd_Unmarshal (hm_sources e) bz)"

definition CreateModuleAccount :: "('s, 'x) HmEnv \<Rightarrow> ('s, 'x) world \<Rightarrow> ('s, 'x) world" where
  "CreateModuleAccount e w = w\<lparr>w_ext := hm_GetModuleAccount e (w_ext w)\<rparr>"

text \<open>A store operation run in the world.\<close>

definition on_store :: "('s \<Rightarrow> (hm_error + unit) \<times> 's) \<Rightarrow> ('s, 'x) world \<Rightarrow> (hm_error + unit) \<times> ('s, 'x) world" where
  "on_store f w = (case f (w_store w) of (r, s) \<Rightarrow> (r, w\<lparr>w_store := s\<rparr>))"

subsection \<open>Messages\<close>

record MsgRegisterChain =
  mc_Authority :: string
  mc_Chain :: RegisteredChain

record MsgRegisterContract =
  mr_Sender :: string
  mr_ContractAddr :: string
  mr_ChainUid :: string
  mr_SubstoreKeys :: "string list"
  mr_Escrow :: Coin

record MsgRefillEscrow =
  mf_Sender :: string
  mf_ContractAddr :: string
  mf_Amount :: Coin

record MsgUpdateParams =
  mu_Authority :: string
  mu_Params :: Params

definition RegisterChain_ValidateBasic :: "('s, 'x) HmEnv \<Rightarrow> MsgRegisterChain \<Rightarrow> hm_error + unit" where
  "RegisterChain_ValidateBasic e m =
    (case hm_bech32 e (mc_Authority m) of
       Inl _ \<Rightarrow> Inl ErrUnauthorized
     | Inr _ \<Rightarrow> if rg_ChainUid (mc_Chain m) = [] then Inl ErrInvalidChainUID else Inr ())"

definition RegisterContract_ValidateBasic :: "('s, 'x) HmEnv \<Rightarrow> MsgRegisterContract \<Rightarrow> hm_error + unit" where
  "RegisterContract_ValidateBasic e m =
    (case hm_bech32 e (mr_Sender m) of
       Inl _ \<Rightarrow> Inl ErrUnauthorized
     | Inr _ \<Rightarrow>
         if mr_ContractAddr m = [] then Inl ErrContractNotFound
         else if mr_ChainUid m = [] then Inl ErrInvalidChainUID
         else if \<not> 0 < cn_Amount (mr_Escrow m) then Inl ErrInsufficientEscrow
         else Inr ())"

definition RefillEscrow_ValidateBasic :: "('s, 'x) HmEnv \<Rightarrow> MsgRefillEscrow \<Rightarrow> hm_error + unit" where
  "RefillEscrow_ValidateBasic e m =
    (case hm_bech32 e (mf_Sender m) of
       Inl _ \<Rightarrow> Inl ErrUnauthorized
     | Inr _ \<Rightarrow>
         if mf_ContractAddr m = [] then Inl ErrContractNotFound
         else if \<not> 0 < cn_Amount (mf_Amount m) then Inl ErrInsufficientEscrow
         else Inr ())"

definition UpdateParams_ValidateBasic :: "('s, 'x) HmEnv \<Rightarrow> MsgUpdateParams \<Rightarrow> hm_error + unit" where
  "UpdateParams_ValidateBasic e m =
    (case hm_bech32 e (mu_Authority m) of Inl _ \<Rightarrow> Inl ErrUnauthorized | Inr _ \<Rightarrow> Params_Validate (mu_Params m))"

definition RegisterChain :: "('s, 'x) HmEnv \<Rightarrow> MsgRegisterChain \<Rightarrow> ('s, 'x) world \<Rightarrow> (hm_error + unit) \<times> ('s, 'x) world" where
  "RegisterChain e m w =
    (if hm_authority e \<noteq> mc_Authority m then (Inl ErrInvalidSigner, w)
     else if HasRegisteredChain e (rg_ChainUid (mc_Chain m)) (w_store w) then (Inl ErrChainAlreadyExists, w)
     else on_store (SetRegisteredChain e (mc_Chain m)) w)"

text \<open>The sender's address; the error of \<open>AccAddressFromBech32\<close> is dropped.\<close>

definition senderOf :: "('s, 'x) HmEnv \<Rightarrow> string \<Rightarrow> bytes" where
  "senderOf e a = (case hm_bech32 e a of Inl _ \<Rightarrow> [] | Inr b \<Rightarrow> b)"

definition RegisterContract ::
  "('s, 'x) HmEnv \<Rightarrow> i64 \<Rightarrow> MsgRegisterContract \<Rightarrow> ('s, 'x) world \<Rightarrow> (hm_error + unit) \<times> ('s, 'x) world" where
  "RegisterContract e blockHeight m w =
    (case GetRegisteredChain e (mr_ChainUid m) (w_store w) of
       Inl err \<Rightarrow> (Inl err, w)
     | Inr chain \<Rightarrow>
         if \<not> rg_Enabled chain then (Inl ErrChainDisabled, w)
         else (case GetParams e (w_store w) of
           Inl err \<Rightarrow> (Inl err, w)
         | Inr params \<Rightarrow>
             if cn_Denom (mr_Escrow m) \<noteq> pr_EscrowDenom params then (Inl ErrInsufficientEscrow, w)
             else if cn_Amount (mr_Escrow m) < pr_MinEscrowAmount params then (Inl ErrInsufficientEscrow, w)
             else (case hm_SendCoins e (senderOf e (mr_Sender m)) (mr_Escrow m) (w_ext w) of
               (Inl err, x) \<Rightarrow> (Inl err, w\<lparr>w_ext := x\<rparr>)
             | (Inr _, x) \<Rightarrow>
                 let w = w\<lparr>w_ext := x\<rparr>
                 in (case hm_Periods e (cn_Amount (mr_Escrow m)) (pr_MinEscrowAmount params) of
                   Inl err \<Rightarrow> (Inl err, w)
                 | Inr periods \<Rightarrow>
                     let paidUntil = blockHeight + periods * pr_PruneInterval params;
                         contract = \<lparr>ct_ContractAddr = mr_ContractAddr m, ct_ChainUid = mr_ChainUid m,
                                     ct_SubstoreKeys = mr_SubstoreKeys m, ct_Enabled = True\<rparr>;
                         escrow = \<lparr>er_ContractAddr = mr_ContractAddr m, er_Amount = mr_Escrow m,
                                   er_PaidUntilHeight = paidUntil, er_LastPruneHeight = 0\<rparr>
                     in (case on_store (SetRegisteredContract e contract) w of
                       (Inl err, w) \<Rightarrow> (Inl err, w)
                     | (Inr _, w) \<Rightarrow> on_store (SetEscrowRecord e escrow) w)))))"

definition RefillEscrow :: "('s, 'x) HmEnv \<Rightarrow> MsgRefillEscrow \<Rightarrow> ('s, 'x) world \<Rightarrow> (hm_error + unit) \<times> ('s, 'x) world" where
  "RefillEscrow e m w =
    (case GetEscrowRecord e (mf_ContractAddr m) (w_store w) of
       Inl err \<Rightarrow> (Inl err, w)
     | Inr rec \<Rightarrow>
         (case GetParams e (w_store w) of
           Inl err \<Rightarrow> (Inl err, w)
         | Inr params \<Rightarrow>
             if cn_Denom (mf_Amount m) \<noteq> pr_EscrowDenom params then (Inl ErrInsufficientEscrow, w)
             else (case hm_SendCoins e (senderOf e (mf_Sender m)) (mf_Amount m) (w_ext w) of
               (Inl err, x) \<Rightarrow> (Inl err, w\<lparr>w_ext := x\<rparr>)
             | (Inr _, x) \<Rightarrow>
                 let w = w\<lparr>w_ext := x\<rparr>
                 in (case hm_Periods e (cn_Amount (mf_Amount m)) (pr_MinEscrowAmount params) of
                   Inl err \<Rightarrow> (Inl err, w)
                 | Inr periods \<Rightarrow>
                     (case hm_AddCoin e (er_Amount rec) (mf_Amount m) of
                       Inl err \<Rightarrow> (Inl err, w)
                     | Inr amount \<Rightarrow>
                         on_store (SetEscrowRecord e (rec\<lparr>er_PaidUntilHeight := er_PaidUntilHeight rec + periods * pr_PruneInterval params,
                                                         er_Amount := amount\<rparr>)) w)))))"

definition UpdateParams :: "('s, 'x) HmEnv \<Rightarrow> MsgUpdateParams \<Rightarrow> ('s, 'x) world \<Rightarrow> (hm_error + unit) \<times> ('s, 'x) world" where
  "UpdateParams e m w =
    (if hm_authority e \<noteq> mu_Authority m then (Inl ErrInvalidSigner, w)
     else case Params_Validate (mu_Params m) of
       Inl err \<Rightarrow> (Inl err, w)
     | Inr _ \<Rightarrow> on_store (SetParams e (mu_Params m)) w)"

subsection \<open>End of block\<close>

fun disableAll :: "('s, 'x) HmEnv \<Rightarrow> string list \<Rightarrow> 's \<Rightarrow> 's" where
  "disableAll e [] s = s"
| "disableAll e (addr # rest) s =
    (case GetRegisteredContract e addr s of
       Inl _ \<Rightarrow> disableAll e rest s
     | Inr contract \<Rightarrow> disableAll e rest (snd (SetRegisteredContract e (contract\<lparr>ct_Enabled := False\<rparr>) s)))"

definition pruneExpiredEscrows :: "('s, 'x) HmEnv \<Rightarrow> u64 \<Rightarrow> 's \<Rightarrow> 's" where
  "pruneExpiredEscrows e currentHeight s =
    (let toDisable = map er_ContractAddr (filter (\<lambda>r. er_PaidUntilHeight r < currentHeight) (IterateEscrowRecords e s))
     in disableAll e toDisable s)"

text \<open>The subtraction of the last prune height is unsigned and wraps.\<close>

definition EndBlocker_hm :: "('s, 'x) HmEnv \<Rightarrow> i64 \<Rightarrow> ('s, 'x) world \<Rightarrow> (hm_error + unit) \<times> ('s, 'x) world" where
  "EndBlocker_hm e blockHeight w =
    (case GetParams e (w_store w) of
       Inl err \<Rightarrow> (Inl err, w)
     | Inr params \<Rightarrow>
         (case GetPruneEpoch e (w_store w) of
           Inl err \<Rightarrow> (Inl err, w)
         | Inr lastPrune \<Rightarrow>
             if pr_PruneInterval params \<le> blockHeight - lastPrune
             then (Inr (), w\<lparr>w_store := SetPruneEpoch e blockHeight (pruneExpiredEscrows e blockHeight (w_store w))\<rparr>)
             else (Inr (), w)))"

subsection \<open>Queries\<close>

text \<open>A request is \<open>None\<close> when its pointer is nil.\<close>

definition query_RegisteredChain :: "('s, 'x) HmEnv \<Rightarrow> string option \<Rightarrow> 's \<Rightarrow> hm_error + RegisteredChain" where
  "query_RegisteredChain e req s =
    (case req of
       None \<Rightarrow> Inl (HmErrorf ''chain_uid required'')
     | Some uid \<Rightarrow> if uid = [] then Inl (HmErrorf ''chain_uid required'') else GetRegisteredChain e uid s)"

definition query_RegisteredContract :: "('s, 'x) HmEnv \<Rightarrow> string option \<Rightarrow> 's \<Rightarrow> hm_error + RegisteredContract" where
  "query_RegisteredContract e req s =
    (case req of
       None \<Rightarrow> Inl (HmErrorf ''contract_addr required'')
     | Some addr \<Rightarrow> if addr = [] then Inl (HmErrorf ''contract_addr required'') else GetRegisteredContract e addr s)"

definition query_HashRoot :: "('s, 'x) HmEnv \<Rightarrow> (string \<times> string) option \<Rightarrow> 's \<Rightarrow> hm_error + HashRoot" where
  "query_HashRoot e req s =
    (case req of
       None \<Rightarrow> Inl (HmErrorf ''chain_uid and algo required'')
     | Some (uid, algo) \<Rightarrow>
         if uid = [] \<or> algo = [] then Inl (HmErrorf ''chain_uid and algo required'') else GetHashRoot e uid algo s)"

definition query_HashRoots :: "('s, 'x) HmEnv \<Rightarrow> string option \<Rightarrow> 's \<Rightarrow> hm_error + HashRoot list" where
  "query_HashRoots e req s =
    (case req of
       None \<Rightarrow> Inl (HmErrorf ''chain_uid required'')
     | Some uid \<Rightarrow> if uid = [] then Inl (HmErrorf ''chain_uid required'') else Inr (IterateHashRoots e uid s))"

definition query_Escrow :: "('s, 'x) HmEnv \<Rightarrow> string option \<Rightarrow> 's \<Rightarrow> hm_error + EscrowRecord" where
  "query_Escrow e req s =
    (case req of
       None \<Rightarrow> Inl (HmErrorf ''contract_addr required'')
     | Some addr \<Rightarrow> if addr = [] then Inl (HmErrorf ''contract_addr required'') else GetEscrowRecord e addr s)"

subsection \<open>Genesis\<close>

definition DefaultGenesis_hm :: hm_genesis where
  "DefaultGenesis_hm = \<lparr>hg_Params = DefaultParams, hg_RegisteredChains = [], hg_RegisteredContracts = [],
     hg_EscrowRecords = [], hg_HashRoots = [], hg_PruneEpoch = 0\<rparr>"

fun checkChains :: "string list \<Rightarrow> RegisteredChain list \<Rightarrow> hm_error + unit" where
  "checkChains seen [] = Inr ()"
| "checkChains seen (c # cs) =
    (if rg_ChainUid c = [] then Inl ErrInvalidChainUID
     else if rg_ChainUid c \<in> set seen then Inl ErrChainAlreadyExists
     else checkChains (rg_ChainUid c # seen) cs)"

definition Genesis_Validate :: "hm_genesis \<Rightarrow> hm_error + unit" where
  "Genesis_Validate gs =
    (case Params_Validate (hg_Params gs) of
       Inl err \<Rightarrow> Inl err
     | Inr _ \<Rightarrow> checkChains [] (hg_RegisteredChains gs))"

fun each :: "('a \<Rightarrow> 's \<Rightarrow> (hm_error + unit) \<times> 's) \<Rightarrow> 'a list \<Rightarrow> 's \<Rightarrow> (hm_error + unit) \<times> 's" where
  "each f [] s = (Inr (), s)"
| "each f (x # xs) s = (case f x s of (Inl err, s) \<Rightarrow> (Inl err, s) | (Inr _, s) \<Rightarrow> each f xs s)"

text \<open>One chain of the genesis; nil pointers among its sources are skipped.\<close>

definition initChain :: "('s, 'x) HmEnv \<Rightarrow> RegisteredChain \<Rightarrow> 's \<Rightarrow> (hm_error + unit) \<times> 's" where
  "initChain e c s =
    (case SetRegisteredChain e c s of
       (Inl err, s) \<Rightarrow> (Inl err, s)
     | (Inr _, s) \<Rightarrow>
         if length (rg_OracleSources c) > 0
         then SetOracleSources e (rg_ChainUid c) (List.map_filter id (rg_OracleSources c)) s
         else (Inr (), s))"

definition InitGenesis_hm :: "('s, 'x) HmEnv \<Rightarrow> hm_genesis \<Rightarrow> ('s, 'x) world \<Rightarrow> (hm_error + unit) \<times> ('s, 'x) world" where
  "InitGenesis_hm e gs w =
    (case SetParams e (hg_Params gs) (w_store w) of
       (Inl err, s) \<Rightarrow> (Inl (HmPanic ''genesis''), w\<lparr>w_store := s\<rparr>)
     | (Inr _, s) \<Rightarrow> (case each (initChain e) (hg_RegisteredChains gs) s of
       (Inl err, s) \<Rightarrow> (Inl (HmPanic ''genesis''), w\<lparr>w_store := s\<rparr>)
     | (Inr _, s) \<Rightarrow> (case each (SetRegisteredContract e) (hg_RegisteredContracts gs) s of
       (Inl err, s) \<Rightarrow> (Inl (HmPanic ''genesis''), w\<lparr>w_store := s\<rparr>)
     | (Inr _, s) \<Rightarrow> (case each (SetEscrowRecord e) (hg_EscrowRecords gs) s of
       (Inl err, s) \<Rightarrow> (Inl (HmPanic ''genesis''), w\<lparr>w_store := s\<rparr>)
     | (Inr _, s) \<Rightarrow> (case each (SetHashRoot e) (hg_HashRoots gs) s of
       (Inl err, s) \<Rightarrow> (Inl (HmPanic ''genesis''), w\<lparr>w_store := s\<rparr>)
     | (Inr _, s) \<Rightarrow> (Inr (), CreateModuleAccount e (w\<lparr>w_store := SetPruneEpoch e (hg_PruneEpoch gs) s\<rparr>)))))))"

text \<open>The zero value of the parameters, which \<open>ExportGenesis\<close> uses when reading them fails.\<close>

definition zeroParams :: Params where
  "zeroParams = \<lparr>pr_QuorumFraction = 0, pr_PruneInterval = 0, pr_EscrowDenom = [], pr_MinEscrowAmount = 0,
     pr_MarketMode = MARKET_MODE_UNSPECIFIED\<rparr>"

definition ExportGenesis_hm :: "('s, 'x) HmEnv \<Rightarrow> 's \<Rightarrow> hm_error + hm_genesis" where
  "ExportGenesis_hm e s =
    (case GetPruneEpoch e s of
       Inl err \<Rightarrow> Inl err
     | Inr epoch \<Rightarrow>
         Inr \<lparr>hg_Params = (case GetParams e s of Inl _ \<Rightarrow> zeroParams | Inr p \<Rightarrow> p),
              hg_RegisteredChains = IterateRegisteredChains e s,
              hg_RegisteredContracts = IterateRegisteredContracts e s,
              hg_EscrowRecords = IterateEscrowRecords e s,
              hg_HashRoots = iterateAllHashRoots e s,
              hg_PruneEpoch = epoch\<rparr>)"

text \<open>
  The genesis entry point of the module: the JSON state, then the optional map of oracle sources in
  the iteration order \<open>ord\<close>.
\<close>

definition AppModule_InitGenesis_hm ::
  "('s, 'x) HmEnv \<Rightarrow> ((string \<times> OracleSource list) list \<Rightarrow> (string \<times> OracleSource list) list) \<Rightarrow> bytes \<Rightarrow>
   ('s, 'x) world \<Rightarrow> (hm_error + unit) \<times> ('s, 'x) world" where
  "AppModule_InitGenesis_hm e ord gs w =
    (case cd_Unmarshal (hm_genesisJSON e) gs of
       Inl err \<Rightarrow> (Inl (HmPanic ''genesis''), w)
     | Inr genState \<Rightarrow> (case InitGenesis_hm e genState w of
       (Inl err, w) \<Rightarrow> (Inl err, w)
     | (Inr _, w) \<Rightarrow> (case hm_extraJSON e gs of
       Inl _ \<Rightarrow> (Inr (), w)
     | Inr extra \<Rightarrow> (case on_store (each (\<lambda>(uid, sources). SetOracleSources e uid sources) (ord extra)) w of
       (Inl err, w) \<Rightarrow> (Inl (HmPanic ''genesis''), w)
     | (Inr _, w) \<Rightarrow> (Inr (), w)))))"

definition AppModule_ExportGenesis_hm :: "('s, 'x) HmEnv \<Rightarrow> 's \<Rightarrow> hm_error + bytes" where
  "AppModule_ExportGenesis_hm e s =
    (case ExportGenesis_hm e s of
       Inl err \<Rightarrow> Inl err
     | Inr gs \<Rightarrow> (case cd_Marshal (hm_genesisJSON e) gs of Inl _ \<Rightarrow> Inl (HmPanic ''genesis'') | Inr bz \<Rightarrow> Inr bz))"

end
