(* ===== verification/Hash_Laws.thy ===== *)
theory Hash_Laws
  imports Hash_Merchant
begin

text \<open>
  The laws the SDK promises to \<open>x/hashmerchant\<close>, the invariant that every record is stored under its own
  key, what each message and the pruning at the end of a block change, and a concrete environment.
\<close>

subsection \<open>What the SDK promises\<close>

definition sdk_store :: "('s, 'x) HmEnv \<Rightarrow> bool" where
  "sdk_store e \<longleftrightarrow> kv_laws (hm_Get e) (hm_Set e) (hm_Iter e)"

definition codecs_ok :: "('s, 'x) HmEnv \<Rightarrow> bool" where
  "codecs_ok e \<longleftrightarrow> codec_ok (hm_params e) \<and> codec_ok (hm_chain e) \<and> codec_ok (hm_contract e) \<and>
     codec_ok (hm_escrow e) \<and> codec_ok (hm_root e) \<and> codec_ok (hm_sources e)"

lemma sdk_storeD:
  assumes "sdk_store e"
  shows "hm_Get e (hm_Set e k v s) k' = (if k' = k then Some v else hm_Get e s k')"
    "(k, v) \<in> set (hm_Iter e p s) \<longleftrightarrow> hm_Get e s k = Some v \<and> HasPrefix k p"
  using assms by (auto simp: sdk_store_def kv_laws_def)

lemma put_result:
  assumes "put e c k v s = (r, s')"
  obtains (ok) b where "cd_Marshal c v = Inr b" "r = Inr ()" "s' = hm_Set e k b s"
  | (error) err where "r = Inl err" "s' = s"
  using assms by (auto simp: put_def split: sum.splits)

lemma put_frame: "sdk_store e \<Longrightarrow> put e c k v s = (r, s') \<Longrightarrow> k' \<noteq> k \<Longrightarrow> hm_Get e s' k' = hm_Get e s k'"
  by (erule put_result) (simp_all add: sdk_storeD)

lemma put_fetch: "sdk_store e \<Longrightarrow> codec_ok c \<Longrightarrow> put e c k v s = (Inr u, s') \<Longrightarrow> fetch e c m k s' = Inr v"
  by (erule put_result) (simp_all add: sdk_storeD fetch_def codec_ok_def)

subsection \<open>Every record is stored under its own key\<close>

definition keyed :: "('s, 'x) HmEnv \<Rightarrow> (hm_error, 'a) codec \<Rightarrow> bytes \<Rightarrow> ('a \<Rightarrow> bytes) \<Rightarrow> 's \<Rightarrow> bool" where
  "keyed e c p key s \<longleftrightarrow>
    (\<forall>k b x. hm_Get e s k = Some b \<and> HasPrefix k p \<and> cd_Unmarshal c b = Inr x \<longrightarrow> key x = k)"

lemma keyed_set:
  "sdk_store e \<Longrightarrow> keyed e c p key s \<Longrightarrow> (\<And>x. HasPrefix k p \<Longrightarrow> cd_Unmarshal c b = Inr x \<Longrightarrow> key x = k) \<Longrightarrow>
   keyed e c p key (hm_Set e k b s)"
  by (auto simp: keyed_def sdk_storeD split: if_splits)

lemma keyed_put:
  "sdk_store e \<Longrightarrow> codec_ok c \<Longrightarrow> keyed e c p key s \<Longrightarrow> put e c (key v) v s = (r, s') \<Longrightarrow> keyed e c p key s'"
  by (erule put_result) (auto intro!: keyed_set simp: codec_ok_def)

lemma keyed_put_other:
  "sdk_store e \<Longrightarrow> keyed e c p key s \<Longrightarrow> put e c' k v s = (r, s') \<Longrightarrow> \<not> HasPrefix k p \<Longrightarrow> keyed e c p key s'"
  by (erule put_result) (auto intro!: keyed_set)

abbreviation "chain_key c \<equiv> KeyRegisteredChain (rg_ChainUid c)"
abbreviation "contract_key c \<equiv> KeyRegisteredContract (ct_ContractAddr c)"
abbreviation "escrow_key r \<equiv> KeyEscrow (er_ContractAddr r)"
abbreviation "root_key r \<equiv> KeyHashRoot (hr_ChainUid r) (hr_Algo r)"

definition hm_inv :: "('s, 'x) HmEnv \<Rightarrow> 's \<Rightarrow> bool" where
  "hm_inv e s \<longleftrightarrow>
    keyed e (hm_chain e) KeyPrefixRegisteredChains (\<lambda>c. chain_key c) s \<and>
    keyed e (hm_contract e) KeyPrefixRegisteredContracts (\<lambda>c. contract_key c) s \<and>
    keyed e (hm_escrow e) KeyPrefixEscrow (\<lambda>r. escrow_key r) s \<and>
    keyed e (hm_root e) KeyPrefixHashRoots (\<lambda>r. root_key r) s"

lemma HasPrefix_hm [simp]:
  "HasPrefix (KeyRegisteredChain a) [n] \<longleftrightarrow> n = 1" "HasPrefix (KeyRegisteredContract a) [n] \<longleftrightarrow> n = 2"
  "HasPrefix (KeyEscrow a) [n] \<longleftrightarrow> n = 3" "HasPrefix (KeyHashRoot a b) [n] \<longleftrightarrow> n = 4"
  "HasPrefix (oracleSourcesKey a) [n] \<longleftrightarrow> n = 6" "HasPrefix [m] [n] \<longleftrightarrow> n = m"
  by (auto simp: HasPrefix_def hm_key_defs hm_prefix_defs)

lemma hm_key_inject [simp]:
  "KeyRegisteredChain a = KeyRegisteredChain b \<longleftrightarrow> a = b" "KeyRegisteredContract a = KeyRegisteredContract b \<longleftrightarrow> a = b"
  "KeyEscrow a = KeyEscrow b \<longleftrightarrow> a = b" "oracleSourcesKey a = oracleSourcesKey b \<longleftrightarrow> a = b"
  by (simp_all add: hm_key_defs)

lemma hm_inv_put:
  assumes sdk: "sdk_store e" and ok: "codecs_ok e" and inv: "hm_inv e s"
  shows "SetParams e p s = (r, s') \<Longrightarrow> hm_inv e s'"
    "SetRegisteredChain e c s = (r, s') \<Longrightarrow> hm_inv e s'"
    "SetRegisteredContract e ct s = (r, s') \<Longrightarrow> hm_inv e s'"
    "SetEscrowRecord e er s = (r, s') \<Longrightarrow> hm_inv e s'"
    "SetHashRoot e hr s = (r, s') \<Longrightarrow> hm_inv e s'"
    "SetOracleSources e uid srcs s = (r, s') \<Longrightarrow> hm_inv e s'"
    "hm_inv e (SetPruneEpoch e h s)"
proof -
  note other = keyed_put_other [OF sdk] and own = keyed_put [OF sdk]
  note defs = hm_inv_def hm_prefix_defs SetParams_def SetRegisteredChain_def SetRegisteredContract_def
    SetEscrowRecord_def SetHashRoot_def SetOracleSources_def
  show "SetParams e p s = (r, s') \<Longrightarrow> hm_inv e s'" "SetOracleSources e uid srcs s = (r, s') \<Longrightarrow> hm_inv e s'"
    using inv by (auto simp: defs elim: other)
  show "SetRegisteredChain e c s = (r, s') \<Longrightarrow> hm_inv e s'"
    using inv ok own [where key = "\<lambda>c. chain_key c"] by (auto simp: defs codecs_ok_def elim: other)
  show "SetRegisteredContract e ct s = (r, s') \<Longrightarrow> hm_inv e s'"
    using inv ok own [where key = "\<lambda>c. contract_key c"] by (auto simp: defs codecs_ok_def elim: other)
  show "SetEscrowRecord e er s = (r, s') \<Longrightarrow> hm_inv e s'"
    using inv ok own [where key = "\<lambda>c. escrow_key c"] by (auto simp: defs codecs_ok_def elim: other)
  show "SetHashRoot e hr s = (r, s') \<Longrightarrow> hm_inv e s'"
    using inv ok own [where key = "\<lambda>c. root_key c"] by (auto simp: defs codecs_ok_def elim: other)
  show "hm_inv e (SetPruneEpoch e h s)"
    using inv unfolding hm_inv_def SetPruneEpoch_def by (auto intro!: keyed_set [OF sdk] simp: hm_prefix_defs)
qed

subsection \<open>What each message changes\<close>

lemma RegisterChain_success:
  assumes "RegisterChain e m w = (Inr u, w')"
  obtains s where "hm_authority e = mc_Authority m" "\<not> HasRegisteredChain e (rg_ChainUid (mc_Chain m)) (w_store w)"
    "SetRegisteredChain e (mc_Chain m) (w_store w) = (Inr u, s)" "w' = w\<lparr>w_store := s\<rparr>"
  using assms by (auto simp: RegisterChain_def on_store_def split: if_splits prod.splits)

definition newContract :: "MsgRegisterContract \<Rightarrow> RegisteredContract" where
  "newContract m = \<lparr>ct_ContractAddr = mr_ContractAddr m, ct_ChainUid = mr_ChainUid m,
     ct_SubstoreKeys = mr_SubstoreKeys m, ct_Enabled = True\<rparr>"

definition newEscrow :: "MsgRegisterContract \<Rightarrow> u64 \<Rightarrow> EscrowRecord" where
  "newEscrow m paid = \<lparr>er_ContractAddr = mr_ContractAddr m, er_Amount = mr_Escrow m, er_PaidUntilHeight = paid,
     er_LastPruneHeight = 0\<rparr>"

lemma RegisterContract_success:
  assumes "RegisterContract e h m w = (Inr u, w')"
  obtains chain p x n s1 s2 where
    "GetRegisteredChain e (mr_ChainUid m) (w_store w) = Inr chain" "rg_Enabled chain" "GetParams e (w_store w) = Inr p"
    "cn_Denom (mr_Escrow m) = pr_EscrowDenom p" "pr_MinEscrowAmount p \<le> cn_Amount (mr_Escrow m)"
    "hm_SendCoins e (senderOf e (mr_Sender m)) (mr_Escrow m) (w_ext w) = (Inr (), x)"
    "hm_Periods e (cn_Amount (mr_Escrow m)) (pr_MinEscrowAmount p) = Inr n"
    "SetRegisteredContract e (newContract m) (w_store w) = (Inr (), s1)"
    "SetEscrowRecord e (newEscrow m (h + n * pr_PruneInterval p)) s1 = (Inr (), s2)"
    "w' = \<lparr>w_store = s2, w_ext = x\<rparr>"
  using assms
  by (auto simp: RegisterContract_def on_store_def Let_def newContract_def newEscrow_def
      split: if_splits prod.splits sum.splits)

lemma RefillEscrow_success:
  assumes "RefillEscrow e m w = (Inr u, w')"
  obtains r p x n a s where
    "GetEscrowRecord e (mf_ContractAddr m) (w_store w) = Inr r" "GetParams e (w_store w) = Inr p"
    "cn_Denom (mf_Amount m) = pr_EscrowDenom p"
    "hm_SendCoins e (senderOf e (mf_Sender m)) (mf_Amount m) (w_ext w) = (Inr (), x)"
    "hm_Periods e (cn_Amount (mf_Amount m)) (pr_MinEscrowAmount p) = Inr n"
    "hm_AddCoin e (er_Amount r) (mf_Amount m) = Inr a"
    "SetEscrowRecord e (r\<lparr>er_PaidUntilHeight := er_PaidUntilHeight r + n * pr_PruneInterval p, er_Amount := a\<rparr>)
       (w_store w) = (Inr (), s)"
    "w' = \<lparr>w_store = s, w_ext = x\<rparr>"
  using assms by (auto simp: RefillEscrow_def on_store_def Let_def split: if_splits prod.splits sum.splits)

lemma UpdateParams_success:
  assumes "UpdateParams e m w = (Inr u, w')"
  obtains s where "hm_authority e = mu_Authority m" "Params_Validate (mu_Params m) = Inr ()"
    "SetParams e (mu_Params m) (w_store w) = (Inr u, s)" "w' = w\<lparr>w_store := s\<rparr>"
  using assms by (auto simp: UpdateParams_def on_store_def split: if_splits prod.splits sum.splits)

text \<open>
  The messages that reach the module and, between them, what other modules do to their own state.  A
  message that fails is rolled back by the SDK and is no step.
\<close>

inductive msg_step :: "('s, 'x) HmEnv \<Rightarrow> ('s, 'x) world \<Rightarrow> ('s, 'x) world \<Rightarrow> bool" for e where
  RegisterChain: "RegisterChain e m w = (Inr (), w') \<Longrightarrow> msg_step e w w'"
| RegisterContract: "RegisterContract e h m w = (Inr (), w') \<Longrightarrow> msg_step e w w'"
| RefillEscrow: "RefillEscrow e m w = (Inr (), w') \<Longrightarrow> msg_step e w w'"
| UpdateParams: "UpdateParams e m w = (Inr (), w') \<Longrightarrow> msg_step e w w'"
| elsewhere: "msg_step e w (w\<lparr>w_ext := x\<rparr>)"

inductive_cases msg_stepE: "msg_step e w w'"

lemma msg_step_inv:
  assumes "sdk_store e" "codecs_ok e" "msg_step e w w'" "hm_inv e (w_store w)"
  shows "hm_inv e (w_store w')"
  using assms(3)
proof cases
  case (RegisterChain m)
  then show ?thesis using hm_inv_put(2) [OF assms(1,2,4)] by (auto elim!: RegisterChain_success)
next
  case (RegisterContract h m)
  then show ?thesis
  proof (rule RegisterContract_success)
    fix n p s1 s2 x
    assume s1: "SetRegisteredContract e (newContract m) (w_store w) = (Inr (), s1)"
      and s2: "SetEscrowRecord e (newEscrow m (h + n * pr_PruneInterval p)) s1 = (Inr (), s2)"
      and w': "w' = \<lparr>w_store = s2, w_ext = x\<rparr>"
    show ?thesis using hm_inv_put(4) [OF assms(1,2) hm_inv_put(3) [OF assms(1,2,4) s1] s2] w' by simp
  qed
next
  case (RefillEscrow m)
  then show ?thesis using hm_inv_put(4) [OF assms(1,2,4)] by (auto elim!: RefillEscrow_success)
next
  case (UpdateParams m)
  then show ?thesis using hm_inv_put(1) [OF assms(1,2,4)] by (auto elim!: UpdateParams_success)
next
  case (elsewhere x)
  then show ?thesis using assms(4) by simp
qed

lemma setters_frame:
  assumes "sdk_store e"
  shows "SetParams e p s = (r, s') \<Longrightarrow> k \<noteq> KeyPrefixParams \<Longrightarrow> hm_Get e s' k = hm_Get e s k"
    "SetRegisteredChain e c s = (r, s') \<Longrightarrow> k \<noteq> chain_key c \<Longrightarrow> hm_Get e s' k = hm_Get e s k"
    "SetRegisteredContract e ct s = (r, s') \<Longrightarrow> k \<noteq> contract_key ct \<Longrightarrow> hm_Get e s' k = hm_Get e s k"
    "SetEscrowRecord e er s = (r, s') \<Longrightarrow> k \<noteq> escrow_key er \<Longrightarrow> hm_Get e s' k = hm_Get e s k"
    "SetHashRoot e hr s = (r, s') \<Longrightarrow> k \<noteq> root_key hr \<Longrightarrow> hm_Get e s' k = hm_Get e s k"
    "SetOracleSources e uid srcs s = (r, s') \<Longrightarrow> k \<noteq> oracleSourcesKey uid \<Longrightarrow> hm_Get e s' k = hm_Get e s k"
    "k \<noteq> KeyPrefixPruneEpoch \<Longrightarrow> hm_Get e (SetPruneEpoch e h s) k = hm_Get e s k"
  using put_frame [OF assms] assms
  by (simp_all add: SetParams_def SetRegisteredChain_def SetRegisteredContract_def SetEscrowRecord_def SetHashRoot_def
      SetOracleSources_def SetPruneEpoch_def sdk_storeD)

lemma setters_read:
  assumes "sdk_store e" "codecs_ok e"
  shows "SetRegisteredChain e c s = (Inr u, s') \<Longrightarrow> GetRegisteredChain e (rg_ChainUid c) s' = Inr c"
    "SetRegisteredContract e ct s = (Inr u, s') \<Longrightarrow> GetRegisteredContract e (ct_ContractAddr ct) s' = Inr ct"
    "SetEscrowRecord e er s = (Inr u, s') \<Longrightarrow> GetEscrowRecord e (er_ContractAddr er) s' = Inr er"
    "SetHashRoot e hr s = (Inr u, s') \<Longrightarrow> GetHashRoot e (hr_ChainUid hr) (hr_Algo hr) s' = Inr hr"
  using put_fetch [OF assms(1)] assms(2)
  by (auto simp: codecs_ok_def SetRegisteredChain_def SetRegisteredContract_def SetEscrowRecord_def SetHashRoot_def
      GetRegisteredChain_def GetRegisteredContract_def GetEscrowRecord_def GetHashRoot_def)

lemma hm_keys_differ [simp]:
  "KeyRegisteredChain a \<noteq> KeyRegisteredContract b" "KeyRegisteredChain a \<noteq> KeyEscrow b" "KeyRegisteredChain a \<noteq> KeyHashRoot b d"
  "KeyRegisteredContract a \<noteq> KeyRegisteredChain b" "KeyRegisteredContract a \<noteq> KeyEscrow b" "KeyRegisteredContract a \<noteq> KeyHashRoot b d"
  "KeyEscrow a \<noteq> KeyRegisteredChain b" "KeyEscrow a \<noteq> KeyRegisteredContract b" "KeyEscrow a \<noteq> KeyHashRoot b d"
  "KeyHashRoot b d \<noteq> KeyRegisteredChain a" "KeyHashRoot b d \<noteq> KeyRegisteredContract a" "KeyHashRoot b d \<noteq> KeyEscrow a"
  "oracleSourcesKey a \<noteq> KeyRegisteredChain b" "oracleSourcesKey a \<noteq> KeyRegisteredContract b" "oracleSourcesKey a \<noteq> KeyEscrow b"
  "oracleSourcesKey a \<noteq> KeyHashRoot b d" "oracleSourcesKey a \<noteq> KeyPrefixParams"
  "KeyRegisteredChain a \<noteq> KeyPrefixParams" "KeyRegisteredContract a \<noteq> KeyPrefixParams" "KeyEscrow a \<noteq> KeyPrefixParams"
  "KeyHashRoot b d \<noteq> KeyPrefixParams" "KeyPrefixParams \<noteq> KeyRegisteredContract a" "KeyPrefixParams \<noteq> KeyEscrow a"
  "KeyRegisteredChain a \<noteq> KeyPrefixPruneEpoch" "KeyRegisteredContract a \<noteq> KeyPrefixPruneEpoch"
  "KeyEscrow a \<noteq> KeyPrefixPruneEpoch" "KeyHashRoot b d \<noteq> KeyPrefixPruneEpoch" "KeyPrefixParams \<noteq> KeyPrefixPruneEpoch"
  "KeyPrefixPruneEpoch \<noteq> KeyRegisteredContract a"
  by (simp_all add: hm_key_defs hm_prefix_defs)

text \<open>No message writes a confirmed root.\<close>

lemma msg_step_roots:
  assumes sdk: "sdk_store e" and step: "msg_step e w w'"
  shows "hm_Get e (w_store w') (KeyHashRoot uid algo) = hm_Get e (w_store w) (KeyHashRoot uid algo)"
  using step
  by cases (auto simp: setters_frame [OF sdk] newContract_def newEscrow_def
      elim!: RegisterChain_success RegisterContract_success RefillEscrow_success UpdateParams_success)

subsection \<open>Pruning\<close>

lemma entries_iff:
  "sdk_store e \<Longrightarrow> x \<in> set (entries e c p s) \<longleftrightarrow>
   (\<exists>k b. hm_Get e s k = Some b \<and> HasPrefix k p \<and> cd_Unmarshal c b = Inr x)"
  unfolding entries_def set_map_filter_iff
  by (auto simp: sdk_storeD split: sum.splits intro!: bexI [where x = "(k, b)" for k b]) blast

lemma own_prefix: "HasPrefix (KeyEscrow a) KeyPrefixEscrow" "HasPrefix (KeyRegisteredContract a) KeyPrefixRegisteredContracts"
  by (simp_all add: hm_prefix_defs)

lemma keyed_fetch: "keyed e c p key s \<Longrightarrow> HasPrefix k p \<Longrightarrow> fetch e c m k s = Inr x \<Longrightarrow> key x = k"
  by (auto simp: keyed_def fetch_def split: option.splits)

lemma hm_inv_contract: "hm_inv e s \<Longrightarrow> GetRegisteredContract e a s = Inr c \<Longrightarrow> ct_ContractAddr c = a"
  using keyed_fetch [where key = "\<lambda>c. contract_key c" and k = "KeyRegisteredContract a"] own_prefix(2) [of a]
  by (fastforce simp: hm_inv_def GetRegisteredContract_def)

lemma hm_inv_escrow: "hm_inv e s \<Longrightarrow> GetEscrowRecord e a s = Inr r \<Longrightarrow> er_ContractAddr r = a"
  using keyed_fetch [where key = "\<lambda>c. escrow_key c" and k = "KeyEscrow a"] own_prefix(1) [of a]
  by (fastforce simp: hm_inv_def GetEscrowRecord_def)

definition expired :: "('s, 'x) HmEnv \<Rightarrow> u64 \<Rightarrow> 's \<Rightarrow> string \<Rightarrow> bool" where
  "expired e h s addr = (case GetEscrowRecord e addr s of Inl _ \<Rightarrow> False | Inr r \<Rightarrow> er_PaidUntilHeight r < h)"

lemma expired_iff:
  assumes sdk: "sdk_store e" and inv: "hm_inv e s"
  shows "addr \<in> set (map er_ContractAddr (filter (\<lambda>r. er_PaidUntilHeight r < h) (IterateEscrowRecords e s))) \<longleftrightarrow> expired e h s addr"
proof -
  have key: "KeyEscrow (er_ContractAddr r) = k"
    if "hm_Get e s k = Some b" "HasPrefix k KeyPrefixEscrow" "cd_Unmarshal (hm_escrow e) b = Inr r" for k b r
    using inv that by (auto simp: hm_inv_def keyed_def)
  show ?thesis
  proof
    assume "addr \<in> set (map er_ContractAddr (filter (\<lambda>r. er_PaidUntilHeight r < h) (IterateEscrowRecords e s)))"
    then show "expired e h s addr"
      using key by (fastforce simp: IterateEscrowRecords_def entries_iff [OF sdk] expired_def GetEscrowRecord_def fetch_def)
  next
    assume "expired e h s addr"
    then obtain b r where "hm_Get e s (KeyEscrow addr) = Some b" "cd_Unmarshal (hm_escrow e) b = Inr r" "er_PaidUntilHeight r < h"
      by (auto simp: expired_def GetEscrowRecord_def fetch_def split: sum.splits option.splits)
    moreover from this have "er_ContractAddr r = addr" using key [of "KeyEscrow addr" b r] own_prefix(1) by simp
    ultimately show "addr \<in> set (map er_ContractAddr (filter (\<lambda>r. er_PaidUntilHeight r < h) (IterateEscrowRecords e s)))"
      using own_prefix(1) by (force simp: IterateEscrowRecords_def entries_iff [OF sdk])
  qed
qed

text \<open>A stored contract can be written back disabled.\<close>

definition disablable :: "('s, 'x) HmEnv \<Rightarrow> 's \<Rightarrow> bool" where
  "disablable e s \<longleftrightarrow>
    (\<forall>a c. GetRegisteredContract e a s = Inr c \<longrightarrow> (\<exists>b. cd_Marshal (hm_contract e) (c\<lparr>ct_Enabled := False\<rparr>) = Inr b))"

definition disable_if :: "bool \<Rightarrow> hm_error + RegisteredContract \<Rightarrow> hm_error + RegisteredContract" where
  "disable_if b r = (case r of Inl err \<Rightarrow> Inl err | Inr c \<Rightarrow> Inr (if b then c\<lparr>ct_Enabled := False\<rparr> else c))"

lemma disable_if_simps [simp]:
  "disable_if b (Inl err) = Inl err" "disable_if b (Inr c) = Inr (if b then c\<lparr>ct_Enabled := False\<rparr> else c)"
  "disable_if b (disable_if b' r) = disable_if (b \<or> b') r" "disable_if False r = r"
  by (auto simp: disable_if_def split: sum.splits)

lemma disable_one:
  assumes sdk: "sdk_store e" and ok: "codecs_ok e" and inv: "hm_inv e s" and dis: "disablable e s"
    and c: "GetRegisteredContract e addr s = Inr c" and s': "s' = snd (SetRegisteredContract e (c\<lparr>ct_Enabled := False\<rparr>) s)"
  shows "hm_inv e s'" "disablable e s'" "GetRegisteredContract e a s' = disable_if (a = addr) (GetRegisteredContract e a s)"
    "k \<noteq> KeyRegisteredContract addr \<Longrightarrow> hm_Get e s' k = hm_Get e s k"
proof -
  have addr: "ct_ContractAddr c = addr" by (rule hm_inv_contract [OF inv c])
  obtain b where "cd_Marshal (hm_contract e) (c\<lparr>ct_Enabled := False\<rparr>) = Inr b" using dis c by (auto simp: disablable_def)
  then have set: "SetRegisteredContract e (c\<lparr>ct_Enabled := False\<rparr>) s = (Inr (), s')"
    by (simp add: s' SetRegisteredContract_def put_def)
  show inv': "hm_inv e s'" by (rule hm_inv_put(3) [OF sdk ok inv set])
  show frame: "k \<noteq> KeyRegisteredContract addr \<Longrightarrow> hm_Get e s' k = hm_Get e s k" for k
    using setters_frame(3) [OF sdk set] addr by simp
  show read: "GetRegisteredContract e a s' = disable_if (a = addr) (GetRegisteredContract e a s)" for a
    using setters_read(2) [OF sdk ok set] frame [of "KeyRegisteredContract a"] addr c
    by (cases "a = addr") (simp_all add: GetRegisteredContract_def fetch_def)
  show "disablable e s'"
    using dis c by (auto simp: disablable_def read disable_if_def split: sum.splits if_splits)
qed

lemma disableAll_spec:
  assumes sdk: "sdk_store e" and ok: "codecs_ok e"
  shows "hm_inv e s \<Longrightarrow> disablable e s \<Longrightarrow>
    hm_inv e (disableAll e xs s) \<and> disablable e (disableAll e xs s) \<and>
    GetRegisteredContract e a (disableAll e xs s) = disable_if (a \<in> set xs) (GetRegisteredContract e a s) \<and>
    ((\<forall>a. k \<noteq> KeyRegisteredContract a) \<longrightarrow> hm_Get e (disableAll e xs s) k = hm_Get e s k)"
proof (induction xs arbitrary: s)
  case (Cons x xs)
  show ?case
  proof (cases "GetRegisteredContract e x s")
    case (Inl err)
    then show ?thesis using Cons by (cases "a = x") auto
  next
    case (Inr c)
    note one = disable_one [OF sdk ok Cons.prems Inr refl]
    have "(a \<in> set xs \<or> a = x) = (a \<in> set (x # xs))" by auto
    then show ?thesis using Cons.IH [OF one(1,2)] one(3) [of a] one(4) [of k] Inr by simp
  qed
qed simp


text \<open>C31. A refill extends the height until which a contract is paid by the periods its amount buys and
  adds the amount, and leaves every registered contract as it is: a contract disabled by pruning stays disabled after
  its escrow has been refilled.\<close>

theorem RefillEscrow_spec:
  assumes sdk: "sdk_store e" "codecs_ok e" and inv: "hm_inv e (w_store w)"
    and refill: "RefillEscrow e m w = (Inr (), w')"
  shows "GetRegisteredContract e addr (w_store w') = GetRegisteredContract e addr (w_store w) \<and>
    (\<exists>r p n a. GetEscrowRecord e (mf_ContractAddr m) (w_store w) = Inr r \<and> GetParams e (w_store w) = Inr p \<and>
      hm_Periods e (cn_Amount (mf_Amount m)) (pr_MinEscrowAmount p) = Inr n \<and>
      hm_AddCoin e (er_Amount r) (mf_Amount m) = Inr a \<and>
      GetEscrowRecord e (mf_ContractAddr m) (w_store w') =
        Inr (r\<lparr>er_PaidUntilHeight := er_PaidUntilHeight r + n * pr_PruneInterval p, er_Amount := a\<rparr>))"
proof -
  note key = hm_inv_escrow [OF inv]
  from refill show ?thesis
  proof (rule RefillEscrow_success, goal_cases)
    case (1 r p x n a s)
    note set = 1(7)
    have "hm_Get e s (KeyRegisteredContract addr) = hm_Get e (w_store w) (KeyRegisteredContract addr)"
      using setters_frame(4) [OF sdk(1) set] by simp
    moreover note setters_read(3) [OF sdk set]
    ultimately show ?case using 1 key by (simp add: GetRegisteredContract_def fetch_def)
  qed
qed

text \<open>C30. A successful registration paid at least the minimum in the escrow denomination, stores the
  contract enabled and an escrow record with the periods of this payment only, whatever was registered or paid for the
  same address before and whoever sends it, and changes no other key.\<close>

theorem RegisterContract_spec:
  assumes sdk: "sdk_store e" "codecs_ok e" and reg: "RegisterContract e h m w = (Inr (), w')"
  shows "\<exists>p n. GetParams e (w_store w) = Inr p \<and>
      hm_Periods e (cn_Amount (mr_Escrow m)) (pr_MinEscrowAmount p) = Inr n \<and>
      pr_MinEscrowAmount p \<le> cn_Amount (mr_Escrow m) \<and> cn_Denom (mr_Escrow m) = pr_EscrowDenom p \<and>
      GetRegisteredContract e (mr_ContractAddr m) (w_store w') = Inr (newContract m) \<and>
      GetEscrowRecord e (mr_ContractAddr m) (w_store w') = Inr (newEscrow m (h + n * pr_PruneInterval p)) \<and>
      (\<forall>k. k \<noteq> KeyRegisteredContract (mr_ContractAddr m) \<and> k \<noteq> KeyEscrow (mr_ContractAddr m) \<longrightarrow>
        hm_Get e (w_store w') k = hm_Get e (w_store w) k)"
  using reg
proof (rule RegisterContract_success, goal_cases)
  case (1 chain p x n s1 s2)
  have addr: "ct_ContractAddr (newContract m) = mr_ContractAddr m"
    "er_ContractAddr (newEscrow m q) = mr_ContractAddr m" for q
    by (simp_all add: newContract_def newEscrow_def)
  note set = 1(8) 1(9)
  have "hm_Get e s2 (KeyRegisteredContract (mr_ContractAddr m)) = hm_Get e s1 (KeyRegisteredContract (mr_ContractAddr m))"
    using setters_frame(4) [OF sdk(1) set(2)] by (simp add: addr)
  then have "GetRegisteredContract e (mr_ContractAddr m) s2 = Inr (newContract m)"
    using setters_read(2) [OF sdk set(1)] by (simp add: addr GetRegisteredContract_def fetch_def)
  moreover have "hm_Get e s2 k = hm_Get e (w_store w) k"
    if "k \<noteq> KeyRegisteredContract (mr_ContractAddr m)" "k \<noteq> KeyEscrow (mr_ContractAddr m)" for k
    using that setters_frame(3) [OF sdk(1) set(1)] setters_frame(4) [OF sdk(1) set(2)] by (simp add: addr)
  ultimately show ?case using 1 setters_read(3) [OF sdk set(2)] by (simp add: addr)
qed

text \<open>
  A minimum of zero passes validation, and the division by it then panics on every registration and
  refill that got as far as paying.
\<close>

lemma zero_minimum:
  assumes params: "GetParams e (w_store w) = Inr p" "pr_MinEscrowAmount p = 0"
    and quo: "\<And>a. hm_Periods e a 0 = Inl (HmPanic msg)"
  shows "fst (RegisterContract e h m w) \<noteq> Inr ()" "fst (RefillEscrow e m' w) \<noteq> Inr ()"
    "Params_Validate (DefaultParams\<lparr>pr_MinEscrowAmount := 0\<rparr>) = Inr ()"
proof -
  show "fst (RegisterContract e h m w) \<noteq> Inr ()"
    using params quo by (cases "RegisterContract e h m w") (auto elim!: RegisterContract_success)
  show "fst (RefillEscrow e m' w) \<noteq> Inr ()"
    using params quo by (cases "RefillEscrow e m' w") (auto elim!: RefillEscrow_success)
qed (simp add: Params_Validate_def DefaultParams_def)

lemma RegisterChain_sources:
  assumes sdk: "sdk_store e" and reg: "RegisterChain e m w = (Inr (), w')"
  shows "GetOracleSources e uid (w_store w') = GetOracleSources e uid (w_store w)"
  using reg setters_frame(2) [OF sdk] by (auto simp: GetOracleSources_def elim!: RegisterChain_success)

subsection \<open>A concrete environment\<close>

text \<open>
  An instance of what the module calls, for the concrete cases: association lists with distinct keys
  as the store, and encodings given by finite tables.
\<close>

definition sample_coin :: "int \<Rightarrow> Coin" where "sample_coin n = \<lparr>cn_Denom = ''uterp'', cn_Amount = n\<rparr>"

definition sample_chain :: RegisteredChain where
  "sample_chain = \<lparr>rg_ChainUid = ''zcash'', rg_Name = ''Zcash'', rg_RpcEndpoints = [], rg_HashAlgos = [''sha256''],
     rg_Enabled = True,
     rg_OracleSources = [Some \<lparr>os_SourceId = ''node'', os_Kind = ORACLE_SOURCE_KIND_ZCASH_RPC, os_Endpoint = [],
       os_MerklePrefix = [], os_Authenticator = None, os_Enabled = True\<rparr>]\<rparr>"

definition sample_contract :: "bool \<Rightarrow> RegisteredContract" where
  "sample_contract b = \<lparr>ct_ContractAddr = ''terp1c'', ct_ChainUid = ''zcash'', ct_SubstoreKeys = [], ct_Enabled = b\<rparr>"

definition sample_escrow :: "int \<Rightarrow> u64 \<Rightarrow> EscrowRecord" where
  "sample_escrow n h = \<lparr>er_ContractAddr = ''terp1c'', er_Amount = sample_coin n, er_PaidUntilHeight = h, er_LastPruneHeight = 0\<rparr>"

definition sample_data :: VoteExtensionHashData where
  "sample_data = \<lparr>ve_RuntimeId = [], ve_ChainUid = ''zcash'', ve_Algo = ''sha256'', ve_Root = [1, 2, 3], ve_ForeignHeight = 7,
     ve_ForeignBlockTime = 9, ve_Ics23Proof = [],
     ve_Attestations = [Some \<lparr>at_SourceId = ''node'', at_Value = [1], at_Height = 7, at_Timestamp = 9,
       at_CustodySignature = [], at_Ics23Proof = []\<rparr>]\<rparr>"

text \<open>The same claim with another root.\<close>

definition sample_fork :: VoteExtensionHashData where "sample_fork = sample_data\<lparr>ve_Root := [4]\<rparr>"

definition sample_root :: "u32 \<Rightarrow> HashRoot" where
  "sample_root n = \<lparr>hr_ChainUid = ''zcash'', hr_Algo = ''sha256'', hr_Height = 7, hr_Root = [1, 2, 3],
     hr_AttestationCount = n, hr_BlockTime = 9, hr_Attestations = ve_Attestations sample_data\<rparr>"

definition sample_vote :: "int \<Rightarrow> bytes \<Rightarrow> ExtendedVote" where
  "sample_vote n ext = \<lparr>ev_Power = word_of_int n, ev_VoteExtension = ext\<rparr>"

definition sample_genesis :: hm_genesis where
  "sample_genesis = DefaultGenesis_hm\<lparr>hg_RegisteredContracts := [sample_contract True], hg_EscrowRecords := [sample_escrow 3000000 5]\<rparr>"

definition sample_env :: "((bytes, bytes) alist, int) HmEnv" where
  "sample_env =
    \<lparr>hm_authority = ''gov'', hm_Get = DAList.lookup, hm_Set = DAList.update,
     hm_Iter = alist_iter,
     hm_params = table_codec (HmErrorf ''codec'') [(DefaultParams, [1])], hm_chain = table_codec (HmErrorf ''codec'') [(sample_chain, [1])],
     hm_contract = table_codec (HmErrorf ''codec'') [(sample_contract True, [1]), (sample_contract False, [2])],
     hm_escrow = table_codec (HmErrorf ''codec'') [(sample_escrow 3000000 5, [1]), (sample_escrow 5000000 2005, [2]), (sample_escrow 3000000 3005, [3])],
     hm_root = table_codec (HmErrorf ''codec'') [(sample_root 1, [1]), (sample_root 2, [2]), ((sample_root 1)\<lparr>hr_Root := [4]\<rparr>, [3])],
     hm_extension = table_codec (HmErrorf ''codec'') [(sample_data, [7]), (sample_fork, [8])], hm_sources = table_codec (HmErrorf ''codec'') [], hm_bundle = table_codec (HmErrorf ''codec'') [],
     hm_commit = table_codec (HmErrorf ''codec'') [([sample_vote 1 [7]], [1])], hm_genesisJSON = table_codec (HmErrorf ''codec'') [(sample_genesis, [1])],
     hm_extraJSON = (\<lambda>_. Inr []), hm_sidecar = (\<lambda>_. Inl (HmErrorf [])), hm_sidecarJSON = (\<lambda>_. Inl (HmErrorf [])),
     hm_sudoJSON = (\<lambda>_. Inr []), hm_bech32 = (\<lambda>a. Inr (str a)), hm_GetModuleAccount = (\<lambda>x. x),
     hm_SendCoins = (\<lambda>_ c x. (Inr (), x + cn_Amount c)), hm_Sudo = (\<lambda>_ _ w. (Inr (), w)),
     hm_ed25519 = (\<lambda>_ _ _. True), hm_sha256 = (\<lambda>_. replicate 32 0),
     hm_Periods = (\<lambda>a m. if m = 0 then Inl (HmPanic ''division by zero'') else Inr (word_of_int (a div m))),
     hm_Threshold = (\<lambda>q t. Inr (word_of_int (q * sint t div 10 ^ 18))),
     hm_AddCoin = (\<lambda>a b. if cn_Denom a = cn_Denom b then Inr (a\<lparr>cn_Amount := cn_Amount a + cn_Amount b\<rparr>)
       else Inl (HmPanic ''invalid coin denominations''))\<rparr>"

lemma sample_fields [simp]:
  "hm_authority sample_env = ''gov''"
  "hm_Get sample_env = DAList.lookup"
  "hm_Set sample_env = DAList.update"
  "hm_Iter sample_env = alist_iter"
  "hm_params sample_env = table_codec (HmErrorf ''codec'') [(DefaultParams, [1])]"
  "hm_chain sample_env = table_codec (HmErrorf ''codec'') [(sample_chain, [1])]"
  "hm_contract sample_env = table_codec (HmErrorf ''codec'') [(sample_contract True, [1]), (sample_contract False, [2])]"
  "hm_escrow sample_env = table_codec (HmErrorf ''codec'') [(sample_escrow 3000000 5, [1]), (sample_escrow 5000000 2005, [2]), (sample_escrow 3000000 3005, [3])]"
  "hm_root sample_env = table_codec (HmErrorf ''codec'') [(sample_root 1, [1]), (sample_root 2, [2]), ((sample_root 1)\<lparr>hr_Root := [4]\<rparr>, [3])]"
  "hm_extension sample_env = table_codec (HmErrorf ''codec'') [(sample_data, [7]), (sample_fork, [8])]"
  "hm_sources sample_env = table_codec (HmErrorf ''codec'') []"
  "hm_bundle sample_env = table_codec (HmErrorf ''codec'') []"
  "hm_commit sample_env = table_codec (HmErrorf ''codec'') [([sample_vote 1 [7]], [1])]"
  "hm_genesisJSON sample_env = table_codec (HmErrorf ''codec'') [(sample_genesis, [1])]"
  "hm_extraJSON sample_env = (\<lambda>_. Inr [])"
  "hm_sidecar sample_env = (\<lambda>_. Inl (HmErrorf []))"
  "hm_sidecarJSON sample_env = (\<lambda>_. Inl (HmErrorf []))"
  "hm_sudoJSON sample_env = (\<lambda>_. Inr [])"
  "hm_bech32 sample_env = (\<lambda>a. Inr (str a))"
  "hm_GetModuleAccount sample_env = (\<lambda>x. x)"
  "hm_SendCoins sample_env = (\<lambda>_ c x. (Inr (), x + cn_Amount c))"
  "hm_Sudo sample_env = (\<lambda>_ _ w. (Inr (), w))"
  "hm_ed25519 sample_env = (\<lambda>_ _ _. True)"
  "hm_sha256 sample_env = (\<lambda>_. replicate 32 0)"
  "hm_Periods sample_env = (\<lambda>a m. if m = 0 then Inl (HmPanic ''division by zero'') else Inr (word_of_int (a div m)))"
  "hm_Threshold sample_env = (\<lambda>q t. Inr (word_of_int (q * sint t div 10 ^ 18)))"
  "hm_AddCoin sample_env = (\<lambda>a b. if cn_Denom a = cn_Denom b then Inr (a\<lparr>cn_Amount := cn_Amount a + cn_Amount b\<rparr>) else Inl (HmPanic ''invalid coin denominations''))"
  by (simp_all add: sample_env_def)

lemma sample_sdk: "sdk_store sample_env"
  using alist_kv_laws by (simp add: sdk_store_def)

lemmas sample_values = sample_coin_def sample_chain_def sample_contract_def sample_escrow_def sample_root_def

lemma sample_codecs: "codecs_ok sample_env"
  by (simp add: codecs_ok_def codec_ok_table)

definition sample_store :: "(bytes, bytes) alist" where
  "sample_store = DAList.update (KeyEscrow ''terp1c'') [1]
     (DAList.update (KeyRegisteredContract ''terp1c'') [1] (DAList.update (KeyRegisteredChain ''zcash'') [1] DAList.empty))"

definition sample_world :: "((bytes, bytes) alist, int) world" where
  "sample_world = \<lparr>w_store = sample_store, w_ext = 0\<rparr>"

lemma sample_lookup:
  "DAList.lookup sample_store k =
    (if k = KeyEscrow ''terp1c'' then Some [1] else if k = KeyRegisteredContract ''terp1c'' then Some [1]
     else if k = KeyRegisteredChain ''zcash'' then Some [1] else None)"
  by (simp add: sample_store_def lookup_update)

lemma sample_world_simps [simp]: "w_store sample_world = sample_store" "w_ext sample_world = 0"
  by (simp_all add: sample_world_def)

lemmas sample_eval = table_codec_def sample_values DefaultParams_def lookup_update sample_lookup

lemma sample_inv: "hm_inv sample_env sample_store"
  by (auto simp: hm_inv_def keyed_def sample_eval hm_prefix_defs split: if_splits option.splits)

lemma sample_disablable: "disablable sample_env sample_store"
  by (auto simp: disablable_def GetRegisteredContract_def fetch_def sample_eval split: if_splits option.splits)

lemma sample_reads:
  "GetParams sample_env sample_store = Inr DefaultParams" "GetPruneEpoch sample_env sample_store = Inr 0"
  "GetRegisteredContract sample_env ''terp1c'' sample_store = Inr (sample_contract True)"
  "GetEscrowRecord sample_env ''terp1c'' sample_store = Inr (sample_escrow 3000000 5)"
  "GetRegisteredChain sample_env ''zcash'' sample_store = Inr sample_chain"
  by (simp_all add: GetParams_def GetPruneEpoch_def GetRegisteredContract_def GetEscrowRecord_def GetRegisteredChain_def
      fetch_def sample_eval hm_prefix_defs hm_key_defs)


definition sample_refill :: MsgRefillEscrow where
  "sample_refill = \<lparr>mf_Sender = ''terp1a'', mf_ContractAddr = ''terp1c'', mf_Amount = sample_coin 2000000\<rparr>"

theorem RefillEscrow_spec_witness:
  "\<exists>w'. RefillEscrow sample_env sample_refill sample_world = (Inr (), w') \<and>
     GetEscrowRecord sample_env ''terp1c'' (w_store w') = Inr (sample_escrow 5000000 2005) \<and>
     GetRegisteredContract sample_env ''terp1c'' (w_store w') = Inr (sample_contract True)"
proof -
  have "fst (RefillEscrow sample_env sample_refill sample_world) = Inr ()"
    by (simp add: RefillEscrow_def sample_reads sample_refill_def sample_eval SetEscrowRecord_def put_def on_store_def)
  then obtain w' where w': "RefillEscrow sample_env sample_refill sample_world = (Inr (), w')" by (metis prod.collapse)
  show ?thesis
    using RefillEscrow_spec [OF sample_sdk sample_codecs _ w', of "''terp1c''"] sample_inv sample_reads w'
    by (auto simp: sample_refill_def sample_eval)
qed

definition sample_register :: MsgRegisterContract where
  "sample_register = \<lparr>mr_Sender = ''terp1a'', mr_ContractAddr = ''terp1c'', mr_ChainUid = ''zcash'', mr_SubstoreKeys = [],
     mr_Escrow = sample_coin 3000000\<rparr>"

theorem RegisterContract_spec_witness:
  "\<exists>w'. RegisterContract sample_env 5 sample_register sample_world = (Inr (), w') \<and>
     GetEscrowRecord sample_env ''terp1c'' (w_store w') = Inr (sample_escrow 3000000 3005)"
proof -
  have "fst (RegisterContract sample_env 5 sample_register sample_world) = Inr ()"
    by (simp add: RegisterContract_def sample_reads sample_register_def sample_eval SetEscrowRecord_def
        SetRegisteredContract_def put_def on_store_def)
  then obtain w' where w': "RegisterContract sample_env 5 sample_register sample_world = (Inr (), w')" by (metis prod.collapse)
  show ?thesis
    using RegisterContract_spec [OF sample_sdk sample_codecs w'] sample_reads w'
    by (auto simp: sample_register_def newEscrow_def sample_eval)
qed

end
