(* ===== verification/Hash_Votes.thy ===== *)
theory Hash_Votes
  imports Hash_Laws "HOL-Library.Multiset"
begin

text \<open>
  The vote extensions of \<open>x/hashmerchant\<close>: the custody signatures of oracle attestations
  (\<open>keeper/oracle.go\<close>, \<open>keeper/oracle_bundle.go\<close>), the handlers that extend and verify votes, the tally
  that confirms hash roots and calls the contracts (\<open>keeper/vote_ext.go\<close>), and the injection of the
  commit into a proposal (\<open>keeper/abci.go\<close>).  The order in which Go visits a map is a parameter.
\<close>

subsection \<open>Oracle attestations\<close>

definition putLE64 :: "u64 \<Rightarrow> bytes" where
  "putLE64 v = map (\<lambda>i. ucast (drop_bit (8 * i) v)) [0..<8]"

definition custodyDomain :: "('s, 'x) HmEnv \<Rightarrow> string \<Rightarrow> string \<Rightarrow> bytes" where
  "custodyDomain e scope sourceID = hm_sha256 e (str (''hashmerchant/custody/'' @ scope @ ''/'' @ sourceID))"

definition custodyPayload :: "('s, 'x) HmEnv \<Rightarrow> string \<Rightarrow> string \<Rightarrow> bytes \<Rightarrow> u64 \<Rightarrow> i64 \<Rightarrow> bytes" where
  "custodyPayload e scope sourceID val height timestamp =
    custodyDomain e scope sourceID @ val @ putLE64 height @ putLE64 timestamp"

fun findOracleSource :: "OracleSource list \<Rightarrow> string \<Rightarrow> OracleSource option" where
  "findOracleSource [] sourceID = None"
| "findOracleSource (src # srcs) sourceID =
    (if os_SourceId src = sourceID \<and> os_Enabled src then Some src else findOracleSource srcs sourceID)"

definition checkAttestation :: "('s, 'x) HmEnv \<Rightarrow> OracleSource list \<Rightarrow> OracleAttestation \<Rightarrow> hm_error + unit" where
  "checkAttestation e sources att =
    (case findOracleSource sources (at_SourceId att) of
       None \<Rightarrow> Inl (HmErrorf ''unregistered oracle source'')
     | Some src \<Rightarrow> (case os_Authenticator src of
         None \<Rightarrow> Inl (HmErrorf ''missing custody authenticator'')
       | Some auth \<Rightarrow>
           if ca_Algorithm auth \<noteq> ''ed25519'' then Inl (HmErrorf ''unsupported custody algorithm'')
           else if length (ca_Pubkey auth) \<noteq> 32 then Inl (HmErrorf ''invalid custody pubkey length'')
           else let msg = custodyPayload e (ca_Scope auth) (at_SourceId att) (at_Value att) (at_Height att) (at_Timestamp att)
                in if \<not> hm_ed25519 e (ca_Pubkey auth) msg (at_CustodySignature att)
                   then Inl (HmErrorf ''custody signature verification failed'')
                   else Inr ()))"

fun checkAttestations :: "('s, 'x) HmEnv \<Rightarrow> OracleSource list \<Rightarrow> OracleAttestation list \<Rightarrow> hm_error + unit" where
  "checkAttestations e sources [] = Inr ()"
| "checkAttestations e sources (att # atts) =
    (case checkAttestation e sources att of Inl err \<Rightarrow> Inl err | Inr _ \<Rightarrow> checkAttestations e sources atts)"

definition verifyOracleAttestations :: "('s, 'x) HmEnv \<Rightarrow> string \<Rightarrow> OracleAttestation list \<Rightarrow> 's \<Rightarrow> hm_error + unit" where
  "verifyOracleAttestations e chainUID atts s =
    (if length atts = 0 then Inr ()
     else case GetOracleSources e chainUID s of
       Inl err \<Rightarrow> Inl err
     | Inr sources \<Rightarrow> (case GetParams e s of
         Inl err \<Rightarrow> Inl err
       | Inr params \<Rightarrow> checkAttestations e sources atts))"

definition aggregateAttestationRoot :: "('s, 'x) HmEnv \<Rightarrow> OracleAttestation list \<Rightarrow> bytes" where
  "aggregateAttestationRoot e atts =
    (if length atts = 0 then [] else hm_sha256 e (concat (map (\<lambda>a. str (at_SourceId a) @ at_Value a) atts)))"

definition oracleBundleMagic :: bytes where "oracleBundleMagic = str ''HMOR''"

definition packOracleBundle :: "('s, 'x) HmEnv \<Rightarrow> OracleAttestation list \<Rightarrow> hm_error + bytes" where
  "packOracleBundle e atts =
    (if length atts = 0 then Inr []
     else case cd_Marshal (hm_bundle e) atts of Inl err \<Rightarrow> Inl err | Inr bz \<Rightarrow> Inr (oracleBundleMagic @ bz))"

definition unpackOracleBundle :: "('s, 'x) HmEnv \<Rightarrow> bytes \<Rightarrow> hm_error + OracleAttestation list" where
  "unpackOracleBundle e bz =
    (if length bz < length oracleBundleMagic then Inr []
     else if take (length oracleBundleMagic) bz \<noteq> oracleBundleMagic then Inr []
     else case cd_Unmarshal (hm_bundle e) (drop (length oracleBundleMagic) bz) of
       Inl _ \<Rightarrow> Inl (HmErrorf ''decode oracle bundle'')
     | Inr atts \<Rightarrow> Inr atts)"

definition voteExtensionAttestations :: "('s, 'x) HmEnv \<Rightarrow> VoteExtensionHashData \<Rightarrow> OracleAttestation list" where
  "voteExtensionAttestations e data =
    (if length (ve_Attestations data) > 0 then List.map_filter id (ve_Attestations data)
     else case unpackOracleBundle e (ve_Ics23Proof data) of Inl _ \<Rightarrow> [] | Inr legacy \<Rightarrow> legacy)"

subsection \<open>Extending and verifying votes\<close>

fun sidecarAttestations :: "sidecarAttestationJSON list \<Rightarrow> hm_error + OracleAttestation list" where
  "sidecarAttestations [] = Inr []"
| "sidecarAttestations (a # as) =
    (case DecodeString (sj_Value a) of
       None \<Rightarrow> Inl (HmErrorf ''decoding attestation value hex'')
     | Some val \<Rightarrow> (case DecodeString (sj_CustodySignature a) of
         None \<Rightarrow> Inl (HmErrorf ''decoding custody signature hex'')
       | Some sig \<Rightarrow> (case sidecarAttestations as of
           Inl err \<Rightarrow> Inl err
         | Inr atts \<Rightarrow> Inr (\<lparr>at_SourceId = sj_SourceID a, at_Value = val, at_Height = sj_Height a,
                             at_Timestamp = sj_Timestamp a, at_CustodySignature = sig, at_Ics23Proof = []\<rparr> # atts))))"

definition fetchSidecar :: "('s, 'x) HmEnv \<Rightarrow> string \<Rightarrow> hm_error + VoteExtensionHashData" where
  "fetchSidecar e url =
    (case hm_sidecar e (url @ ''/vote-extension'') of
       Inl _ \<Rightarrow> Inl (HmErrorf ''sidecar HTTP GET'')
     | Inr (status, body) \<Rightarrow>
         if status \<noteq> 200 then Inl (HmErrorf ''sidecar returned status'')
         else (case body of
           Inl _ \<Rightarrow> Inl (HmErrorf ''reading sidecar response'')
         | Inr body \<Rightarrow> (case hm_sidecarJSON e body of
           Inl _ \<Rightarrow> Inl (HmErrorf ''decoding sidecar JSON'')
         | Inr sr \<Rightarrow> (case DecodeString (sr_Root sr) of
           None \<Rightarrow> Inl (HmErrorf ''decoding root hex'')
         | Some rootBytes \<Rightarrow> (case sidecarAttestations (sr_Attestations sr) of
           Inl err \<Rightarrow> Inl err
         | Inr atts \<Rightarrow>
             let root = (if length rootBytes = 0 \<and> length atts > 0 then aggregateAttestationRoot e atts else rootBytes)
             in Inr \<lparr>ve_RuntimeId = sr_RuntimeID sr, ve_ChainUid = sr_ChainUID sr, ve_Algo = sr_Algo sr, ve_Root = root,
                     ve_ForeignHeight = sr_ForeignHeight sr, ve_ForeignBlockTime = sr_ForeignBlockTime sr,
                     ve_Ics23Proof = [], ve_Attestations = map Some atts\<rparr>)))))"

definition ExtendVoteHandler :: "('s, 'x) HmEnv \<Rightarrow> string \<Rightarrow> bytes" where
  "ExtendVoteHandler e sidecarURL =
    (if sidecarURL = [] then []
     else case fetchSidecar e sidecarURL of
       Inl _ \<Rightarrow> []
     | Inr data \<Rightarrow> (case cd_Marshal (hm_extension e) data of Inl _ \<Rightarrow> [] | Inr bz \<Rightarrow> bz))"

definition VerifyVoteExtensionHandler :: "('s, 'x) HmEnv \<Rightarrow> bytes \<Rightarrow> 's \<Rightarrow> ProposalStatus" where
  "VerifyVoteExtensionHandler e ext s =
    (if length ext = 0 then ACCEPT
     else case cd_Unmarshal (hm_extension e) ext of
       Inl _ \<Rightarrow> REJECT
     | Inr data \<Rightarrow> (case GetRegisteredChain e (ve_ChainUid data) s of
         Inl _ \<Rightarrow> REJECT
       | Inr chain \<Rightarrow>
           if \<not> rg_Enabled chain then REJECT
           else (case verifyOracleAttestations e (ve_ChainUid data) (voteExtensionAttestations e data) s of
             Inl _ \<Rightarrow> REJECT
           | Inr _ \<Rightarrow> ACCEPT)))"

subsection \<open>Calling the contracts\<close>

definition sudoPayload :: "HashRoot \<Rightarrow> OracleAttestation list \<Rightarrow> HashMerchantSudoPayload" where
  "sudoPayload root atts =
    \<lparr>sp_ChainUID = hr_ChainUid root, sp_Algo = hr_Algo root, sp_Height = hr_Height root, sp_Root = hr_Root root,
     sp_AttestationCount = hr_AttestationCount root, sp_BlockTime = hr_BlockTime root,
     sp_OracleSources = map (\<lambda>a. (at_SourceId a, at_Value a, at_Height a)) atts\<rparr>"

definition callContract ::
  "('s, 'x) HmEnv \<Rightarrow> u64 \<Rightarrow> HashRoot \<Rightarrow> OracleAttestation list \<Rightarrow> RegisteredContract \<Rightarrow> ('s, 'x) world \<Rightarrow> ('s, 'x) world" where
  "callContract e blockHeight root atts c w =
    (if ct_ChainUid c \<noteq> hr_ChainUid root \<or> \<not> ct_Enabled c then w
     else case GetEscrowRecord e (ct_ContractAddr c) (w_store w) of
       Inl _ \<Rightarrow> w
     | Inr escrow \<Rightarrow>
         if er_PaidUntilHeight escrow < blockHeight then w
         else (case hm_sudoJSON e (sudoPayload root atts) of
           Inl _ \<Rightarrow> w
         | Inr bz \<Rightarrow> (case hm_bech32 e (ct_ContractAddr c) of
             Inl _ \<Rightarrow> w
           | Inr addr \<Rightarrow> snd (hm_Sudo e addr bz w))))"

text \<open>The iterator runs over the contracts registered when the dispatch starts.\<close>

definition dispatchSudoCallbacks ::
  "('s, 'x) HmEnv \<Rightarrow> i64 \<Rightarrow> HashRoot \<Rightarrow> OracleAttestation list \<Rightarrow> ('s, 'x) world \<Rightarrow> ('s, 'x) world" where
  "dispatchSudoCallbacks e blockHeight root atts w =
    fold (callContract e blockHeight root atts) (IterateRegisteredContracts e (w_store w)) w"

subsection \<open>The tally\<close>

record rootVote =
  rv_root :: bytes
  rv_height :: u64
  rv_blockTime :: i64
  rv_votingPower :: i64
  rv_attestations :: "OracleAttestation list"

type_synonym tallyKey = "string \<times> string"
type_synonym rootMap = "(string \<times> rootVote list) list"
type_synonym tally = "(tallyKey \<times> rootMap) list"

fun addVote :: "string \<Rightarrow> rootVote \<Rightarrow> rootMap \<Rightarrow> rootMap" where
  "addVote rootHex v [] = [(rootHex, [v])]"
| "addVote rootHex v ((h, vs) # m) = (if h = rootHex then (h, vs @ [v]) # m else (h, vs) # addVote rootHex v m)"

fun tallyAdd :: "tallyKey \<Rightarrow> string \<Rightarrow> rootVote \<Rightarrow> tally \<Rightarrow> tally" where
  "tallyAdd key rootHex v [] = [(key, addVote rootHex v [])]"
| "tallyAdd key rootHex v ((k, m) # t) =
    (if k = key then (k, addVote rootHex v m) # t else (k, m) # tallyAdd key rootHex v t)"

text \<open>The claim a vote makes, when it carries an extension that unmarshals, and its entry in the tally.\<close>

definition readVote :: "('s, 'x) HmEnv \<Rightarrow> ExtendedVote \<Rightarrow> ((tallyKey \<times> string) \<times> rootVote) option" where
  "readVote e vote =
    (if length (ev_VoteExtension vote) = 0 then None
     else case cd_Unmarshal (hm_extension e) (ev_VoteExtension vote) of
       Inl _ \<Rightarrow> None
     | Inr data \<Rightarrow>
         Some (((ve_ChainUid data, ve_Algo data), EncodeToString (ve_Root data)),
           \<lparr>rv_root = ve_Root data, rv_height = ve_ForeignHeight data, rv_blockTime = ve_ForeignBlockTime data,
            rv_votingPower = ev_Power vote, rv_attestations = voteExtensionAttestations e data\<rparr>))"

fun tallyVotes :: "('s, 'x) HmEnv \<Rightarrow> ExtendedVote list \<Rightarrow> i64 \<times> tally \<Rightarrow> i64 \<times> tally" where
  "tallyVotes e [] acc = acc"
| "tallyVotes e (vote # votes) (totalPower, t) =
    tallyVotes e votes (totalPower + ev_Power vote,
      case readVote e vote of None \<Rightarrow> t | Some ((key, rootHex), v) \<Rightarrow> tallyAdd key rootHex v t)"

text \<open>The write of a confirmed root, from its first vote and the number of votes, and the calls it causes.\<close>

definition writeRoot ::
  "('s, 'x) HmEnv \<Rightarrow> i64 \<Rightarrow> tallyKey \<Rightarrow> rootVote \<Rightarrow> nat \<Rightarrow> ('s, 'x) world \<Rightarrow> ('s, 'x) world" where
  "writeRoot e blockHeight key representative n w =
    (let root = \<lparr>hr_ChainUid = fst key, hr_Algo = snd key, hr_Height = rv_height representative,
                  hr_Root = rv_root representative, hr_AttestationCount = word_of_nat n,
                  hr_BlockTime = rv_blockTime representative,
                  hr_Attestations = map Some (rv_attestations representative)\<rparr>
     in (case on_store (SetHashRoot e root) w of
           (Inl _, w) \<Rightarrow> w
         | (Inr _, w) \<Rightarrow> dispatchSudoCallbacks e blockHeight root (rv_attestations representative) w))"

text \<open>One entry of the tally: below the threshold it is skipped.\<close>

definition confirmVotes ::
  "('s, 'x) HmEnv \<Rightarrow> i64 \<Rightarrow> i64 \<Rightarrow> tallyKey \<Rightarrow> rootVote list \<Rightarrow> ('s, 'x) world \<Rightarrow> ('s, 'x) world" where
  "confirmVotes e blockHeight quorumThreshold key votes w =
    (let power = sum_list (map rv_votingPower votes)
     in if sint power < sint quorumThreshold then w
        else writeRoot e blockHeight key (votes ! 0) (length votes) w)"

text \<open>\<open>ordK\<close> and \<open>ordR\<close> are the orders in which the two nested maps are visited.\<close>

definition ProcessVoteExtensions ::
  "('s, 'x) HmEnv \<Rightarrow> (tally \<Rightarrow> tally) \<Rightarrow> (rootMap \<Rightarrow> rootMap) \<Rightarrow> i64 \<Rightarrow> ExtendedVote list \<Rightarrow>
   ('s, 'x) world \<Rightarrow> (hm_error + unit) \<times> ('s, 'x) world" where
  "ProcessVoteExtensions e ordK ordR blockHeight votes w =
    (case GetParams e (w_store w) of
       Inl err \<Rightarrow> (Inl err, w)
     | Inr params \<Rightarrow>
         (case tallyVotes e votes (0, []) of (totalPower, t) \<Rightarrow>
           (case hm_Threshold e (pr_QuorumFraction params) totalPower of
              Inl err \<Rightarrow> (Inl err, w)
            | Inr quorumThreshold \<Rightarrow>
                (Inr (), fold (\<lambda>(key, m). fold (\<lambda>(rootHex, vs). confirmVotes e blockHeight quorumThreshold key vs) (ordR m))
                           (ordK t) w))))"

subsection \<open>Proposals\<close>

definition InjectedVoteExtensionPrefix :: bytes where
  "InjectedVoteExtensionPrefix = [0x48, 0x4D, 0x56, 0x45]"

definition PrepareProposalHandler :: "('s, 'x) HmEnv \<Rightarrow> ExtendedVote list \<Rightarrow> bytes list \<Rightarrow> bytes list" where
  "PrepareProposalHandler e localLastCommit txs =
    (if \<not> list_ex (\<lambda>v. length (ev_VoteExtension v) > 0) localLastCommit then txs
     else case cd_Marshal (hm_commit e) localLastCommit of
       Inl _ \<Rightarrow> txs
     | Inr bz \<Rightarrow> (InjectedVoteExtensionPrefix @ bz) # txs)"

definition ProcessProposalHandler :: "('s, 'x) HmEnv \<Rightarrow> bytes list \<Rightarrow> ProposalStatus" where
  "ProcessProposalHandler e txs =
    (if length txs = 0 then ACCEPT
     else if HasPrefix (txs ! 0) InjectedVoteExtensionPrefix
     then (case cd_Unmarshal (hm_commit e) (drop (length InjectedVoteExtensionPrefix) (txs ! 0)) of
             Inl _ \<Rightarrow> REJECT
           | Inr _ \<Rightarrow> ACCEPT)
     else ACCEPT)"

text \<open>A panic of the tally is not caught here; every other failure is logged.\<close>

definition ProcessInjectedVoteExtension ::
  "('s, 'x) HmEnv \<Rightarrow> (tally \<Rightarrow> tally) \<Rightarrow> (rootMap \<Rightarrow> rootMap) \<Rightarrow> i64 \<Rightarrow> bytes list \<Rightarrow>
   ('s, 'x) world \<Rightarrow> (hm_error + bool) \<times> ('s, 'x) world" where
  "ProcessInjectedVoteExtension e ordK ordR blockHeight txs w =
    (if length txs = 0 \<or> \<not> HasPrefix (txs ! 0) InjectedVoteExtensionPrefix then (Inr False, w)
     else case cd_Unmarshal (hm_commit e) (drop (length InjectedVoteExtensionPrefix) (txs ! 0)) of
       Inl _ \<Rightarrow> (Inr False, w)
     | Inr votes \<Rightarrow> (case ProcessVoteExtensions e ordK ordR blockHeight votes w of
         (Inl (HmPanic p), w) \<Rightarrow> (Inl (HmPanic p), w)
       | (Inl _, w) \<Rightarrow> (Inr False, w)
       | (Inr _, w) \<Rightarrow> (Inr True, w)))"

subsection \<open>The tally groups the votes by claim\<close>

type_synonym claim = "tallyKey \<times> string"

definition readVotes :: "('s, 'x) HmEnv \<Rightarrow> ExtendedVote list \<Rightarrow> (claim \<times> rootVote) list" where
  "readVotes e votes = List.map_filter (readVote e) votes"

definition backing :: "claim \<Rightarrow> (claim \<times> rootVote) list \<Rightarrow> rootVote list" where
  "backing c ds = map snd (filter (\<lambda>d. fst d = c) ds)"

definition flat :: "tally \<Rightarrow> (claim \<times> rootVote list) list" where
  "flat t = concat (map (\<lambda>(k, m). map (\<lambda>(h, vs). ((k, h), vs)) m) t)"

definition tally_wf :: "tally \<Rightarrow> bool" where
  "tally_wf t \<longleftrightarrow> distinct (map fst t) \<and> (\<forall>(k, m) \<in> set t. distinct (map fst m))"

definition look :: "tally \<Rightarrow> claim \<Rightarrow> rootVote list option" where
  "look t c = Option.bind (map_of t (fst c)) (\<lambda>m. map_of m (snd c))"

definition tally_of :: "(claim \<times> rootVote) list \<Rightarrow> tally" where
  "tally_of ds = fold (\<lambda>((k, h), v). tallyAdd k h v) ds []"

lemma flat_simps [simp]: "flat [] = []" "flat ((k, m) # t) = map (\<lambda>(h, vs). ((k, h), vs)) m @ flat t"
  by (simp_all add: flat_def)

lemma tallyVotes_eq:
  "tallyVotes e votes (p, t) =
    (p + sum_list (map ev_Power votes), fold (\<lambda>((k, h), v). tallyAdd k h v) (readVotes e votes) t)"
  by (induction votes arbitrary: p t)
     (auto simp: readVotes_def List.map_filter_simps algebra_simps split: option.splits prod.splits)

lemma map_of_addVote:
  "map_of (addVote h v m) = (map_of m)(h \<mapsto> (case map_of m h of None \<Rightarrow> [v] | Some vs \<Rightarrow> vs @ [v]))"
  by (induction m rule: addVote.induct) (auto simp: fun_eq_iff)

lemma map_of_tallyAdd:
  "map_of (tallyAdd k h v t) = (map_of t)(k \<mapsto> addVote h v (case map_of t k of None \<Rightarrow> [] | Some m \<Rightarrow> m))"
  by (induction t rule: tallyAdd.induct) (auto simp: fun_eq_iff)

lemma fst_addVote: "map fst (addVote h v m) = (if h \<in> fst ` set m then map fst m else map fst m @ [h])"
  by (induction h v m rule: addVote.induct) auto

lemma fst_tallyAdd: "map fst (tallyAdd k h v t) = (if k \<in> fst ` set t then map fst t else map fst t @ [k])"
  by (induction k h v t rule: tallyAdd.induct) auto

lemma distinct_addVote: "distinct (map fst m) \<Longrightarrow> distinct (map fst (addVote h v m))"
  by (auto simp: fst_addVote)

lemma tallyAdd_rows:
  "(k', m) \<in> set (tallyAdd k h v t) \<Longrightarrow> (k', m) \<in> set t \<or> m = addVote h v [] \<or> (\<exists>m'. (k', m') \<in> set t \<and> m = addVote h v m')"
  by (induction k h v t rule: tallyAdd.induct) (auto split: if_splits)

lemma tally_wf_tallyAdd: "tally_wf t \<Longrightarrow> tally_wf (tallyAdd k h v t)"
  unfolding tally_wf_def by (auto simp: fst_tallyAdd fst_addVote dest!: tallyAdd_rows)

lemma look_tallyAdd:
  "look (tallyAdd k h v t) = (look t)((k, h) \<mapsto> (case look t (k, h) of None \<Rightarrow> [v] | Some vs \<Rightarrow> vs @ [v]))"
  by (auto simp: look_def fun_eq_iff map_of_tallyAdd map_of_addVote split: option.splits)

lemma tally_of_snoc: "tally_of (ds @ [((k, h), v)]) = tallyAdd k h v (tally_of ds)"
  by (simp add: tally_of_def)

lemma tally_wf_tally_of: "tally_wf (tally_of ds)"
proof (induction ds rule: rev_induct)
  case (snoc d ds)
  then show ?case by (cases d; cases "fst d") (simp add: tally_of_snoc tally_wf_tallyAdd)
qed (simp add: tally_of_def tally_wf_def)

lemma look_tally_of: "look (tally_of ds) c = (if backing c ds = [] then None else Some (backing c ds))"
proof (induction ds arbitrary: c rule: rev_induct)
  case (snoc d ds)
  obtain k h v where d: "d = ((k, h), v)" by (metis surj_pair)
  show ?case unfolding d tally_of_snoc look_tallyAdd by (auto simp: snoc.IH backing_def)
qed (simp add: tally_of_def look_def backing_def)

lemma set_flat: "tally_wf t \<Longrightarrow> (c, vs) \<in> set (flat t) \<longleftrightarrow> look t c = Some vs"
  by (cases c) (fastforce simp: flat_def look_def tally_wf_def bind_eq_Some_conv)

lemma distinct_flat: "tally_wf t \<Longrightarrow> distinct (flat t)"
proof (induction t)
  case (Cons x t)
  obtain k m where x: "x = (k, m)" by (cases x)
  have "distinct (map (\<lambda>(h, vs). ((k, h), vs)) m)"
    using Cons.prems by (auto simp: x tally_wf_def distinct_map inj_on_def)
  moreover have "fst ` fst ` set (flat t) \<subseteq> fst ` set t" by (force simp: flat_def)
  ultimately show ?case using Cons by (force simp: x tally_wf_def)
qed simp

lemma mset_flat_ordered:
  assumes "mset (ordK t) = mset t" "\<And>m. mset (ordR m) = mset m"
  shows "mset (flat (map (\<lambda>(k, m). (k, ordR m)) (ordK t))) = mset (flat t)"
proof -
  have "mset (flat (map (\<lambda>(k, m). (k, ordR m)) xs)) = (\<Sum>(k, m)\<in>#mset xs. {#((k, h), vs). (h, vs) \<in># mset m#})" for xs
    by (induction xs) (auto simp: assms(2))
  moreover have "mset (flat xs) = (\<Sum>(k, m)\<in>#mset xs. {#((k, h), vs). (h, vs) \<in># mset m#})" for xs
    by (induction xs) auto
  ultimately show ?thesis by (simp add: assms(1))
qed

lemma fold_one:
  assumes "distinct xs" "x \<in> set xs" "\<And>y. y \<in> set xs \<Longrightarrow> y \<noteq> x \<Longrightarrow> f y = id"
  shows "fold f xs = f x"
proof -
  obtain ys zs where xs: "xs = ys @ x # zs" using assms(2) split_list by metis
  have "fold f us = id" if "\<And>y. y \<in> set us \<Longrightarrow> f y = id" for us using that by (induction us) auto
  then have "fold f ys = id" "fold f zs = id" using assms(1,3) by (auto simp: xs)
  then show ?thesis by (simp add: xs)
qed

lemma fold_none: "(\<And>y. y \<in> set xs \<Longrightarrow> f y = id) \<Longrightarrow> fold f xs = id"
  by (induction xs) auto

definition weight_of :: "rootVote list \<Rightarrow> int" where
  "weight_of vs = sum_list (map (\<lambda>v. sint (rv_votingPower v)) vs)"

definition weight_cast :: "ExtendedVote list \<Rightarrow> int" where
  "weight_cast votes = sum_list (map (\<lambda>v. sint (ev_Power v)) votes)"

definition spec_confirm ::
  "('s, 'x) HmEnv \<Rightarrow> i64 \<Rightarrow> i64 \<Rightarrow> ExtendedVote list \<Rightarrow> ('s, 'x) world \<Rightarrow> ('s, 'x) world" where
  "spec_confirm e blockHeight thr votes w =
    (let ds = readVotes e votes
     in case find (\<lambda>(c, v). sint thr \<le> weight_of (backing c ds)) ds of
          None \<Rightarrow> w
        | Some ((key, r), v) \<Rightarrow> writeRoot e blockHeight key v (length (backing (key, r) ds)) w)"

lemma sint_sum_list:
  assumes "\<And>x. x \<in> set xs \<Longrightarrow> 0 \<le> sint (x :: i64)" "sum_list (map sint xs) < 2 ^ 63"
  shows "sint (sum_list xs) = sum_list (map sint xs)"
  using assms
proof (induction xs)
  case (Cons x xs)
  have nn: "0 \<le> sum_list (map sint xs)" using Cons.prems(1) by (auto intro!: sum_list_nonneg)
  have x0: "0 \<le> sint x" using Cons.prems(1) by simp
  have lt: "sum_list (map sint xs) < 2 ^ 63" using Cons.prems(2) x0 by simp
  have IH: "sint (sum_list xs) = sum_list (map sint xs)" by (rule Cons.IH [OF _ lt]) (simp add: Cons.prems(1))
  have "sint (x + sum_list xs) = signed_take_bit 63 (sint x + sint (sum_list xs))"
    by (simp add: sint_word_ariths(1))
  also have "\<dots> = sint x + sint (sum_list xs)"
    using Cons.prems(2) nn x0 IH by (intro signed_take_bit_int_eq_self) auto
  finally show ?case using IH by simp
qed simp

lemma readVote_power: "readVote e v = Some d \<Longrightarrow> rv_votingPower (snd d) = ev_Power v"
  by (auto simp: readVote_def split: sum.splits if_splits)

lemma readVotes_powers:
  assumes "\<forall>v \<in> set votes. 0 \<le> sint (ev_Power v)"
  shows "(\<forall>d \<in> set (readVotes e votes). 0 \<le> sint (rv_votingPower (snd d))) \<and>
    weight_of (map snd (readVotes e votes)) \<le> weight_cast votes"
  using assms
proof (induction votes)
  case (Cons v votes)
  then have v: "0 \<le> sint (ev_Power v)" by simp
  show ?case
    using Cons v readVote_power [of e v]
    by (cases "readVote e v") (simp_all add: readVotes_def List.map_filter_simps weight_of_def weight_cast_def)
qed (simp add: readVotes_def List.map_filter_simps weight_of_def weight_cast_def)

lemma backing_simps [simp]:
  "backing c [] = []" "backing c (d # ds) = (if fst d = c then snd d # backing c ds else backing c ds)"
  by (simp_all add: backing_def)

lemma weight_of_simps [simp]: "weight_of [] = 0" "weight_of (v # vs) = sint (rv_votingPower v) + weight_of vs"
  by (simp_all add: weight_of_def)

lemma backing_le:
  "\<forall>d \<in> set ds. 0 \<le> sint (rv_votingPower (snd d)) \<Longrightarrow>
   0 \<le> weight_of (backing c ds) \<and> weight_of (backing c ds) \<le> weight_of (map snd ds)"
  by (induction ds) simp_all

lemma backing_two:
  "c \<noteq> c' \<Longrightarrow> \<forall>d \<in> set ds. 0 \<le> sint (rv_votingPower (snd d)) \<Longrightarrow>
   weight_of (backing c ds) + weight_of (backing c' ds) \<le> weight_of (map snd ds)"
  by (induction ds) simp_all

lemma find_claim:
  "find (\<lambda>(c, v). P c) ds = Some (c, v) \<Longrightarrow> P c \<and> (\<exists>vs. backing c ds = v # vs)"
proof (induction ds)
  case (Cons d ds)
  then show ?case by (cases d; cases "P (fst d)") auto
qed simp

lemma find_no_claim: "find (\<lambda>(c, v). P c) ds = None \<Longrightarrow> backing c ds \<noteq> [] \<Longrightarrow> \<not> P c"
  by (induction ds) (auto split: if_splits)

definition confirmClaim ::
  "('s, 'x) HmEnv \<Rightarrow> i64 \<Rightarrow> i64 \<Rightarrow> claim \<times> rootVote list \<Rightarrow> ('s, 'x) world \<Rightarrow> ('s, 'x) world" where
  "confirmClaim e h thr = (\<lambda>(c, vs). confirmVotes e h thr (fst c) vs)"

lemma fold_row:
  "fold (confirmClaim e h thr) (map (\<lambda>(r, vs). ((k, r), vs)) m) w = fold (\<lambda>(r, vs). confirmVotes e h thr k vs) m w"
  by (induction m arbitrary: w) (auto simp: confirmClaim_def)

lemma fold_flat:
  "fold (\<lambda>(key, m). fold (\<lambda>(rootHex, vs). confirmVotes e h thr key vs) (ordR m)) xs w =
   fold (confirmClaim e h thr) (flat (map (\<lambda>(k, m). (k, ordR m)) xs)) w"
  by (induction xs arbitrary: w) (auto simp: fold_row)

lemma confirmVotes_below:
  "weight_of vs < sint thr \<Longrightarrow> sint (sum_list (map rv_votingPower vs)) = weight_of vs \<Longrightarrow>
   confirmVotes e h thr key vs = id"
  by (simp add: confirmVotes_def fun_eq_iff)

lemma visited_entries:
  assumes "mset (ordK (tally_of ds)) = mset (tally_of ds)" "\<And>m. mset (ordR m) = mset m"
    and xs: "xs = flat (map (\<lambda>(k, m). (k, ordR m)) (ordK (tally_of ds)))"
  shows "distinct xs" "(c, vs) \<in> set xs \<longleftrightarrow> vs = backing c ds \<and> vs \<noteq> []"
proof -
  have same: "mset xs = mset (flat (tally_of ds))" unfolding xs by (rule mset_flat_ordered) (rule assms)+
  note wf = tally_wf_tally_of [of ds]
  show "distinct xs" using mset_eq_imp_distinct_iff [OF same] distinct_flat [OF wf] by blast
  show "(c, vs) \<in> set xs \<longleftrightarrow> vs = backing c ds \<and> vs \<noteq> []"
    unfolding mset_eq_setD [OF same] set_flat [OF wf] look_tally_of by auto
qed

lemma sint_backing:
  assumes pos: "\<forall>d \<in> set ds. 0 \<le> sint (rv_votingPower (snd d))" and small: "weight_of (map snd ds) < 2 ^ 63"
  shows "sint (sum_list (map rv_votingPower (backing c ds))) = weight_of (backing c ds)"
proof -
  have "sint (sum_list (map rv_votingPower (backing c ds))) = sum_list (map sint (map rv_votingPower (backing c ds)))"
  proof (rule sint_sum_list)
    show "0 \<le> sint x" if "x \<in> set (map rv_votingPower (backing c ds))" for x
      using that pos by (auto simp: backing_def)
    show "sum_list (map sint (map rv_votingPower (backing c ds))) < 2 ^ 63"
      using backing_le [OF pos, of c] small by (simp add: weight_of_def comp_def)
  qed
  then show ?thesis by (simp add: weight_of_def comp_def)
qed

text \<open>C7. When twice the threshold exceeds the total power cast, tallying the vote extensions equals the
  reference definition that has no maps: the first claim, a chain, an algorithm and a root, that is backed by the threshold is
  written once with its votes counted and its contracts called, and nothing else happens.  The result does not depend
  on the order in which Go visits the two maps.\<close>

theorem votes_confirm_one_root:
  assumes params: "GetParams e (w_store w) = Inr p"
    and threshold: "hm_Threshold e (pr_QuorumFraction p) (sum_list (map ev_Power votes)) = Inr thr"
    and majority: "weight_cast votes < 2 * sint thr"
    and powers: "\<forall>v \<in> set votes. 0 \<le> sint (ev_Power v)" "weight_cast votes < 2 ^ 63"
    and orders: "\<And>t. mset (ordK t) = mset t" "\<And>m. mset (ordR m) = mset m"
  shows "ProcessVoteExtensions e ordK ordR h votes w = (Inr (), spec_confirm e h thr votes w)"
proof -
  define ds where "ds = readVotes e votes"
  define xs where "xs = flat (map (\<lambda>(k, m). (k, ordR m)) (ordK (tally_of ds)))"
  have pos: "\<forall>d \<in> set ds. 0 \<le> sint (rv_votingPower (snd d))" "weight_of (map snd ds) \<le> weight_cast votes"
    using readVotes_powers [OF powers(1), of e] by (simp_all add: ds_def)
  note sint_backing = sint_backing [OF pos(1) order.strict_trans1 [OF pos(2) powers(2)]]
  note entries = visited_entries [of ordK ds ordR xs, OF orders(1) orders(2) xs_def]
  have below: "confirmClaim e h thr (c, vs) = id" if "(c, vs) \<in> set xs" "weight_of (backing c ds) < sint thr" for c vs
    using that sint_backing [of c] entries(2) by (simp add: confirmClaim_def confirmVotes_below)
  have one: "c = c'" if "sint thr \<le> weight_of (backing c ds)" "sint thr \<le> weight_of (backing c' ds)" for c c'
    using backing_two [OF _ pos(1), of c c'] pos(2) majority that by fastforce
  have "fold (confirmClaim e h thr) xs w = spec_confirm e h thr votes w"
  proof (cases "find (\<lambda>(c, v). sint thr \<le> weight_of (backing c ds)) ds")
    case None
    then have "confirmClaim e h thr y = id" if "y \<in> set xs" for y
      using that below find_no_claim [OF None] entries(2) by (metis not_le surj_pair)
    then show ?thesis using None by (simp add: fold_none spec_confirm_def flip: ds_def)
  next
    case (Some d)
    obtain key r v where d: "d = ((key, r), v)" by (metis surj_pair)
    obtain vs where enough: "sint thr \<le> weight_of (backing (key, r) ds)" and vs: "backing (key, r) ds = v # vs"
      using find_claim [OF Some [unfolded d]] by blast
    have "fold (confirmClaim e h thr) xs = confirmClaim e h thr ((key, r), v # vs)"
    proof (rule fold_one [OF entries(1)])
      show "((key, r), v # vs) \<in> set xs" using entries(2) vs by simp
      show "confirmClaim e h thr y = id" if "y \<in> set xs" "y \<noteq> ((key, r), v # vs)" for y
      proof -
        obtain c us where y: "y = (c, us)" by fastforce
        have "us = backing c ds" using that(1) entries(2) y by simp
        then have "c \<noteq> (key, r)" using that(2) vs y by auto
        then show ?thesis using below [of c us] one [OF enough, of c] that(1) y by fastforce
      qed
    qed
    then show ?thesis
      using Some enough sint_backing [of "(key, r)"]
      by (simp add: d vs spec_confirm_def confirmClaim_def confirmVotes_def Let_def flip: ds_def)
  qed
  then show ?thesis
    using params threshold
    by (simp add: ProcessVoteExtensions_def tallyVotes_eq fold_flat xs_def tally_of_def flip: ds_def)
qed

subsection \<open>Runs\<close>

text \<open>
  A contract reaches the module only by sending it messages: a sudo call is a sequence of messages
  and of changes to the state of other modules.
\<close>

definition sudo_by_messages :: "('s, 'x) HmEnv \<Rightarrow> bool" where
  "sudo_by_messages e \<longleftrightarrow> (\<forall>addr bz w. (msg_step e)\<^sup>*\<^sup>* w (snd (hm_Sudo e addr bz w)))"

lemma msgs_inv:
  assumes "sdk_store e" "codecs_ok e" "(msg_step e)\<^sup>*\<^sup>* w w'" "hm_inv e (w_store w)"
  shows "hm_inv e (w_store w')"
  using assms(3,4) by induction (auto intro: msg_step_inv [OF assms(1,2)])

lemma msgs_roots:
  assumes "sdk_store e" "(msg_step e)\<^sup>*\<^sup>* w w'"
  shows "GetHashRoot e uid algo (w_store w') = GetHashRoot e uid algo (w_store w)"
  using assms(2) by induction (simp_all add: GetHashRoot_def fetch_def msg_step_roots [OF assms(1)])

lemma callContract_msgs: "sudo_by_messages e \<Longrightarrow> (msg_step e)\<^sup>*\<^sup>* w (callContract e h root atts c w)"
  by (auto simp: callContract_def sudo_by_messages_def split: sum.splits)

lemma dispatch_msgs: "sudo_by_messages e \<Longrightarrow> (msg_step e)\<^sup>*\<^sup>* w (dispatchSudoCallbacks e h root atts w)"
proof -
  assume sudo: "sudo_by_messages e"
  have "(msg_step e)\<^sup>*\<^sup>* v (fold (callContract e h root atts) cs v)" for cs v
    by (induction cs arbitrary: v) (auto intro: rtranclp_trans callContract_msgs [OF sudo])
  then show ?thesis by (simp add: dispatchSudoCallbacks_def)
qed

lemma writeRoot_inv:
  assumes "sdk_store e" "codecs_ok e" "sudo_by_messages e" "hm_inv e (w_store w)"
  shows "hm_inv e (w_store (writeRoot e h key v n w))"
  using assms hm_inv_put(5) [OF assms(1,2,4)]
  by (auto simp: writeRoot_def on_store_def Let_def split: prod.splits sum.splits
      intro!: msgs_inv [OF assms(1,2) dispatch_msgs [OF assms(3)]])

lemma fold_keeps: "(\<And>x w. P w \<Longrightarrow> P (f x w)) \<Longrightarrow> P w \<Longrightarrow> P (fold f xs w)"
  by (induction xs arbitrary: w) auto

lemma ProcessVoteExtensions_inv:
  assumes "sdk_store e" "codecs_ok e" "sudo_by_messages e" "hm_inv e (w_store w)"
    and "ProcessVoteExtensions e ordK ordR h votes w = (r, w')"
  shows "hm_inv e (w_store w')"
proof -
  note keep = fold_keeps [where P = "\<lambda>v. hm_inv e (w_store v)"]
  have "hm_inv e (w_store (confirmVotes e h thr key vs v))" if "hm_inv e (w_store v)" for thr key vs v
    using that writeRoot_inv [OF assms(1-3)] by (simp add: confirmVotes_def Let_def)
  then have "hm_inv e (w_store (fold (\<lambda>(key, m). fold (\<lambda>(rootHex, vs). confirmVotes e h thr key vs) (ordR m)) t w))" for thr t
    using assms(4) by (intro keep; clarsimp; intro keep; clarsimp)
  then show ?thesis
    using assms(4,5) by (auto simp: ProcessVoteExtensions_def split: sum.splits prod.splits)
qed

lemma disableAll_inv:
  "sdk_store e \<Longrightarrow> codecs_ok e \<Longrightarrow> hm_inv e s \<Longrightarrow> hm_inv e (disableAll e xs s)"
  by (induction xs arbitrary: s) (auto split: sum.splits intro: hm_inv_put(3) [OF _ _ _ surjective_pairing])

lemma each_keeps:
  "(\<And>x s r s'. P s \<Longrightarrow> f x s = (r, s') \<Longrightarrow> P s') \<Longrightarrow> P s \<Longrightarrow> each f xs s = (r, s') \<Longrightarrow> P s'"
  by (induction xs arbitrary: s) (auto split: prod.splits sum.splits, blast+)

lemma hm_inv_empty: "hm_Get e s = (\<lambda>_. None) \<Longrightarrow> hm_inv e s"
  by (simp add: hm_inv_def keyed_def)

lemma initChain_inv:
  "sdk_store e \<Longrightarrow> codecs_ok e \<Longrightarrow> hm_inv e s \<Longrightarrow> initChain e c s = (r, s') \<Longrightarrow> hm_inv e s'"
  by (auto simp: initChain_def split: prod.splits sum.splits if_splits dest: hm_inv_put(2,6))

lemma InitGenesis_hm_inv:
  assumes sdk: "sdk_store e" "codecs_ok e" and inv: "hm_inv e (w_store w)" and "InitGenesis_hm e gs w = (r, w')"
  shows "hm_inv e (w_store w')"
proof -
  note keep = each_keeps [where P = "hm_inv e"] and puts = hm_inv_put [OF sdk]
  have loops: "hm_inv e s \<Longrightarrow> each (initChain e) cs s = (q, s') \<Longrightarrow> hm_inv e s'"
    "hm_inv e s \<Longrightarrow> each (SetRegisteredContract e) ct s = (q, s') \<Longrightarrow> hm_inv e s'"
    "hm_inv e s \<Longrightarrow> each (SetEscrowRecord e) er s = (q, s') \<Longrightarrow> hm_inv e s'"
    "hm_inv e s \<Longrightarrow> each (SetHashRoot e) hr s = (q, s') \<Longrightarrow> hm_inv e s'" for s s' q cs ct er hr
    by (erule keep [rotated], assumption, erule (1) initChain_inv [OF sdk] puts)+
  obtain r1 s1 where 1: "SetParams e (hg_Params gs) (w_store w) = (r1, s1)" by fastforce
  obtain r2 s2 where 2: "each (initChain e) (hg_RegisteredChains gs) s1 = (r2, s2)" by fastforce
  obtain r3 s3 where 3: "each (SetRegisteredContract e) (hg_RegisteredContracts gs) s2 = (r3, s3)" by fastforce
  obtain r4 s4 where 4: "each (SetEscrowRecord e) (hg_EscrowRecords gs) s3 = (r4, s4)" by fastforce
  obtain r5 s5 where 5: "each (SetHashRoot e) (hg_HashRoots gs) s4 = (r5, s5)" by fastforce
  note i1 = puts(1) [OF inv 1] note i2 = loops(1) [OF i1 2] note i3 = loops(2) [OF i2 3]
  note i4 = loops(3) [OF i3 4] note i5 = loops(4) [OF i4 5]
  show ?thesis
    using assms(4) i1 i2 i3 i4 i5 puts(7) [OF i5]
    by (auto simp: InitGenesis_hm_def CreateModuleAccount_def 1 2 3 4 5 split: sum.splits)
qed

text \<open>
  The module from its genesis on an empty store: messages, ends of blocks, and the vote extensions
  injected into blocks, in any order.
\<close>

inductive hm_run :: "('s, 'x) HmEnv \<Rightarrow> ('s, 'x) world \<Rightarrow> bool" for e where
  genesis: "hm_Get e (w_store w0) = (\<lambda>_. None) \<Longrightarrow> AppModule_InitGenesis_hm e ord bz w0 = (Inr (), w) \<Longrightarrow> hm_run e w"
| message: "hm_run e w \<Longrightarrow> msg_step e w w' \<Longrightarrow> hm_run e w'"
| end_block: "hm_run e w \<Longrightarrow> EndBlocker_hm e h w = (Inr (), w') \<Longrightarrow> hm_run e w'"
| votes: "hm_run e w \<Longrightarrow> ProcessInjectedVoteExtension e ordK ordR h txs w = (r, w') \<Longrightarrow> hm_run e w'"

lemma AppModule_InitGenesis_hm_inv:
  assumes sdk: "sdk_store e" "codecs_ok e" and inv: "hm_inv e (w_store w)"
    and "AppModule_InitGenesis_hm e ord bz w = (r, w')"
  shows "hm_inv e (w_store w')"
proof -
  have sources: "hm_inv e s \<Longrightarrow> each (\<lambda>(uid, sources). SetOracleSources e uid sources) xs s = (q, s') \<Longrightarrow> hm_inv e s'"
    for xs s q s'
    by (erule each_keeps [where P = "hm_inv e", rotated], assumption) (auto dest: hm_inv_put(6) [OF sdk])
  show ?thesis
    using assms(4) inv InitGenesis_hm_inv [OF sdk inv]
    by (fastforce simp: AppModule_InitGenesis_hm_def on_store_def split: sum.splits prod.splits dest: sources)
qed

lemma EndBlocker_hm_inv:
  "sdk_store e \<Longrightarrow> codecs_ok e \<Longrightarrow> hm_inv e (w_store w) \<Longrightarrow> EndBlocker_hm e h w = (r, w') \<Longrightarrow> hm_inv e (w_store w')"
  by (auto simp: EndBlocker_hm_def pruneExpiredEscrows_def Let_def split: sum.splits if_splits
      intro!: hm_inv_put(7) disableAll_inv)

lemma ProcessInjected_world:
  "ProcessInjectedVoteExtension e ordK ordR h txs w = (r, w') \<Longrightarrow>
   w' = w \<or> (\<exists>votes q. ProcessVoteExtensions e ordK ordR h votes w = (q, w'))"
  by (auto simp: ProcessInjectedVoteExtension_def split: if_splits sum.splits prod.splits hm_error.splits)

text \<open>C8. From its genesis on an empty store, under messages, ends of blocks and injected vote extensions in any
  order, every chain, contract, escrow record and hash root of the module is stored under the key built from its own
  fields.\<close>

theorem records_keep_their_keys:
  assumes "sdk_store e" "codecs_ok e" "sudo_by_messages e" "hm_run e w"
  shows "hm_inv e (w_store w)"
  using assms(4)
proof induction
  case (genesis w0 ord bz w)
  show ?case by (rule AppModule_InitGenesis_hm_inv [OF assms(1,2) hm_inv_empty [OF genesis(1)] genesis(2)])
next
  case (message w w')
  then show ?case using msg_step_inv [OF assms(1,2)] by blast
next
  case (end_block w h w')
  then show ?case using EndBlocker_hm_inv [OF assms(1,2)] by blast
next
  case (votes w ordK ordR h txs r w')
  from ProcessInjected_world [OF votes(2)] show ?case
    using votes(3) ProcessVoteExtensions_inv [OF assms(1-3) votes(3)] by auto
qed

subsection \<open>Vote extensions\<close>

definition attested :: "('s, 'x) HmEnv \<Rightarrow> OracleSource list \<Rightarrow> OracleAttestation \<Rightarrow> bool" where
  "attested e sources att \<longleftrightarrow>
    (\<exists>src auth. findOracleSource sources (at_SourceId att) = Some src \<and> os_Authenticator src = Some auth \<and>
      ca_Algorithm auth = ''ed25519'' \<and> length (ca_Pubkey auth) = 32 \<and>
      hm_ed25519 e (ca_Pubkey auth)
        (custodyPayload e (ca_Scope auth) (at_SourceId att) (at_Value att) (at_Height att) (at_Timestamp att))
        (at_CustodySignature att))"

lemma checkAttestation_iff: "checkAttestation e sources att = Inr () \<longleftrightarrow> attested e sources att"
  by (auto simp: checkAttestation_def attested_def Let_def split: option.splits if_splits)

lemma checkAttestations_iff: "checkAttestations e sources atts = Inr () \<longleftrightarrow> list_all (attested e sources) atts"
  by (induction atts) (auto simp: checkAttestation_iff simp flip: checkAttestation_iff split: sum.splits)

lemma verifyOracleAttestations_iff:
  "verifyOracleAttestations e uid atts s = Inr () \<longleftrightarrow>
    atts = [] \<or> (\<exists>sources p. GetOracleSources e uid s = Inr sources \<and> GetParams e s = Inr p \<and> list_all (attested e sources) atts)"
  by (auto simp: verifyOracleAttestations_def checkAttestations_iff split: sum.splits)

lemma VerifyVoteExtension_ACCEPT:
  "VerifyVoteExtensionHandler e ext s = ACCEPT \<longleftrightarrow>
    ext = [] \<or>
    (\<exists>d chain atts. cd_Unmarshal (hm_extension e) ext = Inr d \<and> GetRegisteredChain e (ve_ChainUid d) s = Inr chain \<and>
      rg_Enabled chain \<and> atts = voteExtensionAttestations e d \<and>
      (atts = [] \<or> (\<exists>sources p. GetOracleSources e (ve_ChainUid d) s = Inr sources \<and> GetParams e s = Inr p \<and>
        list_all (attested e sources) atts)))"
  unfolding verifyOracleAttestations_iff [symmetric] by (auto simp: VerifyVoteExtensionHandler_def split: sum.splits)



lemma putLE64_inject [simp]: "putLE64 v = putLE64 w \<longleftrightarrow> v = w"
proof
  assume eq: "putLE64 v = putLE64 w"
  show "v = w"
  proof (rule bit_word_eqI)
    fix n assume n: "n < LENGTH(64)"
    then have "n div 8 < 8" by simp
    then have "(ucast (drop_bit (8 * (n div 8)) v) :: byte) = ucast (drop_bit (8 * (n div 8)) w)"
      using eq by (simp add: putLE64_def)
    then have "bit (ucast (drop_bit (8 * (n div 8)) v) :: byte) (n mod 8) = bit (ucast (drop_bit (8 * (n div 8)) w) :: byte) (n mod 8)"
      by simp
    then show "bit v n = bit w n" by (simp add: bit_simps)
  qed
qed simp

lemma length_putLE64 [simp]: "length (putLE64 v) = 8" by (simp add: putLE64_def)

text \<open>The message a custody key signs determines the digest of scope and source, the value, the height
  and the time stamp.\<close>

theorem custodyPayload_binds:
  assumes "\<And>x. length (hm_sha256 e x) = 32"
  shows "custodyPayload e sc sid v h t = custodyPayload e sc' sid' v' h' t' \<longleftrightarrow>
    custodyDomain e sc sid = custodyDomain e sc' sid' \<and> v = v' \<and> h = h' \<and> t = t'"
proof -
  have "length (custodyDomain e a b) = 32" for a b by (simp add: custodyDomain_def assms)
  then show ?thesis by (auto simp: custodyPayload_def append_eq_append_conv simp flip: append_assoc)
qed

subsection \<open>A forged commit\<close>

text \<open>C9. A proposer alone confirms any root: a first transaction that carries a made-up commit with one vote of
  power 1 is accepted by every validator and stores the root it names, whatever the validator set is, since neither the
  proposal check nor the tally compares the commit with the votes that were signed.\<close>

theorem forged_commit_confirms:
  assumes sdk: "sdk_store e" "codecs_ok e" "sudo_by_messages e"
    and orders: "\<And>t. mset (ordK t) = mset t" "\<And>m. mset (ordR m) = mset m"
    and params: "GetParams e (w_store w) = Inr p" "hm_Threshold e (pr_QuorumFraction p) 1 = Inr thr" "sint thr \<le> 1"
    and ext: "cd_Unmarshal (hm_extension e) ext = Inr d" "ext \<noteq> []"
    and commit: "cd_Unmarshal (hm_commit e) bz = Inr [\<lparr>ev_Power = 1, ev_VoteExtension = ext\<rparr>]"
    and root: "root = \<lparr>hr_ChainUid = ve_ChainUid d, hr_Algo = ve_Algo d, hr_Height = ve_ForeignHeight d,
      hr_Root = ve_Root d, hr_AttestationCount = 1, hr_BlockTime = ve_ForeignBlockTime d,
      hr_Attestations = map Some (voteExtensionAttestations e d)\<rparr>" "cd_Marshal (hm_root e) root = Inr b"
  shows "ProcessProposalHandler e ((InjectedVoteExtensionPrefix @ bz) # txs) = ACCEPT \<and>
    (\<exists>w'. ProcessInjectedVoteExtension e ordK ordR h ((InjectedVoteExtensionPrefix @ bz) # txs) w = (Inr True, w') \<and>
      GetHashRoot e (ve_ChainUid d) (ve_Algo d) (w_store w') = Inr root)"
proof -
  define rv where "rv = \<lparr>rv_root = ve_Root d, rv_height = ve_ForeignHeight d, rv_blockTime = ve_ForeignBlockTime d,
    rv_votingPower = 1, rv_attestations = voteExtensionAttestations e d\<rparr>"
  have power: "rv_votingPower rv = 1" by (simp add: rv_def)
  have perm1: "ordK [x] = [x]" "ordR [y] = [y]" for x y
    using orders(1) [of "[x]"] orders(2) [of "[y]"] by simp_all
  obtain s where s: "SetHashRoot e root (w_store w) = (Inr (), s)"
    using root(2) by (simp add: SetHashRoot_def put_def)
  define w' where "w' = dispatchSudoCallbacks e h root (rv_attestations rv) (w\<lparr>w_store := s\<rparr>)"
  have "writeRoot e h (ve_ChainUid d, ve_Algo d) rv 1 w = w'"
    using s by (simp add: writeRoot_def on_store_def w'_def rv_def root(1))
  moreover have "\<not> sint (1 :: i64) < sint thr" using params(3) by simp
  ultimately have run: "ProcessVoteExtensions e ordK ordR h [\<lparr>ev_Power = 1, ev_VoteExtension = ext\<rparr>] w = (Inr (), w')"
    using params(1,2) ext by (simp add: ProcessVoteExtensions_def readVote_def confirmVotes_def perm1 power flip: rv_def)
  have "GetHashRoot e (ve_ChainUid d) (ve_Algo d) (w_store w') = Inr root"
    using msgs_roots [OF sdk(1) dispatch_msgs [OF sdk(3)]] setters_read(4) [OF sdk(1,2) s]
    by (simp add: w'_def root(1))
  then show ?thesis
    using commit run by (simp add: ProcessProposalHandler_def ProcessInjectedVoteExtension_def HasPrefix_append)
qed

lemma sample_sudo: "sudo_by_messages sample_env"
  by (simp add: sudo_by_messages_def)

definition sample_votes :: "ExtendedVote list" where
  "sample_votes = [sample_vote 10 [7], sample_vote 10 [], sample_vote 10 [7]]"

lemma sample_readVotes:
  "readVotes sample_env sample_votes =
    replicate 2 (((''zcash'', ''sha256''), ''010203''), \<lparr>rv_root = [1, 2, 3], rv_height = 7, rv_blockTime = 9,
      rv_votingPower = 10, rv_attestations = voteExtensionAttestations sample_env sample_data\<rparr>)"
proof -
  have "EncodeToString [1, 2, 3] = ''010203''" by code_simp
  then show ?thesis
    by (simp add: readVotes_def sample_votes_def sample_vote_def readVote_def List.map_filter_simps table_codec_def
        sample_data_def numeral_2_eq_2)
qed

theorem votes_confirm_one_root_witness:
  "ProcessVoteExtensions sample_env rev rev 9 sample_votes sample_world =
    (Inr (), writeRoot sample_env 9 (''zcash'', ''sha256'') \<lparr>rv_root = [1, 2, 3], rv_height = 7, rv_blockTime = 9,
      rv_votingPower = 10, rv_attestations = voteExtensionAttestations sample_env sample_data\<rparr> 2 sample_world)"
proof -
  have thr: "hm_Threshold sample_env (pr_QuorumFraction DefaultParams) (sum_list (map ev_Power sample_votes)) = Inr 20"
    by (simp add: DefaultParams_def sample_votes_def sample_vote_def)
  have "weight_cast sample_votes = 30" by (simp add: weight_cast_def sample_votes_def sample_vote_def)
  then have "ProcessVoteExtensions sample_env rev rev 9 sample_votes sample_world =
    (Inr (), spec_confirm sample_env 9 20 sample_votes sample_world)"
    using votes_confirm_one_root [OF _ thr, of sample_world rev rev 9] sample_reads(1)
    by (simp add: sample_votes_def sample_vote_def)
  then show ?thesis by (simp add: spec_confirm_def sample_readVotes numeral_2_eq_2)
qed

text \<open>
  The hypothesis on the threshold is needed: with the default fraction and a total power of 2 the
  threshold truncates to 1, two conflicting roots are both confirmed, and the one that stays depends
  on the order of the map.
\<close>

lemma split_vote_depends_on_order:
  "GetHashRoot sample_env ''zcash'' ''sha256''
     (w_store (snd (ProcessVoteExtensions sample_env id id 9 [sample_vote 1 [7], sample_vote 1 [8]] sample_world))) =
   Inr ((sample_root 1)\<lparr>hr_Root := [4]\<rparr>)"
  "GetHashRoot sample_env ''zcash'' ''sha256''
     (w_store (snd (ProcessVoteExtensions sample_env id rev 9 [sample_vote 1 [7], sample_vote 1 [8]] sample_world))) =
   Inr (sample_root 1)"
proof -
  have hex: "EncodeToString [1, 2, 3] = ''010203''" "EncodeToString [4] = ''04''" by code_simp+
  have quiet: "dispatchSudoCallbacks sample_env h root atts w = w" for h root atts w
  proof -
    have "callContract sample_env h root atts c = id" for c
      by (auto simp: callContract_def fun_eq_iff split: sum.splits)
    then show ?thesis by (simp add: dispatchSudoCallbacks_def fold_none)
  qed
  show "GetHashRoot sample_env ''zcash'' ''sha256''
     (w_store (snd (ProcessVoteExtensions sample_env id id 9 [sample_vote 1 [7], sample_vote 1 [8]] sample_world))) =
   Inr ((sample_root 1)\<lparr>hr_Root := [4]\<rparr>)"
  "GetHashRoot sample_env ''zcash'' ''sha256''
     (w_store (snd (ProcessVoteExtensions sample_env id rev 9 [sample_vote 1 [7], sample_vote 1 [8]] sample_world))) =
   Inr (sample_root 1)"
    by (simp_all add: ProcessVoteExtensions_def sample_reads readVote_def sample_vote_def table_codec_def sample_data_def
        sample_fork_def hex DefaultParams_def confirmVotes_def writeRoot_def on_store_def SetHashRoot_def put_def
        sample_root_def quiet GetHashRoot_def fetch_def lookup_update voteExtensionAttestations_def List.map_filter_simps)
qed

theorem records_keep_their_keys_witness:
  "\<exists>w. hm_run sample_env w \<and> GetRegisteredContract sample_env ''terp1c'' (w_store w) = Inr (sample_contract True) \<and>
     hm_inv sample_env (w_store w)"
proof -
  define w where "w = snd (AppModule_InitGenesis_hm sample_env id [1] \<lparr>w_store = DAList.empty, w_ext = 0\<rparr>)"
  have run: "AppModule_InitGenesis_hm sample_env id [1] \<lparr>w_store = DAList.empty, w_ext = 0\<rparr> = (Inr (), w)"
    "GetRegisteredContract sample_env ''terp1c'' (w_store w) = Inr (sample_contract True)"
    by (simp_all add: w_def AppModule_InitGenesis_hm_def InitGenesis_hm_def sample_genesis_def DefaultGenesis_hm_def sample_eval
        SetParams_def SetRegisteredContract_def SetEscrowRecord_def put_def on_store_def SetPruneEpoch_def
        CreateModuleAccount_def GetRegisteredContract_def fetch_def)
  have "hm_run sample_env w" by (rule hm_run.genesis [OF _ run(1)]) (simp add: fun_eq_iff)
  then show ?thesis using records_keep_their_keys [OF sample_sdk sample_codecs sample_sudo] run(2) by blast
qed

definition sample_register_chain :: MsgRegisterChain where
  "sample_register_chain = \<lparr>mc_Authority = ''gov'', mc_Chain = sample_chain\<rparr>"


theorem custodyPayload_binds_witness:
  "custodyPayload sample_env ''s'' ''a'' [1] 2 3 \<noteq> custodyPayload sample_env ''s'' ''a'' [1, 2] 2 3"
  using custodyPayload_binds [of sample_env "''s''" "''a''" "[1]" 2 3 "''s''" "''a''" "[1, 2]" 2 3] by simp

theorem forged_commit_confirms_witness:
  "\<exists>w'. ProcessProposalHandler sample_env [InjectedVoteExtensionPrefix @ [1]] = ACCEPT \<and>
     ProcessInjectedVoteExtension sample_env id id 9 [InjectedVoteExtensionPrefix @ [1]] sample_world = (Inr True, w') \<and>
     GetHashRoot sample_env ''zcash'' ''sha256'' (w_store w') = Inr (sample_root 1)"
proof -
  have "hm_Threshold sample_env (pr_QuorumFraction DefaultParams) 1 = Inr 0" by (simp add: DefaultParams_def)
  moreover have "cd_Unmarshal (hm_commit sample_env) [1] = Inr [\<lparr>ev_Power = 1, ev_VoteExtension = [7]\<rparr>]"
    by (simp add: table_codec_def sample_vote_def)
  moreover have "cd_Marshal (hm_root sample_env) (sample_root 1) = Inr [1]" by (simp add: sample_eval)
  ultimately show ?thesis
    using forged_commit_confirms [OF sample_sdk sample_codecs sample_sudo, of id id sample_world DefaultParams 0 "[7]" sample_data "[1]"
        "sample_root 1" "[1]" "[]" 9] sample_reads(1)
    by (simp add: table_codec_def sample_root_def sample_data_def voteExtensionAttestations_def List.map_filter_simps)
qed

end
