(* ===== verification/Token_Factory.thy ===== *)
theory Token_Factory
  imports Sdk_Base
begin

text \<open>
  \<open>x/tokenfactory\<close>: denominations of the form \<open>factory/creator/subdenom\<close> (\<open>types/denoms.go\<close>), their
  creation, the messages of their admins (\<open>keeper/*.go\<close>, \<open>types/msgs.go\<close>), and genesis.  The bank, the
  community pool, the parameter store, addresses and the checks of the SDK on denominations, coins and
  metadata are fields of \<open>TfEnv\<close>.
\<close>

subsection \<open>Types\<close>

datatype tf_error =
    ErrDenomExists | ErrUnauthorized_tf | ErrInvalidDenom | ErrInvalidCreator | ErrInvalidAuthorityMetadata
  | ErrInvalidGenesis | ErrSubdenomTooLong | ErrCreatorTooLong | ErrDenomDoesNotExist | ErrCapabilityNotEnabled
  | ErrInvalidAddress | ErrInvalidCoins | ErrInvalidSigner_tf | TfErrorf string | TfPanic string

record DenomAuthorityMetadata =
  am_Admin :: string

text \<open>\<open>banktypes.Metadata\<close>, with the fields the module sets.\<close>

record Metadata =
  md_DenomUnits :: "(string \<times> u32) list"
  md_Base :: string
  md_Display :: string
  md_Name :: string
  md_Symbol :: string

text \<open>\<open>None\<close> is the nil slice of coins.\<close>

record TfParams =
  tp_DenomCreationFee :: "Coin list option"
  tp_DenomCreationGasConsume :: u64

record GenesisDenom =
  gd_Denom :: string
  gd_AuthorityMetadata :: DenomAuthorityMetadata

record tf_genesis =
  tg_Params :: TfParams
  tg_FactoryDenoms :: "GenesisDenom list"

record tfKeeper =
  tk_enabledCapabilities :: "string list"
  tk_authority :: string

record ('s, 'b) tf_world =
  tw_store :: 's
  tw_bank :: 'b

type_synonym ('s, 'b, 'a) tf_result = "(tf_error + 'a) \<times> ('s, 'b) tf_world"

record ('s, 'b) TfEnv =
  tf_Get :: "'s \<Rightarrow> bytes \<Rightarrow> bytes option"
  tf_Set :: "bytes \<Rightarrow> bytes \<Rightarrow> 's \<Rightarrow> 's"
  tf_Iter :: "bytes \<Rightarrow> 's \<Rightarrow> (bytes \<times> bytes) list"
  tf_metadata :: "(tf_error, DenomAuthorityMetadata) codec"
  tf_bech32 :: "string \<Rightarrow> tf_error + bytes"
  tf_String :: "bytes \<Rightarrow> string"
  tf_ValidateDenom :: "string \<Rightarrow> tf_error + unit"
  tf_CoinIsValid :: "Coin \<Rightarrow> bool"
  tf_CoinsValidate :: "Coin list option \<Rightarrow> tf_error + unit"
  tf_MetadataValidate :: "Metadata \<Rightarrow> tf_error + unit"
  tf_GetDenomMetaData :: "string \<Rightarrow> 'b \<Rightarrow> Metadata option"
  tf_SetDenomMetaData :: "Metadata \<Rightarrow> 'b \<Rightarrow> 'b"
  tf_MintCoins :: "Coin \<Rightarrow> 'b \<Rightarrow> (tf_error + unit) \<times> 'b"
  tf_BurnCoins :: "Coin \<Rightarrow> 'b \<Rightarrow> (tf_error + unit) \<times> 'b"
  tf_SendModuleToAccount :: "bytes \<Rightarrow> Coin \<Rightarrow> 'b \<Rightarrow> (tf_error + unit) \<times> 'b"
  tf_SendAccountToModule :: "bytes \<Rightarrow> Coin \<Rightarrow> 'b \<Rightarrow> (tf_error + unit) \<times> 'b"
  tf_SendCoins :: "bytes \<Rightarrow> bytes \<Rightarrow> Coin \<Rightarrow> 'b \<Rightarrow> (tf_error + unit) \<times> 'b"
  tf_BlockedAddr :: "bytes \<Rightarrow> bool"
  tf_FundCommunityPool :: "Coin list \<Rightarrow> bytes \<Rightarrow> 'b \<Rightarrow> (tf_error + unit) \<times> 'b"
  tf_ConsumeGas :: "u64 \<Rightarrow> 'b \<Rightarrow> (tf_error + unit) \<times> 'b"
  tf_GetParamSet :: "'b \<Rightarrow> TfParams"
  tf_SetParamSet :: "TfParams \<Rightarrow> 'b \<Rightarrow> (tf_error + unit) \<times> 'b"
  tf_GetModuleAccount :: "'b \<Rightarrow> 'b"

text \<open>A step of the bank and the other modules.\<close>

definition on_bank :: "('b \<Rightarrow> (tf_error + 'a) \<times> 'b) \<Rightarrow> ('s, 'b) tf_world \<Rightarrow> ('s, 'b, 'a) tf_result" where
  "on_bank f w = (case f (tw_bank w) of (r, b) \<Rightarrow> (r, w\<lparr>tw_bank := b\<rparr>))"

text \<open>A check that changes nothing.\<close>

definition check :: "tf_error + 'a \<Rightarrow> ('s, 'b) tf_world \<Rightarrow> ('s, 'b, 'a) tf_result" where
  "check r w = (r, w)"

subsection \<open>Denominations\<close>

definition ModuleDenomPrefix :: string where "ModuleDenomPrefix = ''factory''"
definition MaxSubdenomLength :: nat where "MaxSubdenomLength = 44"
definition MaxHrpLength :: nat where "MaxHrpLength = 16"
definition MaxCreatorLength :: nat where "MaxCreatorLength = 59 + MaxHrpLength"

definition GetTokenDenom :: "('s, 'b) TfEnv \<Rightarrow> string \<Rightarrow> string \<Rightarrow> tf_error + string" where
  "GetTokenDenom e creator subdenom =
    (if length subdenom > MaxSubdenomLength then Inl ErrSubdenomTooLong
     else if length creator > MaxCreatorLength then Inl ErrCreatorTooLong
     else if CHR ''/'' \<in> set creator then Inl ErrInvalidCreator
     else let denom = Join (CHR ''/'') [ModuleDenomPrefix, creator, subdenom]
          in (case tf_ValidateDenom e denom of Inl err \<Rightarrow> Inl err | Inr _ \<Rightarrow> Inr denom))"

definition DeconstructDenom :: "('s, 'b) TfEnv \<Rightarrow> string \<Rightarrow> tf_error + string \<times> string" where
  "DeconstructDenom e denom =
    (case tf_ValidateDenom e denom of
       Inl err \<Rightarrow> Inl err
     | Inr _ \<Rightarrow>
         let strParts = Split (CHR ''/'') denom
         in if length strParts < 3 then Inl ErrInvalidDenom
            else if strParts ! 0 \<noteq> ModuleDenomPrefix then Inl ErrInvalidDenom
            else (case tf_bech32 e (strParts ! 1) of
                Inl _ \<Rightarrow> Inl ErrInvalidDenom
              | Inr creatorAddr \<Rightarrow> Inr (tf_String e creatorAddr, Join (CHR ''/'') (drop 2 strParts))))"

subsection \<open>Store\<close>

definition KeySeparator :: char where "KeySeparator = CHR ''|''"
definition DenomAuthorityMetadataKey :: string where "DenomAuthorityMetadataKey = ''authoritymetadata''"
definition DenomsPrefixKey :: string where "DenomsPrefixKey = ''denoms''"
definition CreatorPrefixKey :: string where "CreatorPrefixKey = ''creator''"

definition GetDenomPrefixStore :: "string \<Rightarrow> bytes" where
  "GetDenomPrefixStore denom = str (Join KeySeparator [DenomsPrefixKey, denom, []])"

definition GetCreatorPrefix :: "string \<Rightarrow> bytes" where
  "GetCreatorPrefix creator = str (Join KeySeparator [CreatorPrefixKey, creator, []])"

definition GetCreatorsPrefix :: bytes where
  "GetCreatorsPrefix = str (Join KeySeparator [CreatorPrefixKey, []])"

text \<open>A prefix store puts its prefix before every key.\<close>

definition authority_key :: "string \<Rightarrow> bytes" where
  "authority_key denom = GetDenomPrefixStore denom @ str DenomAuthorityMetadataKey"

definition Metadata_Validate :: "('s, 'b) TfEnv \<Rightarrow> DenomAuthorityMetadata \<Rightarrow> tf_error + unit" where
  "Metadata_Validate e metadata =
    (if am_Admin metadata \<noteq> []
     then (case tf_bech32 e (am_Admin metadata) of Inl err \<Rightarrow> Inl err | Inr _ \<Rightarrow> Inr ())
     else Inr ())"

text \<open>A missing entry is nil, which unmarshals like no bytes.\<close>

definition GetAuthorityMetadata :: "('s, 'b) TfEnv \<Rightarrow> string \<Rightarrow> 's \<Rightarrow> tf_error + DenomAuthorityMetadata" where
  "GetAuthorityMetadata e denom s =
    cd_Unmarshal (tf_metadata e) (case tf_Get e s (authority_key denom) of None \<Rightarrow> [] | Some bz \<Rightarrow> bz)"

definition setAuthorityMetadata ::
  "('s, 'b) TfEnv \<Rightarrow> string \<Rightarrow> DenomAuthorityMetadata \<Rightarrow> ('s, 'b) tf_world \<Rightarrow> ('s, 'b, unit) tf_result" where
  "setAuthorityMetadata e denom metadata w =
    bindw (check (Metadata_Validate e metadata) w) (\<lambda>_ w.
    bindw (check (cd_Marshal (tf_metadata e) metadata) w) (\<lambda>bz w.
    (Inr (), w\<lparr>tw_store := tf_Set e (authority_key denom) bz (tw_store w)\<rparr>)))"

definition setAdmin :: "('s, 'b) TfEnv \<Rightarrow> string \<Rightarrow> string \<Rightarrow> ('s, 'b) tf_world \<Rightarrow> ('s, 'b, unit) tf_result" where
  "setAdmin e denom admin w =
    bindw (check (GetAuthorityMetadata e denom (tw_store w)) w) (\<lambda>metadata w.
    setAuthorityMetadata e denom (metadata\<lparr>am_Admin := admin\<rparr>) w)"

definition addDenomFromCreator :: "('s, 'b) TfEnv \<Rightarrow> string \<Rightarrow> string \<Rightarrow> 's \<Rightarrow> 's" where
  "addDenomFromCreator e creator denom s = tf_Set e (GetCreatorPrefix creator @ str denom) (str denom) s"

definition GetDenomsFromCreator :: "('s, 'b) TfEnv \<Rightarrow> string \<Rightarrow> 's \<Rightarrow> string list" where
  "GetDenomsFromCreator e creator s =
    map (\<lambda>(k, v). unstr (drop (length (GetCreatorPrefix creator)) k)) (tf_Iter e (GetCreatorPrefix creator) s)"

definition GetAllDenomsIterator :: "('s, 'b) TfEnv \<Rightarrow> 's \<Rightarrow> (bytes \<times> bytes) list" where
  "GetAllDenomsIterator e s = tf_Iter e GetCreatorsPrefix s"

subsection \<open>Creating a denomination\<close>

definition createDenomAfterValidation ::
  "('s, 'b) TfEnv \<Rightarrow> string \<Rightarrow> string \<Rightarrow> ('s, 'b) tf_world \<Rightarrow> ('s, 'b, unit) tf_result" where
  "createDenomAfterValidation e creatorAddr denom w =
    (let denomMetaData = \<lparr>md_DenomUnits = [(denom, 0)], md_Base = denom, md_Display = denom, md_Name = denom, md_Symbol = denom\<rparr>;
         w = w\<lparr>tw_bank := tf_SetDenomMetaData e denomMetaData (tw_bank w)\<rparr>
     in bindw (setAuthorityMetadata e denom \<lparr>am_Admin = creatorAddr\<rparr> w) (\<lambda>_ w.
        (Inr (), w\<lparr>tw_store := addDenomFromCreator e creatorAddr denom (tw_store w)\<rparr>)))"

definition validateCreateDenom :: "('s, 'b) TfEnv \<Rightarrow> string \<Rightarrow> string \<Rightarrow> ('s, 'b) tf_world \<Rightarrow> tf_error + string" where
  "validateCreateDenom e creatorAddr subdenom w =
    (case GetTokenDenom e creatorAddr subdenom of
       Inl err \<Rightarrow> Inl err
     | Inr denom \<Rightarrow> if tf_GetDenomMetaData e denom (tw_bank w) \<noteq> None then Inl ErrDenomExists else Inr denom)"

definition chargeForCreateDenom :: "('s, 'b) TfEnv \<Rightarrow> string \<Rightarrow> ('s, 'b) tf_world \<Rightarrow> ('s, 'b, unit) tf_result" where
  "chargeForCreateDenom e creatorAddr w =
    (let params = tf_GetParamSet e (tw_bank w)
     in bindw (case tp_DenomCreationFee params of
                 None \<Rightarrow> (Inr (), w)
               | Some fee \<Rightarrow> bindw (check (tf_bech32 e creatorAddr) w) (\<lambda>accAddr w. on_bank (tf_FundCommunityPool e fee accAddr) w))
          (\<lambda>_ w. if tp_DenomCreationGasConsume params \<noteq> 0
                 then on_bank (tf_ConsumeGas e (tp_DenomCreationGasConsume params)) w
                 else (Inr (), w)))"

definition CreateDenom :: "('s, 'b) TfEnv \<Rightarrow> string \<Rightarrow> string \<Rightarrow> ('s, 'b) tf_world \<Rightarrow> ('s, 'b, string) tf_result" where
  "CreateDenom e creatorAddr subdenom w =
    bindw (check (validateCreateDenom e creatorAddr subdenom w) w) (\<lambda>denom w.
    bindw (chargeForCreateDenom e creatorAddr w) (\<lambda>_ w.
    bindw (createDenomAfterValidation e creatorAddr denom w) (\<lambda>_ w. (Inr denom, w))))"

subsection \<open>Bank actions\<close>

definition mintTo :: "('s, 'b) TfEnv \<Rightarrow> Coin \<Rightarrow> string \<Rightarrow> ('s, 'b) tf_world \<Rightarrow> ('s, 'b, unit) tf_result" where
  "mintTo e amount to w =
    bindw (check (DeconstructDenom e (cn_Denom amount)) w) (\<lambda>_ w.
    bindw (on_bank (tf_MintCoins e amount) w) (\<lambda>_ w.
    bindw (check (tf_bech32 e to) w) (\<lambda>addr w.
    if tf_BlockedAddr e addr then (Inl (TfErrorf ''failed to mint to blocked address''), w)
    else on_bank (tf_SendModuleToAccount e addr amount) w)))"

definition burnFrom :: "('s, 'b) TfEnv \<Rightarrow> Coin \<Rightarrow> string \<Rightarrow> ('s, 'b) tf_world \<Rightarrow> ('s, 'b, unit) tf_result" where
  "burnFrom e amount from w =
    bindw (check (DeconstructDenom e (cn_Denom amount)) w) (\<lambda>_ w.
    bindw (check (tf_bech32 e from) w) (\<lambda>addr w.
    if tf_BlockedAddr e addr then (Inl (TfErrorf ''failed to burn from blocked address''), w)
    else bindw (on_bank (tf_SendAccountToModule e addr amount) w) (\<lambda>_ w. on_bank (tf_BurnCoins e amount) w)))"

definition forceTransfer ::
  "('s, 'b) TfEnv \<Rightarrow> Coin \<Rightarrow> string \<Rightarrow> string \<Rightarrow> ('s, 'b) tf_world \<Rightarrow> ('s, 'b, unit) tf_result" where
  "forceTransfer e amount fromAddr toAddr w =
    bindw (check (DeconstructDenom e (cn_Denom amount)) w) (\<lambda>_ w.
    bindw (check (tf_bech32 e fromAddr) w) (\<lambda>fromSdkAddr w.
    bindw (check (tf_bech32 e toAddr) w) (\<lambda>toSdkAddr w.
    if tf_BlockedAddr e toSdkAddr then (Inl (TfErrorf ''failed to force transfer to blocked address''), w)
    else on_bank (tf_SendCoins e fromSdkAddr toSdkAddr amount) w)))"

subsection \<open>Messages\<close>

definition EnableSetMetadata :: string where "EnableSetMetadata = ''enable_metadata''"
definition EnableForceTransfer :: string where "EnableForceTransfer = ''enable_force_transfer''"
definition EnableBurnFrom :: string where "EnableBurnFrom = ''enable_burn_from''"

fun capabilityIn :: "string list \<Rightarrow> string \<Rightarrow> bool" where
  "capabilityIn [] capability = False"
| "capabilityIn (v # vs) capability = (if v = capability then True else capabilityIn vs capability)"

definition IsCapabilityEnabled :: "string list \<Rightarrow> string \<Rightarrow> bool" where
  "IsCapabilityEnabled enabledCapabilities capability =
    (if length enabledCapabilities = 0 then True else capabilityIn enabledCapabilities capability)"

text \<open>The keeper as \<open>NewKeeper\<close> builds it: capabilities and authority are not among its arguments.\<close>

definition NewKeeper_tf :: tfKeeper where
  "NewKeeper_tf = \<lparr>tk_enabledCapabilities = [], tk_authority = []\<rparr>"

record MsgCreateDenom =
  cd_Sender :: string
  cd_Subdenom :: string

record MsgMint =
  mm_Sender :: string
  mm_Amount :: Coin
  mm_MintToAddress :: string

record MsgBurn =
  mb_Sender :: string
  mb_Amount :: Coin
  mb_BurnFromAddress :: string

record MsgForceTransfer =
  ft_Sender :: string
  ft_Amount :: Coin
  ft_TransferFromAddress :: string
  ft_TransferToAddress :: string

record MsgChangeAdmin =
  ca_Sender :: string
  ca_Denom :: string
  ca_NewAdmin :: string

record MsgSetDenomMetadata =
  sm_Sender :: string
  sm_Metadata :: Metadata

record MsgUpdateParams_tf =
  up_Authority :: string
  up_Params :: TfParams

definition valid_address :: "('s, 'b) TfEnv \<Rightarrow> string \<Rightarrow> tf_error + unit" where
  "valid_address e a = (case tf_bech32 e a of Inl _ \<Rightarrow> Inl ErrInvalidAddress | Inr _ \<Rightarrow> Inr ())"

definition CreateDenom_ValidateBasic :: "('s, 'b) TfEnv \<Rightarrow> MsgCreateDenom \<Rightarrow> tf_error + unit" where
  "CreateDenom_ValidateBasic e m =
    (case valid_address e (cd_Sender m) of
       Inl err \<Rightarrow> Inl err
     | Inr _ \<Rightarrow> (case GetTokenDenom e (cd_Sender m) (cd_Subdenom m) of Inl _ \<Rightarrow> Inl ErrInvalidDenom | Inr _ \<Rightarrow> Inr ()))"

definition Mint_ValidateBasic :: "('s, 'b) TfEnv \<Rightarrow> MsgMint \<Rightarrow> tf_error + unit" where
  "Mint_ValidateBasic e m =
    (case valid_address e (mm_Sender m) of
       Inl err \<Rightarrow> Inl err
     | Inr _ \<Rightarrow> (case (if mm_MintToAddress m \<noteq> [] then valid_address e (mm_MintToAddress m) else Inr ()) of
         Inl err \<Rightarrow> Inl err
       | Inr _ \<Rightarrow> if \<not> tf_CoinIsValid e (mm_Amount m) \<or> cn_Amount (mm_Amount m) = 0 then Inl ErrInvalidCoins else Inr ()))"

definition Burn_ValidateBasic :: "('s, 'b) TfEnv \<Rightarrow> MsgBurn \<Rightarrow> tf_error + unit" where
  "Burn_ValidateBasic e m =
    (case valid_address e (mb_Sender m) of
       Inl err \<Rightarrow> Inl err
     | Inr _ \<Rightarrow>
         if \<not> tf_CoinIsValid e (mb_Amount m) \<or> cn_Amount (mb_Amount m) = 0 then Inl ErrInvalidCoins
         else if mb_BurnFromAddress m \<noteq> [] then valid_address e (mb_BurnFromAddress m)
         else Inr ())"

definition ForceTransfer_ValidateBasic :: "('s, 'b) TfEnv \<Rightarrow> MsgForceTransfer \<Rightarrow> tf_error + unit" where
  "ForceTransfer_ValidateBasic e m =
    (case valid_address e (ft_Sender m) of
       Inl err \<Rightarrow> Inl err
     | Inr _ \<Rightarrow> (case valid_address e (ft_TransferFromAddress m) of
       Inl err \<Rightarrow> Inl err
     | Inr _ \<Rightarrow> (case valid_address e (ft_TransferToAddress m) of
       Inl err \<Rightarrow> Inl err
     | Inr _ \<Rightarrow> if \<not> tf_CoinIsValid e (ft_Amount m) then Inl ErrInvalidCoins else Inr ())))"

definition ChangeAdmin_ValidateBasic :: "('s, 'b) TfEnv \<Rightarrow> MsgChangeAdmin \<Rightarrow> tf_error + unit" where
  "ChangeAdmin_ValidateBasic e m =
    (case valid_address e (ca_Sender m) of
       Inl err \<Rightarrow> Inl err
     | Inr _ \<Rightarrow> (case valid_address e (ca_NewAdmin m) of
       Inl err \<Rightarrow> Inl err
     | Inr _ \<Rightarrow> (case DeconstructDenom e (ca_Denom m) of Inl err \<Rightarrow> Inl err | Inr _ \<Rightarrow> Inr ())))"

definition SetDenomMetadata_ValidateBasic :: "('s, 'b) TfEnv \<Rightarrow> MsgSetDenomMetadata \<Rightarrow> tf_error + unit" where
  "SetDenomMetadata_ValidateBasic e m =
    (case valid_address e (sm_Sender m) of
       Inl err \<Rightarrow> Inl err
     | Inr _ \<Rightarrow> (case tf_MetadataValidate e (sm_Metadata m) of
       Inl err \<Rightarrow> Inl err
     | Inr _ \<Rightarrow> (case DeconstructDenom e (md_Base (sm_Metadata m)) of Inl err \<Rightarrow> Inl err | Inr _ \<Rightarrow> Inr ())))"

definition Params_Validate_tf :: "('s, 'b) TfEnv \<Rightarrow> TfParams \<Rightarrow> tf_error + unit" where
  "Params_Validate_tf e p =
    (case tf_CoinsValidate e (tp_DenomCreationFee p) of Inl _ \<Rightarrow> Inl (TfErrorf ''invalid denom creation fee'') | Inr _ \<Rightarrow> Inr ())"

definition UpdateParams_ValidateBasic_tf :: "('s, 'b) TfEnv \<Rightarrow> MsgUpdateParams_tf \<Rightarrow> tf_error + unit" where
  "UpdateParams_ValidateBasic_tf e m =
    (case tf_bech32 e (up_Authority m) of Inl err \<Rightarrow> Inl err | Inr _ \<Rightarrow> Params_Validate_tf e (up_Params m))"

definition msgServer_CreateDenom :: "('s, 'b) TfEnv \<Rightarrow> MsgCreateDenom \<Rightarrow> ('s, 'b) tf_world \<Rightarrow> ('s, 'b, string) tf_result" where
  "msgServer_CreateDenom e m w =
    bindw (check (CreateDenom_ValidateBasic e m) w) (\<lambda>_ w. CreateDenom e (cd_Sender m) (cd_Subdenom m) w)"

text \<open>The common guard of the admin messages.\<close>

definition only_admin :: "('s, 'b) TfEnv \<Rightarrow> string \<Rightarrow> string \<Rightarrow> ('s, 'b) tf_world \<Rightarrow> ('s, 'b, unit) tf_result" where
  "only_admin e denom sender w =
    bindw (check (GetAuthorityMetadata e denom (tw_store w)) w) (\<lambda>authorityMetadata w.
    if sender \<noteq> am_Admin authorityMetadata then (Inl ErrUnauthorized_tf, w) else (Inr (), w))"

definition Mint :: "('s, 'b) TfEnv \<Rightarrow> MsgMint \<Rightarrow> ('s, 'b) tf_world \<Rightarrow> ('s, 'b, unit) tf_result" where
  "Mint e m w =
    (if tf_GetDenomMetaData e (cn_Denom (mm_Amount m)) (tw_bank w) = None then (Inl ErrDenomDoesNotExist, w)
     else bindw (only_admin e (cn_Denom (mm_Amount m)) (mm_Sender m) w) (\<lambda>_ w.
       let to = (if mm_MintToAddress m = [] then mm_Sender m else mm_MintToAddress m)
       in mintTo e (mm_Amount m) to w))"

definition Burn :: "('s, 'b) TfEnv \<Rightarrow> tfKeeper \<Rightarrow> MsgBurn \<Rightarrow> ('s, 'b) tf_world \<Rightarrow> ('s, 'b, unit) tf_result" where
  "Burn e k m w =
    bindw (only_admin e (cn_Denom (mb_Amount m)) (mb_Sender m) w) (\<lambda>_ w.
    if mb_BurnFromAddress m = [] then burnFrom e (mb_Amount m) (mb_Sender m) w
    else if \<not> IsCapabilityEnabled (tk_enabledCapabilities k) EnableBurnFrom then (Inl ErrCapabilityNotEnabled, w)
    else burnFrom e (mb_Amount m) (mb_BurnFromAddress m) w)"

definition ForceTransfer :: "('s, 'b) TfEnv \<Rightarrow> tfKeeper \<Rightarrow> MsgForceTransfer \<Rightarrow> ('s, 'b) tf_world \<Rightarrow> ('s, 'b, unit) tf_result" where
  "ForceTransfer e k m w =
    (if \<not> IsCapabilityEnabled (tk_enabledCapabilities k) EnableForceTransfer then (Inl ErrCapabilityNotEnabled, w)
     else bindw (only_admin e (cn_Denom (ft_Amount m)) (ft_Sender m) w) (\<lambda>_ w.
       forceTransfer e (ft_Amount m) (ft_TransferFromAddress m) (ft_TransferToAddress m) w))"

definition ChangeAdmin :: "('s, 'b) TfEnv \<Rightarrow> MsgChangeAdmin \<Rightarrow> ('s, 'b) tf_world \<Rightarrow> ('s, 'b, unit) tf_result" where
  "ChangeAdmin e m w =
    bindw (only_admin e (ca_Denom m) (ca_Sender m) w) (\<lambda>_ w. setAdmin e (ca_Denom m) (ca_NewAdmin m) w)"

definition SetDenomMetadata ::
  "('s, 'b) TfEnv \<Rightarrow> tfKeeper \<Rightarrow> MsgSetDenomMetadata \<Rightarrow> ('s, 'b) tf_world \<Rightarrow> ('s, 'b, unit) tf_result" where
  "SetDenomMetadata e k m w =
    (if \<not> IsCapabilityEnabled (tk_enabledCapabilities k) EnableSetMetadata then (Inl ErrCapabilityNotEnabled, w)
     else bindw (check (tf_MetadataValidate e (sm_Metadata m)) w) (\<lambda>_ w.
       bindw (only_admin e (md_Base (sm_Metadata m)) (sm_Sender m) w) (\<lambda>_ w.
       (Inr (), w\<lparr>tw_bank := tf_SetDenomMetaData e (sm_Metadata m) (tw_bank w)\<rparr>))))"

definition UpdateParams_tf :: "('s, 'b) TfEnv \<Rightarrow> tfKeeper \<Rightarrow> MsgUpdateParams_tf \<Rightarrow> ('s, 'b) tf_world \<Rightarrow> ('s, 'b, unit) tf_result" where
  "UpdateParams_tf e k m w =
    (if tk_authority k \<noteq> up_Authority m then (Inl ErrInvalidSigner_tf, w)
     else on_bank (tf_SetParamSet e (up_Params m)) w)"

subsection \<open>Genesis\<close>

fun checkDenoms :: "('s, 'b) TfEnv \<Rightarrow> string list \<Rightarrow> GenesisDenom list \<Rightarrow> tf_error + unit" where
  "checkDenoms e seen [] = Inr ()"
| "checkDenoms e seen (d # ds) =
    (if gd_Denom d \<in> set seen then Inl ErrInvalidGenesis
     else case DeconstructDenom e (gd_Denom d) of
       Inl err \<Rightarrow> Inl err
     | Inr _ \<Rightarrow>
         if am_Admin (gd_AuthorityMetadata d) \<noteq> []
         then (case tf_bech32 e (am_Admin (gd_AuthorityMetadata d)) of
                 Inl _ \<Rightarrow> Inl ErrInvalidAuthorityMetadata
               | Inr _ \<Rightarrow> checkDenoms e (gd_Denom d # seen) ds)
         else checkDenoms e (gd_Denom d # seen) ds)"

definition Genesis_Validate_tf :: "('s, 'b) TfEnv \<Rightarrow> tf_genesis \<Rightarrow> tf_error + unit" where
  "Genesis_Validate_tf e gs =
    (case Params_Validate_tf e (tg_Params gs) of Inl err \<Rightarrow> Inl err | Inr _ \<Rightarrow> checkDenoms e [] (tg_FactoryDenoms gs))"

definition initDenom :: "('s, 'b) TfEnv \<Rightarrow> GenesisDenom \<Rightarrow> ('s, 'b) tf_world \<Rightarrow> ('s, 'b, unit) tf_result" where
  "initDenom e d w =
    bindw (check (DeconstructDenom e (gd_Denom d)) w) (\<lambda>(creator, _) w.
    bindw (createDenomAfterValidation e creator (gd_Denom d) w) (\<lambda>_ w.
    setAuthorityMetadata e (gd_Denom d) (gd_AuthorityMetadata d) w))"

fun initDenoms :: "('s, 'b) TfEnv \<Rightarrow> GenesisDenom list \<Rightarrow> ('s, 'b) tf_world \<Rightarrow> ('s, 'b, unit) tf_result" where
  "initDenoms e [] w = (Inr (), w)"
| "initDenoms e (d # ds) w =
    (case initDenom e d w of (Inl _, w) \<Rightarrow> (Inl (TfPanic ''genesis''), w) | (Inr _, w) \<Rightarrow> initDenoms e ds w)"

definition InitGenesis_tf :: "('s, 'b) TfEnv \<Rightarrow> tf_genesis \<Rightarrow> ('s, 'b) tf_world \<Rightarrow> ('s, 'b, unit) tf_result" where
  "InitGenesis_tf e gs w =
    (let w = w\<lparr>tw_bank := tf_GetModuleAccount e (tw_bank w)\<rparr>;
         params = (if tp_DenomCreationFee (tg_Params gs) = None then (tg_Params gs)\<lparr>tp_DenomCreationFee := Some []\<rparr> else tg_Params gs)
     in bindw (on_bank (tf_SetParamSet e params) w) (\<lambda>_ w. initDenoms e (tg_FactoryDenoms gs) w))"

fun exportDenoms :: "('s, 'b) TfEnv \<Rightarrow> 's \<Rightarrow> (bytes \<times> bytes) list \<Rightarrow> tf_error + GenesisDenom list" where
  "exportDenoms e s [] = Inr []"
| "exportDenoms e s ((k, v) # rest) =
    (case GetAuthorityMetadata e (unstr v) s of
       Inl _ \<Rightarrow> Inl (TfPanic ''genesis'')
     | Inr am \<Rightarrow> (case exportDenoms e s rest of
         Inl err \<Rightarrow> Inl err
       | Inr ds \<Rightarrow> Inr (\<lparr>gd_Denom = unstr v, gd_AuthorityMetadata = am\<rparr> # ds)))"

definition ExportGenesis_tf :: "('s, 'b) TfEnv \<Rightarrow> ('s, 'b) tf_world \<Rightarrow> tf_error + tf_genesis" where
  "ExportGenesis_tf e w =
    (case exportDenoms e (tw_store w) (GetAllDenomsIterator e (tw_store w)) of
       Inl err \<Rightarrow> Inl err
     | Inr ds \<Rightarrow> Inr \<lparr>tg_Params = tf_GetParamSet e (tw_bank w), tg_FactoryDenoms = ds\<rparr>)"

end
