(* ===== verification/Token_Laws.thy ===== *)
theory Token_Laws
  imports Token_Factory
begin

text \<open>
  The laws of \<open>x/tokenfactory\<close>: a denomination determines its creator and its name, only the admin of a
  denomination changes its admin and its supply, and what genesis writes is exported again.
\<close>

subsection \<open>Denominations\<close>

lemma Split_denom:
  "CHR ''/'' \<notin> set creator \<Longrightarrow>
   Split (CHR ''/'') (Join (CHR ''/'') [ModuleDenomPrefix, creator, subdenom]) = ModuleDenomPrefix # creator # Split (CHR ''/'') subdenom"
  using Split_append [of "CHR ''/''" ModuleDenomPrefix "creator @ CHR ''/'' # subdenom"]
    Split_append [of "CHR ''/''" creator subdenom]
  by (simp add: ModuleDenomPrefix_def)

lemma GetTokenDenom_Inr:
  "GetTokenDenom e creator subdenom = Inr d \<longleftrightarrow>
    length subdenom \<le> MaxSubdenomLength \<and> length creator \<le> MaxCreatorLength \<and> CHR ''/'' \<notin> set creator \<and>
    d = Join (CHR ''/'') [ModuleDenomPrefix, creator, subdenom] \<and> tf_ValidateDenom e d = Inr ()"
  by (auto simp: GetTokenDenom_def Let_def split: sum.splits)

lemma GetTokenDenom_inject:
  assumes "GetTokenDenom e c s = Inr d" "GetTokenDenom e c' s' = Inr d"
  shows "c = c' \<and> s = s'"
proof -
  have "ModuleDenomPrefix # c # Split (CHR ''/'') s = ModuleDenomPrefix # c' # Split (CHR ''/'') s'"
    using assms Split_denom [of c s] Split_denom [of c' s'] by (simp add: GetTokenDenom_Inr)
  then show ?thesis using Join_Split by (metis list.inject)
qed

text \<open>C33. The name of a denomination can be taken apart again: it gives back its creator, when that is
  the canonical form of an address, and its subdenomination, slashes included, and no other creator or
  subdenomination has the same name.\<close>

theorem denom_roundtrip:
  assumes "GetTokenDenom e creator subdenom = Inr d" "tf_bech32 e creator = Inr a" "tf_String e a = creator"
  shows "DeconstructDenom e d = Inr (creator, subdenom) \<and>
    (\<forall>c s. GetTokenDenom e c s = Inr d \<longrightarrow> c = creator \<and> s = subdenom)"
proof -
  have "Split (CHR ''/'') d = ModuleDenomPrefix # creator # Split (CHR ''/'') subdenom"
    using assms(1) Split_denom by (auto simp: GetTokenDenom_Inr)
  moreover have "length (Split (CHR ''/'') subdenom) \<ge> 1" by (simp add: Suc_leI)
  ultimately have "DeconstructDenom e d = Inr (creator, subdenom)"
    using assms by (auto simp: GetTokenDenom_Inr DeconstructDenom_def Let_def Join_Split)
  then show ?thesis using GetTokenDenom_inject [OF assms(1)] by blast
qed

subsection \<open>What the SDK promises\<close>

definition tf_laws :: "('s, 'b) TfEnv \<Rightarrow> bool" where
  "tf_laws e \<longleftrightarrow> kv_laws (tf_Get e) (tf_Set e) (tf_Iter e) \<and> codec_ok (tf_metadata e)"

text \<open>\<open>supply b d\<close> is the total supply of a denomination; only minting and burning change it.\<close>

definition bank_laws :: "('s, 'b) TfEnv \<Rightarrow> ('b \<Rightarrow> string \<Rightarrow> int) \<Rightarrow> bool" where
  "bank_laws e supply \<longleftrightarrow>
    (\<forall>c b b' d. tf_MintCoins e c b = (Inr (), b') \<longrightarrow> supply b' d = supply b d + (if d = cn_Denom c then cn_Amount c else 0)) \<and>
    (\<forall>c b b' d. tf_BurnCoins e c b = (Inr (), b') \<longrightarrow> supply b' d = supply b d - (if d = cn_Denom c then cn_Amount c else 0)) \<and>
    (\<forall>a c b r b'. tf_SendModuleToAccount e a c b = (r, b') \<longrightarrow> supply b' = supply b) \<and>
    (\<forall>a c b r b'. tf_SendAccountToModule e a c b = (r, b') \<longrightarrow> supply b' = supply b) \<and>
    (\<forall>a a' c b r b'. tf_SendCoins e a a' c b = (r, b') \<longrightarrow> supply b' = supply b) \<and>
    (\<forall>cs a b r b'. tf_FundCommunityPool e cs a b = (r, b') \<longrightarrow> supply b' = supply b) \<and>
    (\<forall>n b r b'. tf_ConsumeGas e n b = (r, b') \<longrightarrow> supply b' = supply b) \<and>
    (\<forall>m b. supply (tf_SetDenomMetaData e m b) = supply b) \<and>
    (\<forall>p b r b'. tf_SetParamSet e p b = (r, b') \<longrightarrow> supply b' = supply b)"

lemma authority_key_inject [simp]: "authority_key d = authority_key d' \<longleftrightarrow> d = d'"
  by (simp add: authority_key_def GetDenomPrefixStore_def str_append)

lemma authority_key_not_creator [simp]: "authority_key d \<noteq> GetCreatorPrefix c @ x"
  by (simp add: authority_key_def GetDenomPrefixStore_def GetCreatorPrefix_def DenomsPrefixKey_def CreatorPrefixKey_def str_def)

subsection \<open>Delivered messages\<close>

datatype tf_msg =
    CreateDenomMsg MsgCreateDenom | MintMsg MsgMint | BurnMsg MsgBurn | ForceTransferMsg MsgForceTransfer
  | ChangeAdminMsg MsgChangeAdmin | SetDenomMetadataMsg MsgSetDenomMetadata | UpdateParamsMsg MsgUpdateParams_tf

text \<open>The SDK validates a message before its handler runs.\<close>

fun deliver :: "('s, 'b) TfEnv \<Rightarrow> tfKeeper \<Rightarrow> tf_msg \<Rightarrow> ('s, 'b) tf_world \<Rightarrow> ('s, 'b, unit) tf_result" where
  "deliver e k (CreateDenomMsg m) w = bindw (check (CreateDenom_ValidateBasic e m) w) (\<lambda>_ w. bindw (msgServer_CreateDenom e m w) (\<lambda>_ w. (Inr (), w)))"
| "deliver e k (MintMsg m) w = bindw (check (Mint_ValidateBasic e m) w) (\<lambda>_ w. Mint e m w)"
| "deliver e k (BurnMsg m) w = bindw (check (Burn_ValidateBasic e m) w) (\<lambda>_ w. Burn e k m w)"
| "deliver e k (ForceTransferMsg m) w = bindw (check (ForceTransfer_ValidateBasic e m) w) (\<lambda>_ w. ForceTransfer e k m w)"
| "deliver e k (ChangeAdminMsg m) w = bindw (check (ChangeAdmin_ValidateBasic e m) w) (\<lambda>_ w. ChangeAdmin e m w)"
| "deliver e k (SetDenomMetadataMsg m) w = bindw (check (SetDenomMetadata_ValidateBasic e m) w) (\<lambda>_ w. SetDenomMetadata e k m w)"
| "deliver e k (UpdateParamsMsg m) w = bindw (check (UpdateParams_ValidateBasic_tf e m) w) (\<lambda>_ w. UpdateParams_tf e k m w)"

fun signer :: "tf_msg \<Rightarrow> string" where
  "signer (CreateDenomMsg m) = cd_Sender m"
| "signer (MintMsg m) = mm_Sender m"
| "signer (BurnMsg m) = mb_Sender m"
| "signer (ForceTransferMsg m) = ft_Sender m"
| "signer (ChangeAdminMsg m) = ca_Sender m"
| "signer (SetDenomMetadataMsg m) = sm_Sender m"
| "signer (UpdateParamsMsg m) = up_Authority m"

lemma check_Inr [simp]: "check r w = (Inr x, w') \<longleftrightarrow> r = Inr x \<and> w' = w"
  by (auto simp: check_def)

lemma on_bank_Inr: "on_bank f w = (Inr x, w') \<longleftrightarrow> (\<exists>b. f (tw_bank w) = (Inr x, b) \<and> w' = w\<lparr>tw_bank := b\<rparr>)"
  by (auto simp: on_bank_def split: prod.splits)

lemma only_admin_Inr:
  "only_admin e d s w = (Inr u, w') \<longleftrightarrow> w' = w \<and> GetAuthorityMetadata e d (tw_store w) = Inr \<lparr>am_Admin = s\<rparr>"
proof (cases "GetAuthorityMetadata e d (tw_store w)")
  case (Inr am)
  then show ?thesis by (cases am) (auto simp: only_admin_def check_def)
qed (simp add: only_admin_def check_def)

lemmas success_simps = bindw_Inr on_bank_Inr only_admin_Inr

lemma setAuthorityMetadata_read:
  assumes "tf_laws e" "setAuthorityMetadata e d am w = (Inr u, w')"
  shows "GetAuthorityMetadata e d' (tw_store w') = (if d' = d then Inr am else GetAuthorityMetadata e d' (tw_store w))"
    "tw_bank w' = tw_bank w"
  using assms by (auto simp: setAuthorityMetadata_def success_simps GetAuthorityMetadata_def tf_laws_def kv_laws_def codec_ok_def)

lemma addDenom_read:
  "tf_laws e \<Longrightarrow> GetAuthorityMetadata e d (addDenomFromCreator e c x s) = GetAuthorityMetadata e d s"
  by (simp add: GetAuthorityMetadata_def addDenomFromCreator_def tf_laws_def kv_laws_def)

lemma charge_store: "chargeForCreateDenom e c w = (Inr u, w') \<Longrightarrow> tw_store w' = tw_store w"
  by (auto simp: chargeForCreateDenom_def success_simps Let_def split: option.splits if_splits)

lemma create_read:
  assumes "tf_laws e" "createDenomAfterValidation e c d w = (Inr u, w')"
  shows "GetAuthorityMetadata e d' (tw_store w') = (if d' = d then Inr \<lparr>am_Admin = c\<rparr> else GetAuthorityMetadata e d' (tw_store w))"
  using assms(2) setAuthorityMetadata_read [OF assms(1)]
  by (auto simp: createDenomAfterValidation_def success_simps Let_def addDenom_read [OF assms(1)])

lemma bank_actions_store:
  "mintTo e a x w = (Inr u, w') \<Longrightarrow> tw_store w' = tw_store w"
  "burnFrom e a x w = (Inr u, w') \<Longrightarrow> tw_store w' = tw_store w"
  "forceTransfer e a x y w = (Inr u, w') \<Longrightarrow> tw_store w' = tw_store w"
  by (auto simp: mintTo_def burnFrom_def forceTransfer_def success_simps split: if_splits)


subsection \<open>Supply\<close>

fun minted :: "tf_msg \<Rightarrow> string \<Rightarrow> int" where
  "minted (MintMsg m) d = (if d = cn_Denom (mm_Amount m) then cn_Amount (mm_Amount m) else 0)"
| "minted (BurnMsg m) d = (if d = cn_Denom (mb_Amount m) then - cn_Amount (mb_Amount m) else 0)"
| "minted _ d = 0"

lemma bank_lawsD:
  assumes "bank_laws e supply"
  shows "tf_MintCoins e c b = (Inr (), b') \<Longrightarrow> supply b' d = supply b d + (if d = cn_Denom c then cn_Amount c else 0)"
    "tf_BurnCoins e c b = (Inr (), b') \<Longrightarrow> supply b' d = supply b d - (if d = cn_Denom c then cn_Amount c else 0)"
    "tf_SendModuleToAccount e a c b = (r, b') \<Longrightarrow> supply b' = supply b"
    "tf_SendAccountToModule e a c b = (r, b') \<Longrightarrow> supply b' = supply b"
    "tf_SendCoins e a a' c b = (r, b') \<Longrightarrow> supply b' = supply b"
    "tf_FundCommunityPool e cs a b = (r, b') \<Longrightarrow> supply b' = supply b"
    "tf_ConsumeGas e n b = (r, b') \<Longrightarrow> supply b' = supply b"
    "supply (tf_SetDenomMetaData e md b) = supply b"
    "tf_SetParamSet e p b = (r, b') \<Longrightarrow> supply b' = supply b"
  using assms unfolding bank_laws_def by simp_all

lemma mintTo_supply:
  assumes "bank_laws e supply" "mintTo e c x w = (Inr u, w')"
  shows "supply (tw_bank w') d = supply (tw_bank w) d + (if d = cn_Denom c then cn_Amount c else 0)"
    "\<exists>p. DeconstructDenom e (cn_Denom c) = Inr p"
  using assms(2) by (auto simp: mintTo_def success_simps split: if_splits dest!: bank_lawsD(1) [OF assms(1), of _ _ _ d] bank_lawsD(3) [OF assms(1)])

lemma burnFrom_supply:
  assumes "bank_laws e supply" "burnFrom e c x w = (Inr u, w')"
  shows "supply (tw_bank w') d = supply (tw_bank w) d - (if d = cn_Denom c then cn_Amount c else 0)"
    "\<exists>p. DeconstructDenom e (cn_Denom c) = Inr p"
  using assms(2) by (auto simp: burnFrom_def success_simps split: if_splits dest!: bank_lawsD(2) [OF assms(1), of _ _ _ d] bank_lawsD(4) [OF assms(1)])

lemma CreateDenom_supply:
  assumes "bank_laws e supply" "msgServer_CreateDenom e m w = (Inr x, w')"
  shows "supply (tw_bank w') = supply (tw_bank w)"
proof -
  have charge: "supply (tw_bank w2) = supply (tw_bank w1)" if "chargeForCreateDenom e c w1 = (Inr (), w2)" for c w1 w2
    using that by (auto simp: chargeForCreateDenom_def success_simps Let_def split: option.splits if_splits
        dest!: bank_lawsD(6) [OF assms(1)] bank_lawsD(7) [OF assms(1)])
  have create: "supply (tw_bank w2) = supply (tw_bank w1)" if "createDenomAfterValidation e c d w1 = (Inr (), w2)" for c d w1 w2
    using that by (auto simp: createDenomAfterValidation_def setAuthorityMetadata_def success_simps Let_def bank_lawsD(8) [OF assms(1)])
  show ?thesis
    using assms(2) by (auto simp: msgServer_CreateDenom_def CreateDenom_def success_simps dest!: charge create)
qed

text \<open>C10. The supply of a denomination follows the messages: a delivered mint adds its amount, a
  delivered burn subtracts it, no other message of the module changes any supply, and whoever changes
  the supply of a denomination is its admin and the denomination is one of the module.\<close>

theorem supply_changes_only_by_admin:
  assumes "bank_laws e supply" "deliver e k msg w = (Inr (), w')"
  shows "supply (tw_bank w') d = supply (tw_bank w) d + minted msg d \<and>
    (supply (tw_bank w') d \<noteq> supply (tw_bank w) d \<longrightarrow>
      GetAuthorityMetadata e d (tw_store w) = Inr \<lparr>am_Admin = signer msg\<rparr> \<and> (\<exists>p. DeconstructDenom e d = Inr p))"
proof (cases msg)
  case (CreateDenomMsg m)
  then show ?thesis using assms(2) by (auto simp: success_simps dest!: CreateDenom_supply [OF assms(1)])
next
  case (MintMsg m)
  then obtain to where "GetAuthorityMetadata e (cn_Denom (mm_Amount m)) (tw_store w) = Inr \<lparr>am_Admin = mm_Sender m\<rparr>"
      and mint: "mintTo e (mm_Amount m) to w = (Inr (), w')"
    using assms(2) by (auto simp: success_simps Mint_def Let_def split: if_splits)
  then show ?thesis using mintTo_supply [OF assms(1) mint] MintMsg by auto
next
  case (BurnMsg m)
  then obtain from_addr where "GetAuthorityMetadata e (cn_Denom (mb_Amount m)) (tw_store w) = Inr \<lparr>am_Admin = mb_Sender m\<rparr>"
      and burn: "burnFrom e (mb_Amount m) from_addr w = (Inr (), w')"
    using assms(2) by (auto simp: success_simps Burn_def split: if_splits)
  then show ?thesis using burnFrom_supply [OF assms(1) burn] BurnMsg by auto
next
  case (ForceTransferMsg m)
  then show ?thesis
    using assms(2) by (auto simp: success_simps ForceTransfer_def forceTransfer_def split: if_splits dest!: bank_lawsD(5) [OF assms(1)])
next
  case (ChangeAdminMsg m)
  then show ?thesis using assms(2) by (auto simp: success_simps ChangeAdmin_def setAdmin_def setAuthorityMetadata_def)
next
  case (SetDenomMetadataMsg m)
  then show ?thesis using assms(2) by (auto simp: success_simps SetDenomMetadata_def bank_lawsD(8) [OF assms(1)] split: if_splits)
next
  case (UpdateParamsMsg m)
  then show ?thesis
    using assms(2) by (auto simp: success_simps UpdateParams_tf_def split: if_splits dest!: bank_lawsD(9) [OF assms(1)])
qed


subsection \<open>Genesis\<close>

definition creator_key :: "('s, 'b) TfEnv \<Rightarrow> string \<Rightarrow> bytes" where
  "creator_key e d = (case DeconstructDenom e d of Inl _ \<Rightarrow> [] | Inr (c, _) \<Rightarrow> GetCreatorPrefix c @ str d)"

lemma HasPrefix_creators: "HasPrefix (GetCreatorPrefix c @ x) GetCreatorsPrefix" "\<not> HasPrefix (authority_key d) GetCreatorsPrefix"
  by (simp_all add: HasPrefix_def GetCreatorPrefix_def GetCreatorsPrefix_def authority_key_def GetDenomPrefixStore_def
      CreatorPrefixKey_def DenomsPrefixKey_def str_append)

lemma creator_key_inject:
  assumes "\<And>a. CHR ''|'' \<notin> set (tf_String e a)"
    and "DeconstructDenom e d = Inr p" "DeconstructDenom e d' = Inr p'" "creator_key e d = creator_key e d'"
  shows "d = d'"
proof -
  obtain a b where "fst p = tf_String e a" "fst p' = tf_String e b"
    using assms(2,3) by (auto simp: DeconstructDenom_def Let_def split: sum.splits if_splits)
  then have "CHR ''|'' \<notin> set (fst p)" "CHR ''|'' \<notin> set (fst p')" using assms(1) by simp_all
  moreover have "fst p @ CHR ''|'' # d = fst p' @ CHR ''|'' # d'"
  proof -
    have "str (fst p @ CHR ''|'' # d) = str (fst p' @ CHR ''|'' # d')"
      using assms(2-4) by (auto simp: creator_key_def GetCreatorPrefix_def KeySeparator_def str_append split: prod.splits)
    then show ?thesis by simp
  qed
  ultimately have "fst p # Split (CHR ''|'') d = fst p' # Split (CHR ''|'') d'" using Split_append by metis
  then show ?thesis using Join_Split by (metis list.inject)
qed

definition exported :: "('s, 'b) TfEnv \<Rightarrow> GenesisDenom set \<Rightarrow> 's \<Rightarrow> bool" where
  "exported e D s \<longleftrightarrow>
    (\<forall>d \<in> D. GetAuthorityMetadata e (gd_Denom d) s = Inr (gd_AuthorityMetadata d) \<and>
      (\<exists>p. DeconstructDenom e (gd_Denom d) = Inr p)) \<and>
    (\<forall>k v. HasPrefix k GetCreatorsPrefix \<longrightarrow>
      (tf_Get e s k = Some v \<longleftrightarrow> (\<exists>d \<in> D. k = creator_key e (gd_Denom d) \<and> v = str (gd_Denom d))))"

lemma initDenom_effect:
  assumes "tf_laws e" "initDenom e d w = (Inr u, w')"
  shows "\<exists>p b b'. DeconstructDenom e (gd_Denom d) = Inr p \<and> cd_Unmarshal (tf_metadata e) b' = Inr (gd_AuthorityMetadata d) \<and>
    tw_store w' = tf_Set e (authority_key (gd_Denom d)) b' (tf_Set e (creator_key e (gd_Denom d)) (str (gd_Denom d))
      (tf_Set e (authority_key (gd_Denom d)) b (tw_store w)))"
  using assms
  by (auto simp: initDenom_def success_simps createDenomAfterValidation_def setAuthorityMetadata_def Let_def
      addDenomFromCreator_def creator_key_def tf_laws_def codec_ok_def) blast

lemma exported_step:
  assumes laws: "tf_laws e" and canon: "\<And>a. CHR ''|'' \<notin> set (tf_String e a)"
    and old: "exported e D (tw_store w)" "\<forall>x \<in> D. gd_Denom x \<noteq> gd_Denom d"
    and init: "initDenom e d w = (Inr u, w')"
  shows "exported e (insert d D) (tw_store w')"
proof -
  obtain p b b' where p: "DeconstructDenom e (gd_Denom d) = Inr p"
    and am: "cd_Unmarshal (tf_metadata e) b' = Inr (gd_AuthorityMetadata d)"
    and s: "tw_store w' = tf_Set e (authority_key (gd_Denom d)) b' (tf_Set e (creator_key e (gd_Denom d)) (str (gd_Denom d))
      (tf_Set e (authority_key (gd_Denom d)) b (tw_store w)))"
    using initDenom_effect [OF laws init] by blast
  have pre: "\<exists>c. creator_key e (gd_Denom d) = GetCreatorPrefix c @ str (gd_Denom d)"
    using p by (cases p) (auto simp: creator_key_def)
  have other: "creator_key e (gd_Denom x) \<noteq> creator_key e (gd_Denom d)" if "x \<in> D" for x
    using that old p creator_key_inject [OF canon] by (metis exported_def)
  have get: "tf_Get e (tw_store w') k =
      (if k = authority_key (gd_Denom d) then Some b'
       else if k = creator_key e (gd_Denom d) then Some (str (gd_Denom d)) else tf_Get e (tw_store w) k)" for k
    using laws by (simp add: s tf_laws_def kv_laws_def)
  have "GetAuthorityMetadata e (gd_Denom x) (tw_store w') = Inr (gd_AuthorityMetadata x) \<and>
      (\<exists>p. DeconstructDenom e (gd_Denom x) = Inr p)" if "x \<in> insert d D" for x
    using that old am pre p
    by (cases "x = d") (auto simp: GetAuthorityMetadata_def get exported_def)
  moreover have "tf_Get e (tw_store w') k = Some v \<longleftrightarrow> (\<exists>x \<in> insert d D. k = creator_key e (gd_Denom x) \<and> v = str (gd_Denom x))"
    if "HasPrefix k GetCreatorsPrefix" for k v
  proof (cases "k = creator_key e (gd_Denom d)")
    case True
    then show ?thesis using that pre other by (auto simp: get)
  next
    case False
    moreover have "k \<noteq> authority_key (gd_Denom d)" using that HasPrefix_creators(2) by auto
    ultimately show ?thesis using that old(1) by (auto simp: get exported_def)
  qed
  ultimately show "exported e (insert d D) (tw_store w')" by (auto simp: exported_def)
qed

lemma exported_all:
  assumes laws: "tf_laws e" and canon: "\<And>a. CHR ''|'' \<notin> set (tf_String e a)"
  shows "exported e D (tw_store w) \<Longrightarrow>
    distinct (map gd_Denom ds) \<Longrightarrow> (\<forall>x \<in> D. \<forall>y \<in> set ds. gd_Denom x \<noteq> gd_Denom y) \<Longrightarrow> initDenoms e ds w = (Inr u, w') \<Longrightarrow>
    exported e (D \<union> set ds) (tw_store w')"
proof (induction ds arbitrary: D w)
  case (Cons d ds)
  obtain w1 where 1: "initDenom e d w = (Inr (), w1)" "initDenoms e ds w1 = (Inr u, w')"
    using Cons.prems(4) by (cases "initDenom e d w"; cases "fst (initDenom e d w)") auto
  have "exported e (insert d D) (tw_store w1)"
    by (rule exported_step [OF laws canon Cons.prems(1) _ 1(1)]) (use Cons.prems(3) in simp)
  then have "exported e (insert d D \<union> set ds) (tw_store w')"
    by (rule Cons.IH [OF _ _ _ 1(2)]) (use Cons.prems(2,3) in \<open>auto simp: image_iff\<close>)
  then show ?case by simp
qed simp

lemma exportDenoms_all:
  assumes "\<And>k v. (k, v) \<in> set xs \<Longrightarrow> \<exists>d \<in> D. v = str (gd_Denom d) \<and> GetAuthorityMetadata e (gd_Denom d) s = Inr (gd_AuthorityMetadata d)"
    and "inj_on gd_Denom D"
  shows "\<exists>ds. exportDenoms e s xs = Inr ds \<and> set ds = {d \<in> D. str (gd_Denom d) \<in> snd ` set xs}"
  using assms(1)
proof (induction xs)
  case (Cons x xs)
  obtain k v where x: "x = (k, v)" by (cases x)
  obtain d where d: "d \<in> D" "v = str (gd_Denom d)" "GetAuthorityMetadata e (gd_Denom d) s = Inr (gd_AuthorityMetadata d)"
    using Cons.prems [of k v] x by auto
  have "\<exists>ds. exportDenoms e s xs = Inr ds \<and> set ds = {d \<in> D. str (gd_Denom d) \<in> snd ` set xs}"
    by (rule Cons.IH, rule Cons.prems, rule list.set_intros(2))
  then obtain ds where ds: "exportDenoms e s xs = Inr ds" "set ds = {d \<in> D. str (gd_Denom d) \<in> snd ` set xs}" by blast
  have "{d' \<in> D. str (gd_Denom d') \<in> snd ` set (x # xs)} = insert d (set ds)"
    using d ds(2) assms(2) by (auto simp: x inj_on_def)
  moreover have "exportDenoms e s (x # xs) = Inr (d # ds)"
    using d ds(1) by (cases d) (simp add: x)
  ultimately show ?case by simp
qed auto

text \<open>C34. Exporting after importing a genesis into an empty store gives back every denomination with
  its admin, and no other.\<close>

theorem genesis_denoms_exported:
  assumes laws: "tf_laws e" and canon: "\<And>a. CHR ''|'' \<notin> set (tf_String e a)"
    and empty: "tf_Get e (tw_store w) = (\<lambda>_. None)" and init: "InitGenesis_tf e gs w = (Inr (), w')"
    and distinct: "distinct (map gd_Denom (tg_FactoryDenoms gs))"
  shows "\<exists>gs'. ExportGenesis_tf e w' = Inr gs' \<and> set (tg_FactoryDenoms gs') = set (tg_FactoryDenoms gs)"
proof -
  obtain b where b: "initDenoms e (tg_FactoryDenoms gs) (w\<lparr>tw_bank := b\<rparr>) = (Inr (), w')"
    using init by (auto simp: InitGenesis_tf_def success_simps Let_def)
  have "exported e {} (tw_store (w\<lparr>tw_bank := b\<rparr>))" by (simp add: exported_def empty)
  from exported_all [OF laws canon this distinct _ b]
  have ex: "exported e (set (tg_FactoryDenoms gs)) (tw_store w')" by simp
  have iter: "(k, v) \<in> set (GetAllDenomsIterator e (tw_store w')) \<longleftrightarrow>
      HasPrefix k GetCreatorsPrefix \<and> (\<exists>d \<in> set (tg_FactoryDenoms gs). k = creator_key e (gd_Denom d) \<and> v = str (gd_Denom d))" for k v
    using ex laws by (auto simp: GetAllDenomsIterator_def tf_laws_def kv_laws_def exported_def)
  have "\<exists>ds. exportDenoms e (tw_store w') (GetAllDenomsIterator e (tw_store w')) = Inr ds \<and>
      set ds = {d \<in> set (tg_FactoryDenoms gs). str (gd_Denom d) \<in> snd ` set (GetAllDenomsIterator e (tw_store w'))}"
  proof (rule exportDenoms_all)
    show "inj_on gd_Denom (set (tg_FactoryDenoms gs))" using distinct by (simp add: distinct_map)
  qed (use iter ex in \<open>auto simp: exported_def\<close>)
  then obtain ds where ds: "exportDenoms e (tw_store w') (GetAllDenomsIterator e (tw_store w')) = Inr ds"
      "set ds = {d \<in> set (tg_FactoryDenoms gs). str (gd_Denom d) \<in> snd ` set (GetAllDenomsIterator e (tw_store w'))}"
    by blast
  have "HasPrefix (creator_key e (gd_Denom d)) GetCreatorsPrefix" if "d \<in> set (tg_FactoryDenoms gs)" for d
    using that ex HasPrefix_creators(1) by (fastforce simp: exported_def creator_key_def)
  then have "set ds = set (tg_FactoryDenoms gs)" using ds(2) iter by force
  then show ?thesis using ds(1) by (simp add: ExportGenesis_tf_def)
qed

subsection \<open>A concrete environment\<close>

text \<open>A bank that records the supply of each denomination, the denominations with metadata, and the parameters.\<close>

record sample_bank =
  sb_supply :: "string \<Rightarrow> int"
  sb_metadata :: "string list"
  sb_params :: TfParams

definition alice_denom :: string where "alice_denom = ''factory/alice/gold''"

definition factory_env :: "((bytes, bytes) alist, sample_bank) TfEnv" where
  "factory_env =
    \<lparr>tf_Get = DAList.lookup, tf_Set = DAList.update, tf_Iter = alist_iter,
     tf_metadata = table_codec (TfErrorf ''codec'') [(\<lparr>am_Admin = []\<rparr>, []), (\<lparr>am_Admin = ''alice''\<rparr>, [1]), (\<lparr>am_Admin = ''bob''\<rparr>, [2])],
     tf_bech32 = (\<lambda>a. if a = [] then Inl ErrInvalidAddress else Inr (str a)),
     tf_String = (\<lambda>b. filter (\<lambda>c. c \<noteq> CHR ''|'') (unstr b)),
     tf_ValidateDenom = (\<lambda>_. Inr ()), tf_CoinIsValid = (\<lambda>c. 0 \<le> cn_Amount c), tf_CoinsValidate = (\<lambda>_. Inr ()),
     tf_MetadataValidate = (\<lambda>_. Inr ()),
     tf_GetDenomMetaData = (\<lambda>d b. if d \<in> set (sb_metadata b)
       then Some \<lparr>md_DenomUnits = [(d, 0)], md_Base = d, md_Display = d, md_Name = d, md_Symbol = d\<rparr> else None),
     tf_SetDenomMetaData = (\<lambda>m b. b\<lparr>sb_metadata := md_Base m # sb_metadata b\<rparr>),
     tf_MintCoins = (\<lambda>c b. (Inr (), b\<lparr>sb_supply := (sb_supply b)(cn_Denom c := sb_supply b (cn_Denom c) + cn_Amount c)\<rparr>)),
     tf_BurnCoins = (\<lambda>c b. (Inr (), b\<lparr>sb_supply := (sb_supply b)(cn_Denom c := sb_supply b (cn_Denom c) - cn_Amount c)\<rparr>)),
     tf_SendModuleToAccount = (\<lambda>_ _ b. (Inr (), b)), tf_SendAccountToModule = (\<lambda>_ _ b. (Inr (), b)),
     tf_SendCoins = (\<lambda>_ _ _ b. (Inr (), b)), tf_BlockedAddr = (\<lambda>_. False), tf_FundCommunityPool = (\<lambda>_ _ b. (Inr (), b)),
     tf_ConsumeGas = (\<lambda>_ b. (Inr (), b)), tf_GetParamSet = sb_params, tf_SetParamSet = (\<lambda>p b. (Inr (), b\<lparr>sb_params := p\<rparr>)),
     tf_GetModuleAccount = (\<lambda>b. b)\<rparr>"

lemma factory_fields [simp]:
  "tf_Get factory_env = DAList.lookup"
  "tf_Set factory_env = DAList.update"
  "tf_Iter factory_env = alist_iter"
  "tf_metadata factory_env = table_codec (TfErrorf ''codec'') [(\<lparr>am_Admin = []\<rparr>, []), (\<lparr>am_Admin = ''alice''\<rparr>, [1]), (\<lparr>am_Admin = ''bob''\<rparr>, [2])]"
  "tf_bech32 factory_env = (\<lambda>a. if a = [] then Inl ErrInvalidAddress else Inr (str a))"
  "tf_String factory_env = (\<lambda>b. filter (\<lambda>c. c \<noteq> CHR ''|'') (unstr b))"
  "tf_ValidateDenom factory_env = (\<lambda>_. Inr ())"
  "tf_CoinIsValid factory_env = (\<lambda>c. 0 \<le> cn_Amount c)"
  "tf_CoinsValidate factory_env = (\<lambda>_. Inr ())"
  "tf_MetadataValidate factory_env = (\<lambda>_. Inr ())"
  "tf_GetDenomMetaData factory_env = (\<lambda>d b. if d \<in> set (sb_metadata b) then Some \<lparr>md_DenomUnits = [(d, 0)], md_Base = d, md_Display = d, md_Name = d, md_Symbol = d\<rparr> else None)"
  "tf_SetDenomMetaData factory_env = (\<lambda>m b. b\<lparr>sb_metadata := md_Base m # sb_metadata b\<rparr>)"
  "tf_MintCoins factory_env = (\<lambda>c b. (Inr (), b\<lparr>sb_supply := (sb_supply b)(cn_Denom c := sb_supply b (cn_Denom c) + cn_Amount c)\<rparr>))"
  "tf_BurnCoins factory_env = (\<lambda>c b. (Inr (), b\<lparr>sb_supply := (sb_supply b)(cn_Denom c := sb_supply b (cn_Denom c) - cn_Amount c)\<rparr>))"
  "tf_SendModuleToAccount factory_env = (\<lambda>_ _ b. (Inr (), b))"
  "tf_SendAccountToModule factory_env = (\<lambda>_ _ b. (Inr (), b))"
  "tf_SendCoins factory_env = (\<lambda>_ _ _ b. (Inr (), b))"
  "tf_BlockedAddr factory_env = (\<lambda>_. False)"
  "tf_FundCommunityPool factory_env = (\<lambda>_ _ b. (Inr (), b))"
  "tf_ConsumeGas factory_env = (\<lambda>_ b. (Inr (), b))"
  "tf_GetParamSet factory_env = sb_params"
  "tf_SetParamSet factory_env = (\<lambda>p b. (Inr (), b\<lparr>sb_params := p\<rparr>))"
  "tf_GetModuleAccount factory_env = (\<lambda>b. b)"
  by (simp_all add: factory_env_def)


lemma factory_laws: "tf_laws factory_env"
  using alist_kv_laws by (simp add: tf_laws_def codec_ok_table)

lemma factory_bank: "bank_laws factory_env sb_supply"
  by (auto simp: bank_laws_def)

lemma factory_canonical: "CHR ''|'' \<notin> set (tf_String factory_env a)"
  by simp

definition factory_world :: "((bytes, bytes) alist, sample_bank) tf_world" where
  "factory_world =
    \<lparr>tw_store = DAList.update (authority_key alice_denom) [1] DAList.empty,
     tw_bank = \<lparr>sb_supply = (\<lambda>_. 0), sb_metadata = [alice_denom],
       sb_params = \<lparr>tp_DenomCreationFee = None, tp_DenomCreationGasConsume = 0\<rparr>\<rparr>\<rparr>"

definition factory_genesis :: tf_genesis where
  "factory_genesis =
    \<lparr>tg_Params = \<lparr>tp_DenomCreationFee = None, tp_DenomCreationGasConsume = 0\<rparr>,
     tg_FactoryDenoms = [\<lparr>gd_Denom = alice_denom, gd_AuthorityMetadata = \<lparr>am_Admin = ''bob''\<rparr>\<rparr>]\<rparr>"

lemma factory_denom: "DeconstructDenom factory_env alice_denom = Inr (''alice'', ''gold'')"
  by (simp add: DeconstructDenom_def alice_denom_def ModuleDenomPrefix_def)

lemma factory_admin: "GetAuthorityMetadata factory_env alice_denom (tw_store factory_world) = Inr \<lparr>am_Admin = ''alice''\<rparr>"
  by (simp add: GetAuthorityMetadata_def factory_world_def lookup_update table_codec_def)

theorem denom_roundtrip_witness:
  "GetTokenDenom factory_env ''alice'' ''gold'' = Inr alice_denom \<and>
   DeconstructDenom factory_env alice_denom = Inr (''alice'', ''gold'')"
proof -
  have name: "GetTokenDenom factory_env ''alice'' ''gold'' = Inr alice_denom"
    by (simp add: GetTokenDenom_def alice_denom_def ModuleDenomPrefix_def MaxSubdenomLength_def MaxCreatorLength_def MaxHrpLength_def)
  have "tf_bech32 factory_env ''alice'' = Inr (str ''alice'')" "tf_String factory_env (str ''alice'') = ''alice''" by simp_all
  then show ?thesis using name conjunct1 [OF denom_roundtrip [OF name]] by blast
qed

definition hand_over :: tf_msg where
  "hand_over = ChangeAdminMsg \<lparr>ca_Sender = ''alice'', ca_Denom = alice_denom, ca_NewAdmin = ''bob''\<rparr>"


definition mint_five :: tf_msg where
  "mint_five = MintMsg \<lparr>mm_Sender = ''alice'', mm_Amount = \<lparr>cn_Denom = alice_denom, cn_Amount = 5\<rparr>, mm_MintToAddress = []\<rparr>"

theorem supply_changes_only_by_admin_witness:
  "\<exists>w'. deliver factory_env NewKeeper_tf mint_five factory_world = (Inr (), w') \<and>
     sb_supply (tw_bank w') alice_denom = 5 \<and> sb_supply (tw_bank w') ''uterp'' = 0"
proof -
  have "fst (deliver factory_env NewKeeper_tf mint_five factory_world) = Inr ()"
    using factory_admin factory_denom
    by (simp add: mint_five_def Mint_ValidateBasic_def valid_address_def Mint_def only_admin_def check_def mintTo_def on_bank_def factory_world_def)
  then obtain w' where run: "deliver factory_env NewKeeper_tf mint_five factory_world = (Inr (), w')" by (metis prod.collapse)
  then show ?thesis
    using supply_changes_only_by_admin [OF factory_bank run, of alice_denom] supply_changes_only_by_admin [OF factory_bank run, of "''uterp''"]
    by (simp add: mint_five_def factory_world_def alice_denom_def)
qed


theorem genesis_denoms_exported_witness:
  "\<exists>w' gs'. InitGenesis_tf factory_env factory_genesis (factory_world\<lparr>tw_store := DAList.empty\<rparr>) = (Inr (), w') \<and>
     ExportGenesis_tf factory_env w' = Inr gs' \<and> set (tg_FactoryDenoms gs') = set (tg_FactoryDenoms factory_genesis)"
proof -
  have "fst (InitGenesis_tf factory_env factory_genesis (factory_world\<lparr>tw_store := DAList.empty\<rparr>)) = Inr ()"
    using factory_denom
    by (simp add: InitGenesis_tf_def factory_genesis_def on_bank_def initDenom_def check_def createDenomAfterValidation_def
        setAuthorityMetadata_def Metadata_Validate_def table_codec_def)
  then obtain w' where run: "InitGenesis_tf factory_env factory_genesis (factory_world\<lparr>tw_store := DAList.empty\<rparr>) = (Inr (), w')"
    by (metis prod.collapse)
  have "tf_Get factory_env (tw_store (factory_world\<lparr>tw_store := DAList.empty\<rparr>)) = (\<lambda>_. None)"
    by (simp add: fun_eq_iff)
  then show ?thesis
    using genesis_denoms_exported [OF factory_laws factory_canonical _ run] run by (simp add: factory_genesis_def)
qed

end
