(* ===== verification/Smart_Filter.thy ===== *)
theory Smart_Filter
  imports Sdk_Base "HOL-Library.Multiset" "HOL-Library.Char_ord" "HOL-Library.List_Lexorder"
begin

text \<open>
  The comparison of a message with a JSON pattern in \<open>x/smart-account/authenticator/message_filter.go\<close>.
  A value is what \<open>json.Unmarshal\<close> gives for an \<open>interface{}\<close>: nil, a bool, a float64, a string, a
  slice or a map, the last as the list of its entries.  The parser of decimal numbers
  (\<open>math.LegacyNewDecFromStr\<close>) is the parameter \<open>dec\<close>.
\<close>

datatype json =
    JNull
  | JBool bool
  | JFloat int
  | JString string
  | JSlice "json list"
  | JMap "(string \<times> json) list"

datatype filter_error =
    ExpectedMap | KeyMissing string | ExpectedSlice | MoreElements | NumbersDiffer | StringsDiffer | ExpectedString
  | BooleansDiffer | ExpectedNull | FloatsNotAllowed

fun checkForFloats :: "json \<Rightarrow> bool" where
  "checkForFloats (JMap vv) = (\<exists>kv \<in> set vv. checkForFloats (snd kv))"
| "checkForFloats (JSlice vv) = (\<exists>v \<in> set vv. checkForFloats v)"
| "checkForFloats (JFloat _) = True"
| "checkForFloats JNull = False"
| "checkForFloats (JBool _) = False"
| "checkForFloats (JString _) = False"

definition sortedKeys :: "(string \<times> json) list \<Rightarrow> (string \<times> json) list" where
  "sortedKeys av = sort_key fst av"

lemma set_sortedKeys [simp]: "set (sortedKeys av) = set av"
  by (simp add: sortedKeys_def)

lemma size_sortedKeys [simp]: "size_list f (sortedKeys av) = size_list f av"
proof -
  have "mset (sortedKeys av) = mset av" by (simp add: sortedKeys_def)
  then have "sum_list (map f (sortedKeys av)) = sum_list (map f av)" "length (sortedKeys av) = length av"
    by (metis mset_map sum_mset_sum_list) (simp add: sortedKeys_def)
  then show ?thesis by (simp add: size_list_conv_sum_list)
qed

definition sameString :: "(string \<Rightarrow> int option) \<Rightarrow> string \<Rightarrow> string \<Rightarrow> filter_error + unit" where
  "sameString dec av bv =
    (case (dec av, dec bv) of
       (Some decA, Some decB) \<Rightarrow>
         if decA \<noteq> decB then Inl NumbersDiffer else if av \<noteq> bv then Inl StringsDiffer else Inr ()
     | _ \<Rightarrow> if av \<noteq> bv then Inl StringsDiffer else Inr ())"

function (sequential) isSuperset :: "(string \<Rightarrow> int option) \<Rightarrow> json \<Rightarrow> json \<Rightarrow> filter_error + unit"
  and keysIn :: "(string \<Rightarrow> int option) \<Rightarrow> (string \<times> json) list \<Rightarrow> (string \<times> json) list \<Rightarrow> filter_error + unit"
  and elementsIn :: "(string \<Rightarrow> int option) \<Rightarrow> json list \<Rightarrow> json list \<Rightarrow> filter_error + unit" where
  "isSuperset dec (JMap av) b = (case b of JMap bv \<Rightarrow> keysIn dec (sortedKeys av) bv | _ \<Rightarrow> Inl ExpectedMap)"
| "isSuperset dec (JSlice av) b =
    (case b of
       JSlice bv \<Rightarrow> if length av > length bv then Inl MoreElements else elementsIn dec av bv
     | _ \<Rightarrow> Inl ExpectedSlice)"
| "isSuperset dec (JString av) b = (case b of JString bv \<Rightarrow> sameString dec av bv | _ \<Rightarrow> Inl ExpectedString)"
| "isSuperset dec (JBool av) b = (case b of JBool bv \<Rightarrow> if av \<noteq> bv then Inl BooleansDiffer else Inr () | _ \<Rightarrow> Inl BooleansDiffer)"
| "isSuperset dec JNull b = (if b \<noteq> JNull then Inl ExpectedNull else Inr ())"
| "isSuperset dec (JFloat _) b = Inl FloatsNotAllowed"
| "keysIn dec [] bv = Inr ()"
| "keysIn dec ((key, valA) # rest) bv =
    (case map_of bv key of
       None \<Rightarrow> Inl (KeyMissing key)
     | Some valB \<Rightarrow> (case isSuperset dec valA valB of Inl err \<Rightarrow> Inl err | Inr _ \<Rightarrow> keysIn dec rest bv))"
| "elementsIn dec [] bv = Inr ()"
| "elementsIn dec (valA # rest) bv =
    (case bv of
       [] \<Rightarrow> Inl MoreElements
     | valB # bv \<Rightarrow> (case isSuperset dec valA valB of Inl err \<Rightarrow> Inl err | Inr _ \<Rightarrow> elementsIn dec rest bv))"
  by pat_completeness auto
termination
  by (relation "measure (\<lambda>x. case x of
        Inl (_, a, _) \<Rightarrow> size a
      | Inr (Inl (_, av, _)) \<Rightarrow> size_list (size_prod (\<lambda>_. 0) size) av
      | Inr (Inr (_, av, _)) \<Rightarrow> size_list size av)") auto

subsection \<open>What a pattern accepts\<close>

text \<open>
  The reference relation: equal leaves, a map with at least the entries of the pattern, a slice that
  starts with the elements of the pattern, and no numbers.
\<close>

inductive covers :: "json \<Rightarrow> json \<Rightarrow> bool" where
  covers_null: "covers JNull JNull"
| covers_bool: "covers (JBool v) (JBool v)"
| covers_string: "covers (JString v) (JString v)"
| covers_slice: "length av \<le> length bv \<Longrightarrow> (\<And>i. i < length av \<Longrightarrow> covers (av ! i) (bv ! i)) \<Longrightarrow> covers (JSlice av) (JSlice bv)"
| covers_map: "(\<And>k v. (k, v) \<in> set av \<Longrightarrow> \<exists>w. map_of bv k = Some w \<and> covers v w) \<Longrightarrow> covers (JMap av) (JMap bv)"

inductive_simps covers_simps:
  "covers JNull b" "covers (JBool v) b" "covers (JString v) b" "covers (JSlice av) b" "covers (JMap av) b" "covers (JFloat n) b"

lemma sameString_iff: "sameString dec a b = Inr () \<longleftrightarrow> a = b"
  by (auto simp: sameString_def split: option.splits)

lemma superset_covers:
  "isSuperset dec a b = Inr () \<longleftrightarrow> covers a b"
  "keysIn dec av bv = Inr () \<longleftrightarrow> (\<forall>(k, v) \<in> set av. \<exists>w. map_of bv k = Some w \<and> covers v w)"
  "elementsIn dec es fs = Inr () \<longleftrightarrow> length es \<le> length fs \<and> (\<forall>i < length es. covers (es ! i) (fs ! i))"
proof (induction dec a b and dec av bv and dec es fs rule: isSuperset_keysIn_elementsIn.induct)
  case (1 dec av b)
  then show ?case by (auto simp: covers_simps split: json.splits)
next
  case (2 dec av b)
  then show ?case by (auto simp: covers_simps split: json.splits)
next
  case (8 dec key valA rest bv)
  then show ?case by (auto split: option.splits sum.splits)
next
  case (10 dec valA rest bv)
  then show ?case by (auto simp: All_less_Suc2 split: list.splits sum.splits)
qed (auto simp: covers_simps sameString_iff split: json.splits)

lemma covers_trans: "covers a b \<Longrightarrow> covers b c \<Longrightarrow> covers a c"
proof (induction arbitrary: c rule: covers.induct)
  case (covers_slice av bv)
  then show ?case by (auto simp: covers_simps)
next
  case (covers_map av bv)
  then obtain cv where c: "c = JMap cv" "\<And>k v. (k, v) \<in> set bv \<Longrightarrow> \<exists>w. map_of cv k = Some w \<and> covers v w"
    by (auto simp: covers_simps)
  show ?case unfolding c(1)
  proof (rule covers.covers_map)
    fix k v assume "(k, v) \<in> set av"
    then obtain w where w: "map_of bv k = Some w" "\<And>x. covers w x \<Longrightarrow> covers v x" using covers_map by blast
    from c(2) [OF map_of_SomeD [OF w(1)]] w(2) show "\<exists>w. map_of cv k = Some w \<and> covers v w" by blast
  qed
qed auto

text \<open>The keys of a Go map are distinct.\<close>

fun go_value :: "json \<Rightarrow> bool" where
  "go_value (JMap vv) = (distinct (map fst vv) \<and> (\<forall>kv \<in> set vv. go_value (snd kv)))"
| "go_value (JSlice vv) = (\<forall>v \<in> set vv. go_value v)"
| "go_value _ = True"

lemma covers_refl_iff: "go_value v \<Longrightarrow> covers v v \<longleftrightarrow> \<not> checkForFloats v"
proof (induction v)
  case (JSlice vs)
  then have "covers v v \<longleftrightarrow> \<not> checkForFloats v" if "v \<in> set vs" for v using that by simp
  moreover have "covers (JSlice vs) (JSlice vs) \<longleftrightarrow> (\<forall>v \<in> set vs. covers v v)" by (auto simp: covers_simps all_set_conv_all_nth)
  ultimately show ?case by simp
next
  case (JMap vv)
  then have m: "map_of vv k = Some v" if "(k, v) \<in> set vv" for k v using that by simp
  have "covers (JMap vv) (JMap vv) \<longleftrightarrow> (\<forall>k v. (k, v) \<in> set vv \<longrightarrow> covers v v)"
    using m by (simp add: covers_simps)
  then have "covers (JMap vv) (JMap vv) \<longleftrightarrow> (\<forall>kv \<in> set vv. covers (snd kv) (snd kv))" by auto
  moreover have "covers (snd kv) (snd kv) \<longleftrightarrow> \<not> checkForFloats (snd kv)" if "kv \<in> set vv" for kv
    using that JMap.IH [of kv "snd kv"] JMap.prems by (auto simp: snds.simps)
  ultimately show ?case by simp
qed (auto simp: covers_simps)

text \<open>C36. Matching a pattern: a value matches itself exactly if it contains no number; a value that matches a
  pattern which itself matches a weaker pattern matches the weaker one too; and the comparison of
  strings as decimal numbers never decides, since two strings must be equal in any case.
\<close>

theorem filter_preorder:
  assumes "go_value v"
  shows "(isSuperset dec v v = Inr () \<longleftrightarrow> \<not> checkForFloats v) \<and>
    (isSuperset dec a b = Inr () \<and> isSuperset dec b c = Inr () \<longrightarrow> isSuperset dec a c = Inr ()) \<and>
    (isSuperset dec a b = Inr () \<longleftrightarrow> isSuperset dec' a b = Inr ())"
  using covers_refl_iff [OF assms] covers_trans by (auto simp: superset_covers)

definition send_pattern :: json where
  "send_pattern = JMap [(''@type'', JString ''send''), (''amount'', JSlice [JMap [(''denom'', JString ''uterp'')]])]"

definition send_message :: json where
  "send_message = JMap [(''@type'', JString ''send''), (''to'', JString ''bob''),
     (''amount'', JSlice [JMap [(''amount'', JString ''10.0''), (''denom'', JString ''uterp'')]])]"

theorem filter_preorder_witness:
  "isSuperset (\<lambda>_. None) send_message send_message = Inr () \<and>
   isSuperset (\<lambda>_. None) (JMap [(''@type'', JString ''send'')]) send_message = Inr () \<and>
   isSuperset (\<lambda>_. Some 0) send_pattern send_message = Inr ()"
proof -
  have v: "go_value send_message" "\<not> checkForFloats send_message" by (simp_all add: send_message_def)
  have ab: "isSuperset (\<lambda>_. None) (JMap [(''@type'', JString ''send'')]) send_pattern = Inr ()"
    and bc: "isSuperset (\<lambda>_. None) send_pattern send_message = Inr ()"
    by (simp_all add: send_pattern_def send_message_def sortedKeys_def sameString_def)
  show ?thesis
    using filter_preorder [OF v(1), of "\<lambda>_. None" "JMap [(''@type'', JString ''send'')]" send_pattern send_message "\<lambda>_. Some 0"]
      filter_preorder [OF v(1), of "\<lambda>_. None" send_pattern send_message send_message "\<lambda>_. Some 0"] v ab bc by simp
qed

end
