(* ===== verification/Smart_Auth.thy ===== *)
theory Smart_Auth
  imports Smart_Filter
begin

text \<open>
  The authenticators of \<open>x/smart-account/authenticator\<close>: signatures, message filters, contracts, proofs,
  their combinations \<open>AllOf\<close> and \<open>AnyOf\<close> with one signature or one per part, and the manager of the
  registered types.

  A context holds the state of the chain, of type \<open>'s\<close>, and a gas meter, of type \<open>'g\<close>; both belong to the
  SDK.  What the SDK, the contracts, the JSON library and the signature scheme do is in \<open>SaEnv\<close>.  A panic
  is an error value that no caller handles: \<open>Panic\<close>.
\<close>

subsection \<open>Types\<close>

datatype sa_panic = OutOfGas | NilPointer | OtherPanic string

datatype sa_error =
    ErrInvalidRequest | ErrUnauthorized_sa | ErrTxDecode | ErrInvalidSequence | ErrInvalidType | ErrInvalidPubKey
  | ErrLogic | ErrPanic | ErrOutOfGas | SaErrorf string | SdkError string | SaFilter filter_error | Panic sa_panic

fun is_panic :: "sa_error \<Rightarrow> bool" where
  "is_panic (Panic _) = True"
| "is_panic _ = False"

record LocalAny =
  la_TypeURL :: string
  la_Value :: bytes

record SignModeData =
  smd_Direct :: bytes
  smd_Textual :: string

record ExplicitTxData =
  etx_ChainID :: string
  etx_AccountNumber :: u64
  etx_AccountSequence :: u64
  etx_TimeoutHeight :: u64
  etx_Msgs :: "LocalAny list"
  etx_Memo :: string

record SimplifiedSignatureData =
  ssd_Signers :: "bytes list"
  ssd_Signatures :: "bytes list"

record AuthenticationRequest =
  rq_AuthenticatorId :: string
  rq_Account :: bytes
  rq_FeePayer :: bytes
  rq_FeeGranter :: bytes
  rq_Fee :: "Coin list"
  rq_Msg :: LocalAny
  rq_MsgIndex :: u64
  rq_Signature :: bytes
  rq_SignModeTxData :: SignModeData
  rq_TxData :: ExplicitTxData
  rq_SignatureData :: SimplifiedSignatureData
  rq_Simulate :: bool
  rq_AuthenticatorParams :: bytes

record TrackRequest =
  tr_AuthenticatorId :: string
  tr_Account :: bytes
  tr_FeePayer :: bytes
  tr_FeeGranter :: bytes
  tr_Fee :: "Coin list"
  tr_Msg :: LocalAny
  tr_MsgIndex :: u64
  tr_AuthenticatorParams :: bytes

record ConfirmExecutionRequest =
  cr_AuthenticatorId :: string
  cr_Account :: bytes
  cr_FeePayer :: bytes
  cr_FeeGranter :: bytes
  cr_Fee :: "Coin list"
  cr_Msg :: LocalAny
  cr_MsgIndex :: u64
  cr_AuthenticatorParams :: bytes

record OnAuthenticatorRequest =
  oa_Account :: bytes
  oa_AuthenticatorParams :: bytes
  oa_AuthenticatorId :: string

datatype SudoMsg =
    SudoOnAuthenticatorAdded OnAuthenticatorRequest
  | SudoOnAuthenticatorRemoved OnAuthenticatorRequest
  | SudoAuthenticate AuthenticationRequest
  | SudoTrack TrackRequest
  | SudoConfirmExecution ConfirmExecutionRequest

record SubAuthenticatorInitData =
  sd_Type :: string
  sd_Config :: bytes

record CosmwasmAuthenticatorInitData =
  cw_Contract :: string
  cw_Params :: bytes

record ZkProofAuthenticatorConfig =
  zk_ZkID :: u64
  zk_PILayout :: string
  zk_StaticGas :: u64
  zk_RequirePin :: bool
  zk_MaxProofBytes :: u64

record ZkProofAuthPayload =
  zp_Proof :: bytes
  zp_Instances :: bytes
  zp_CircuitKeyHint :: bytes

record ('s, 'g) sctx =
  sx_state :: 's
  sx_gas :: 'g
  sx_IsCheckTx :: bool
  sx_IsReCheckTx :: bool
  sx_BlockHeight :: i64
  sx_ChainID :: string

type_synonym ('s, 'g, 'a) sdk_call = "'s \<times> 'g \<Rightarrow> (sa_error + 'a) \<times> 's \<times> 'g"
type_synonym ('s, 'g, 'a) sa_result = "(sa_error + 'a) \<times> ('s, 'g) sctx"
type_synonym ('s, 'g) ZkProofPathAVerifier = "u64 \<Rightarrow> bytes \<Rightarrow> bytes \<Rightarrow> ('s, 'g, unit) sdk_call"

record ('s, 'g) SaEnv =
  sa_ConsumeGas :: "u64 \<Rightarrow> 'g \<Rightarrow> (sa_error + unit) \<times> 'g"
  sa_SigVerifyCostSecp256k1 :: "('s, 'g, u64) sdk_call"
  sa_VerifySignature :: "bytes \<Rightarrow> bytes \<Rightarrow> bytes \<Rightarrow> bool"
  sa_Sudo :: "bytes \<Rightarrow> bytes \<Rightarrow> ('s, 'g, unit) sdk_call"
  sa_sudoJson :: "SudoMsg \<Rightarrow> sa_error + bytes"
  sa_initDatas :: "bytes \<Rightarrow> sa_error + SubAuthenticatorInitData list"
  sa_signatures :: "bytes \<Rightarrow> sa_error + bytes list"
  sa_cwInitData :: "bytes \<Rightarrow> sa_error + CosmwasmAuthenticatorInitData"
  sa_zkConfig :: "bytes \<Rightarrow> sa_error + ZkProofAuthenticatorConfig"
  sa_zkPayload :: "bytes \<Rightarrow> sa_error + ZkProofAuthPayload"
  sa_RawMessage :: "bytes \<Rightarrow> sa_error + unit"
  sa_jsonObject :: "bytes \<Rightarrow> sa_error + unit"
  sa_json :: "bytes \<Rightarrow> sa_error + json"
  sa_LegacyNewDecFromStr :: "string \<Rightarrow> int option"
  sa_Resolve :: "string \<Rightarrow> sa_error + unit"
  sa_UnmarshalMsg :: "string \<Rightarrow> bytes \<Rightarrow> sa_error + bytes"
  sa_MarshalInterfaceJSON :: "bytes \<Rightarrow> sa_error + bytes"
  sa_AccAddressFromBech32 :: "string \<Rightarrow> sa_error + bytes"
  sa_GlobalPathAVerifier :: "('s, 'g) ZkProofPathAVerifier option"

datatype SignatureAssignment = Single | Partitioned

text \<open>The contract keeper of a contract authenticator is a pointer that may be nil: the flag says it is set.\<close>

datatype ('s, 'g) Authenticator =
    SignatureVerification "bytes option"
  | MessageFilter bytes
  | CosmwasmAuthenticator bool bytes bytes
  | ZkProofAuthenticatorV1 ZkProofAuthenticatorConfig "('s, 'g) ZkProofPathAVerifier option"
  | AllOf "('s, 'g) Authenticator list" SignatureAssignment
  | AnyOf "('s, 'g) Authenticator list" SignatureAssignment

text \<open>A check that changes nothing, gas, and a call into the SDK.\<close>

definition pure_check :: "sa_error + 'a \<Rightarrow> ('s, 'g) sctx \<Rightarrow> ('s, 'g, 'a) sa_result" where
  "pure_check r c = (r, c)"

definition ConsumeGas :: "('s, 'g) SaEnv \<Rightarrow> u64 \<Rightarrow> ('s, 'g) sctx \<Rightarrow> ('s, 'g, unit) sa_result" where
  "ConsumeGas e n c = (case sa_ConsumeGas e n (sx_gas c) of (r, g) \<Rightarrow> (r, c\<lparr>sx_gas := g\<rparr>))"

definition on_sdk :: "('s, 'g, 'a) sdk_call \<Rightarrow> ('s, 'g) sctx \<Rightarrow> ('s, 'g, 'a) sa_result" where
  "on_sdk f c = (case f (sx_state c, sx_gas c) of (r, s, g) \<Rightarrow> (r, c\<lparr>sx_state := s, sx_gas := g\<rparr>))"

subsection \<open>Signatures\<close>

definition SignatureVerificationType :: string where "SignatureVerificationType = ''SignatureVerification''"
definition PubKeySize :: nat where "PubKeySize = 33"

definition SignatureVerification_Initialize :: "('s, 'g) Authenticator \<Rightarrow> bytes \<Rightarrow> sa_error + ('s, 'g) Authenticator" where
  "SignatureVerification_Initialize sva config =
    (let sva = (if length config \<noteq> PubKeySize then SignatureVerification None else sva);
         sva = SignatureVerification (Some config)
     in Inr sva)"

definition SignatureVerification_Authenticate ::
  "('s, 'g) SaEnv \<Rightarrow> bytes option \<Rightarrow> AuthenticationRequest \<Rightarrow> ('s, 'g) sctx \<Rightarrow> ('s, 'g, unit) sa_result" where
  "SignatureVerification_Authenticate e pubKey request c =
    bindw (on_sdk (sa_SigVerifyCostSecp256k1 e) c) (\<lambda>cost c.
    bindw (ConsumeGas e cost c) (\<lambda>_ c.
    if rq_Simulate request \<or> sx_IsReCheckTx c then (Inr (), c)
    else case pubKey of
       None \<Rightarrow> (Inl ErrInvalidPubKey, c)
     | Some key \<Rightarrow>
         if \<not> sa_VerifySignature e key (smd_Direct (rq_SignModeTxData request)) (rq_Signature request)
         then (Inl ErrUnauthorized_sa, c) else (Inr (), c)))"

definition SignatureVerification_OnAuthenticatorAdded :: "bytes \<Rightarrow> sa_error + unit" where
  "SignatureVerification_OnAuthenticatorAdded config =
    (if length config \<noteq> PubKeySize then Inl (SaErrorf ''invalid secp256k1 public key size'') else Inr ())"

subsection \<open>Message filters\<close>

definition MessageFilter_Initialize :: "('s, 'g) SaEnv \<Rightarrow> bytes \<Rightarrow> sa_error + ('s, 'g) Authenticator" where
  "MessageFilter_Initialize e config =
    (case sa_RawMessage e config of Inl err \<Rightarrow> Inl err | Inr _ \<Rightarrow> Inr (MessageFilter config))"

definition IsJsonSuperset :: "('s, 'g) SaEnv \<Rightarrow> bytes \<Rightarrow> bytes \<Rightarrow> sa_error + unit" where
  "IsJsonSuperset e a b =
    (case sa_json e a of
       Inl _ \<Rightarrow> Inl (SaErrorf ''error unmarshaling first JSON'')
     | Inr av \<Rightarrow> (case sa_json e b of
         Inl _ \<Rightarrow> Inl (SaErrorf ''error unmarshaling second JSON'')
       | Inr bv \<Rightarrow> (case isSuperset (sa_LegacyNewDecFromStr e) av bv of Inl err \<Rightarrow> Inl (SaFilter err) | Inr _ \<Rightarrow> Inr ())))"

definition MessageFilter_Authenticate :: "('s, 'g) SaEnv \<Rightarrow> bytes \<Rightarrow> AuthenticationRequest \<Rightarrow> sa_error + unit" where
  "MessageFilter_Authenticate e pattern request =
    (case sa_Resolve e (la_TypeURL (rq_Msg request)) of
       Inl err \<Rightarrow> Inl err
     | Inr _ \<Rightarrow> (case sa_UnmarshalMsg e (la_TypeURL (rq_Msg request)) (la_Value (rq_Msg request)) of
         Inl err \<Rightarrow> Inl err
       | Inr m \<Rightarrow> (case sa_MarshalInterfaceJSON e m of
           Inl err \<Rightarrow> Inl err
         | Inr jsonBz \<Rightarrow> IsJsonSuperset e pattern jsonBz)))"

definition containsFloats :: "('s, 'g) SaEnv \<Rightarrow> bytes \<Rightarrow> sa_error + bool" where
  "containsFloats e data = (case sa_json e data of Inl err \<Rightarrow> Inl err | Inr v \<Rightarrow> Inr (checkForFloats v))"

definition MessageFilter_OnAuthenticatorAdded :: "('s, 'g) SaEnv \<Rightarrow> bytes \<Rightarrow> sa_error + unit" where
  "MessageFilter_OnAuthenticatorAdded e config =
    (case sa_RawMessage e config of
       Inl err \<Rightarrow> Inl err
     | Inr _ \<Rightarrow> (case containsFloats e config of
         Inl err \<Rightarrow> Inl err
       | Inr hasFloats \<Rightarrow>
           if hasFloats then Inl (SaErrorf ''invalid json representation of message. Numbers should be encoded as strings'')
           else Inr ()))"

subsection \<open>Contracts\<close>

definition parseInitData :: "('s, 'g) SaEnv \<Rightarrow> bytes \<Rightarrow> sa_error + bytes \<times> bytes" where
  "parseInitData e data =
    (case sa_cwInitData e data of
       Inl err \<Rightarrow> Inl err
     | Inr initData \<Rightarrow>
         if cw_Contract initData = [] then Inl ErrInvalidRequest
         else (case sa_AccAddressFromBech32 e (cw_Contract initData) of
             Inl err \<Rightarrow> Inl err
           | Inr contractAddr \<Rightarrow>
               if cw_Params initData = [] then Inr (contractAddr, [])
               else (case sa_jsonObject e (cw_Params initData) of
                   Inl err \<Rightarrow> Inl err
                 | Inr _ \<Rightarrow> Inr (contractAddr, cw_Params initData))))"

text \<open>The message is encoded first; a call through a nil contract keeper panics.\<close>

definition contract_sudo ::
  "('s, 'g) SaEnv \<Rightarrow> bool \<Rightarrow> bytes \<Rightarrow> SudoMsg \<Rightarrow> sa_error option \<Rightarrow> ('s, 'g) sctx \<Rightarrow> ('s, 'g, unit) sa_result" where
  "contract_sudo e contractKeeper contractAddr msg marshalErr c =
    (case sa_sudoJson e msg of
       Inl err \<Rightarrow> (Inl (case marshalErr of None \<Rightarrow> err | Some err' \<Rightarrow> err'), c)
     | Inr bz \<Rightarrow> if contractKeeper then on_sdk (sa_Sudo e contractAddr bz) c else (Inl (Panic NilPointer), c))"

definition Cosmwasm_Authenticate ::
  "('s, 'g) SaEnv \<Rightarrow> bool \<Rightarrow> bytes \<Rightarrow> bytes \<Rightarrow> AuthenticationRequest \<Rightarrow> ('s, 'g) sctx \<Rightarrow> ('s, 'g, unit) sa_result" where
  "Cosmwasm_Authenticate e k addr params request c =
    contract_sudo e k addr (SudoAuthenticate (request\<lparr>rq_AuthenticatorParams := params\<rparr>)) None c"

definition Cosmwasm_Track ::
  "('s, 'g) SaEnv \<Rightarrow> bool \<Rightarrow> bytes \<Rightarrow> bytes \<Rightarrow> AuthenticationRequest \<Rightarrow> ('s, 'g) sctx \<Rightarrow> ('s, 'g, unit) sa_result" where
  "Cosmwasm_Track e k addr params request c =
    contract_sudo e k addr (SudoTrack
      \<lparr>tr_AuthenticatorId = rq_AuthenticatorId request, tr_Account = rq_Account request, tr_FeePayer = rq_FeePayer request,
       tr_FeeGranter = rq_FeeGranter request, tr_Fee = rq_Fee request, tr_Msg = rq_Msg request, tr_MsgIndex = rq_MsgIndex request,
       tr_AuthenticatorParams = params\<rparr>) (Some ErrInvalidRequest) c"

definition Cosmwasm_ConfirmExecution ::
  "('s, 'g) SaEnv \<Rightarrow> bool \<Rightarrow> bytes \<Rightarrow> bytes \<Rightarrow> AuthenticationRequest \<Rightarrow> ('s, 'g) sctx \<Rightarrow> ('s, 'g, unit) sa_result" where
  "Cosmwasm_ConfirmExecution e k addr params request c =
    contract_sudo e k addr (SudoConfirmExecution
      \<lparr>cr_AuthenticatorId = rq_AuthenticatorId request, cr_Account = rq_Account request, cr_FeePayer = rq_FeePayer request,
       cr_FeeGranter = rq_FeeGranter request, cr_Fee = rq_Fee request, cr_Msg = rq_Msg request, cr_MsgIndex = rq_MsgIndex request,
       cr_AuthenticatorParams = params\<rparr>) None c"

definition Cosmwasm_OnAuthenticatorAdded ::
  "('s, 'g) SaEnv \<Rightarrow> bool \<Rightarrow> bytes \<Rightarrow> bytes \<Rightarrow> string \<Rightarrow> ('s, 'g) sctx \<Rightarrow> ('s, 'g, unit) sa_result" where
  "Cosmwasm_OnAuthenticatorAdded e k account config authenticatorId c =
    bindw (pure_check (parseInitData e config) c) (\<lambda>(contractAddr, params) c.
    contract_sudo e k contractAddr (SudoOnAuthenticatorAdded
      \<lparr>oa_Account = account, oa_AuthenticatorParams = params, oa_AuthenticatorId = authenticatorId\<rparr>) (Some ErrInvalidRequest) c)"

definition Cosmwasm_OnAuthenticatorRemoved ::
  "('s, 'g) SaEnv \<Rightarrow> bool \<Rightarrow> bytes \<Rightarrow> bytes \<Rightarrow> string \<Rightarrow> ('s, 'g) sctx \<Rightarrow> ('s, 'g, unit) sa_result" where
  "Cosmwasm_OnAuthenticatorRemoved e k account config authenticatorId c =
    bindw (pure_check (parseInitData e config) c) (\<lambda>(contractAddr, params) c.
    contract_sudo e k contractAddr (SudoOnAuthenticatorRemoved
      \<lparr>oa_Account = account, oa_AuthenticatorParams = params, oa_AuthenticatorId = authenticatorId\<rparr>) (Some ErrInvalidRequest) c)"

subsection \<open>Proofs\<close>

definition ZkProofAuthenticatorType :: string where "ZkProofAuthenticatorType = ''ZkProofAuthenticatorV1''"
definition DefaultZkProofStaticGas :: u64 where "DefaultZkProofStaticGas = 100000"

definition ZkProof_StaticGas :: "ZkProofAuthenticatorConfig \<Rightarrow> u64" where
  "ZkProof_StaticGas config = (if zk_StaticGas config = 0 then DefaultZkProofStaticGas else zk_StaticGas config)"

definition ParseZkProofAuthenticatorConfig :: "('s, 'g) SaEnv \<Rightarrow> bytes \<Rightarrow> sa_error + ZkProofAuthenticatorConfig" where
  "ParseZkProofAuthenticatorConfig e config =
    (if config = [] then Inl ErrInvalidRequest
     else case sa_zkConfig e config of
       Inl err \<Rightarrow> Inl err
     | Inr cfg \<Rightarrow>
         if zk_ZkID cfg = 0 then Inl ErrInvalidRequest
         else Inr (if zk_MaxProofBytes cfg = 0 then cfg\<lparr>zk_MaxProofBytes := 65536\<rparr> else cfg))"

definition ParseZkProofAuthPayload :: "('s, 'g) SaEnv \<Rightarrow> bytes \<Rightarrow> sa_error + ZkProofAuthPayload" where
  "ParseZkProofAuthPayload e raw =
    (if raw = [] then Inl ErrInvalidRequest
     else case sa_zkPayload e raw of
       Inl err \<Rightarrow> Inl err
     | Inr p \<Rightarrow>
         if zp_Proof p = [] then Inl ErrInvalidRequest
         else if zp_Instances p = [] then Inl ErrInvalidRequest
         else Inr p)"

definition ZkProof_Authenticate ::
  "('s, 'g) SaEnv \<Rightarrow> ZkProofAuthenticatorConfig \<Rightarrow> ('s, 'g) ZkProofPathAVerifier option \<Rightarrow> AuthenticationRequest \<Rightarrow>
   ('s, 'g) sctx \<Rightarrow> ('s, 'g, unit) sa_result" where
  "ZkProof_Authenticate e config verifier request c =
    (let gas = ZkProof_StaticGas config
     in bindw (if gas > 0 then ConsumeGas e gas c else (Inr (), c)) (\<lambda>_ c.
        if rq_Simulate request \<or> sx_IsReCheckTx c then (Inr (), c)
        else bindw (pure_check (ParseZkProofAuthPayload e (rq_Signature request)) c) (\<lambda>payload c.
          if word_of_nat (length (zp_Proof payload)) > zk_MaxProofBytes config then (Inl ErrInvalidRequest, c)
          else case (case verifier of None \<Rightarrow> sa_GlobalPathAVerifier e | Some v \<Rightarrow> Some v) of
             None \<Rightarrow> (Inl ErrUnauthorized_sa, c)
           | Some v \<Rightarrow> (case on_sdk (v (zk_ZkID config) (zp_Proof payload) (zp_Instances payload)) c of
               (Inl err, c) \<Rightarrow> (Inl (if is_panic err then err else ErrUnauthorized_sa), c)
             | (Inr _, c) \<Rightarrow> (Inr (), c)))))"

subsection \<open>Combinations\<close>

definition compositeId :: "string \<Rightarrow> nat \<Rightarrow> string" where
  "compositeId baseId subId = baseId @ ''.'' @ Itoa subId"

definition splitSignatures :: "('s, 'g) SaEnv \<Rightarrow> bytes \<Rightarrow> nat \<Rightarrow> sa_error + bytes list" where
  "splitSignatures e signature parts =
    (case sa_signatures e signature of
       Inl _ \<Rightarrow> Inl ErrInvalidRequest
     | Inr signatures \<Rightarrow> if length signatures \<noteq> parts then Inl ErrInvalidRequest else Inr signatures)"

text \<open>The signatures of the parts, read only if each part has its own.\<close>

definition partSignatures ::
  "('s, 'g) SaEnv \<Rightarrow> SignatureAssignment \<Rightarrow> AuthenticationRequest \<Rightarrow> nat \<Rightarrow> sa_error + bytes list" where
  "partSignatures e signatureAssignment request parts =
    (if signatureAssignment = Partitioned then splitSignatures e (rq_Signature request) parts else Inr [])"

text \<open>The request as part \<open>i\<close> sees it.\<close>

definition partRequest ::
  "SignatureAssignment \<Rightarrow> bytes list \<Rightarrow> string \<Rightarrow> nat \<Rightarrow> AuthenticationRequest \<Rightarrow> AuthenticationRequest" where
  "partRequest signatureAssignment signatures baseId i request =
    (let request = request\<lparr>rq_AuthenticatorId := compositeId baseId i\<rparr>
     in if signatureAssignment = Partitioned then request\<lparr>rq_Signature := signatures ! i\<rparr> else request)"

fun AuthType :: "('s, 'g) Authenticator \<Rightarrow> string" where
  "AuthType (SignatureVerification _) = SignatureVerificationType"
| "AuthType (MessageFilter _) = ''MessageFilter''"
| "AuthType (CosmwasmAuthenticator _ _ _) = ''CosmwasmAuthenticatorV1''"
| "AuthType (ZkProofAuthenticatorV1 _ _) = ZkProofAuthenticatorType"
| "AuthType (AllOf _ a) = (if a = Single then ''AllOf'' else ''PartitionedAllOf'')"
| "AuthType (AnyOf _ a) = (if a = Single then ''AnyOf'' else ''PartitionedAnyOf'')"

fun StaticGas :: "('s, 'g) Authenticator \<Rightarrow> u64" where
  "StaticGas (AllOf subs _) = foldl (\<lambda>totalGas g. totalGas + g) 0 (map StaticGas subs)"
| "StaticGas (AnyOf subs _) = foldl (\<lambda>totalGas g. totalGas + g) 0 (map StaticGas subs)"
| "StaticGas (ZkProofAuthenticatorV1 config _) = ZkProof_StaticGas config"
| "StaticGas (SignatureVerification _) = 0"
| "StaticGas (MessageFilter _) = 0"
| "StaticGas (CosmwasmAuthenticator _ _ _) = 0"

fun Authenticate :: "('s, 'g) SaEnv \<Rightarrow> ('s, 'g) Authenticator \<Rightarrow> AuthenticationRequest \<Rightarrow> ('s, 'g) sctx \<Rightarrow> ('s, 'g, unit) sa_result"
  and anyAuthenticate :: "('s, 'g) SaEnv \<Rightarrow> ('s, 'g) Authenticator list \<Rightarrow> SignatureAssignment \<Rightarrow> bytes list \<Rightarrow> string \<Rightarrow> nat \<Rightarrow>
    AuthenticationRequest \<Rightarrow> ('s, 'g) sctx \<Rightarrow> ('s, 'g, unit) sa_result"
  and allAuthenticate :: "('s, 'g) SaEnv \<Rightarrow> ('s, 'g) Authenticator list \<Rightarrow> SignatureAssignment \<Rightarrow> bytes list \<Rightarrow> string \<Rightarrow> nat \<Rightarrow>
    AuthenticationRequest \<Rightarrow> ('s, 'g) sctx \<Rightarrow> ('s, 'g, unit) sa_result" where
  "Authenticate e (SignatureVerification pubKey) request c = SignatureVerification_Authenticate e pubKey request c"
| "Authenticate e (MessageFilter pattern) request c = pure_check (MessageFilter_Authenticate e pattern request) c"
| "Authenticate e (CosmwasmAuthenticator k addr params) request c = Cosmwasm_Authenticate e k addr params request c"
| "Authenticate e (ZkProofAuthenticatorV1 config verifier) request c = ZkProof_Authenticate e config verifier request c"
| "Authenticate e (AnyOf subs a) request c =
    (if subs = [] then (Inl ErrInvalidRequest, c)
     else case partSignatures e a request (length subs) of
       Inl err \<Rightarrow> (Inl err, c)
     | Inr signatures \<Rightarrow> anyAuthenticate e subs a signatures (rq_AuthenticatorId request) 0 request c)"
| "Authenticate e (AllOf subs a) request c =
    (if subs = [] then (Inl ErrInvalidRequest, c)
     else case partSignatures e a request (length subs) of
       Inl err \<Rightarrow> (Inl err, c)
     | Inr signatures \<Rightarrow> allAuthenticate e subs a signatures (rq_AuthenticatorId request) 0 request c)"
| "anyAuthenticate e [] a signatures baseId i request c = (Inl ErrUnauthorized_sa, c)"
| "anyAuthenticate e (auth # subs) a signatures baseId i request c =
    (case Authenticate e auth (partRequest a signatures baseId i request) c of
       (Inr _, c) \<Rightarrow> (Inr (), c)
     | (Inl err, c) \<Rightarrow>
         if is_panic err then (Inl err, c) else anyAuthenticate e subs a signatures baseId (Suc i) request c)"
| "allAuthenticate e [] a signatures baseId i request c = (Inr (), c)"
| "allAuthenticate e (auth # subs) a signatures baseId i request c =
    (case Authenticate e auth (partRequest a signatures baseId i request) c of
       (Inl err, c) \<Rightarrow> (Inl err, c)
     | (Inr _, c) \<Rightarrow> allAuthenticate e subs a signatures baseId (Suc i) request c)"

fun Track :: "('s, 'g) SaEnv \<Rightarrow> ('s, 'g) Authenticator \<Rightarrow> AuthenticationRequest \<Rightarrow> ('s, 'g) sctx \<Rightarrow> ('s, 'g, unit) sa_result"
  and subTrack :: "('s, 'g) SaEnv \<Rightarrow> ('s, 'g) Authenticator list \<Rightarrow> string \<Rightarrow> nat \<Rightarrow> AuthenticationRequest \<Rightarrow>
    ('s, 'g) sctx \<Rightarrow> ('s, 'g, unit) sa_result" where
  "Track e (CosmwasmAuthenticator k addr params) request c = Cosmwasm_Track e k addr params request c"
| "Track e (AnyOf subs a) request c = subTrack e subs (rq_AuthenticatorId request) 0 request c"
| "Track e (AllOf subs a) request c = subTrack e subs (rq_AuthenticatorId request) 0 request c"
| "Track e (SignatureVerification _) request c = (Inr (), c)"
| "Track e (MessageFilter _) request c = (Inr (), c)"
| "Track e (ZkProofAuthenticatorV1 _ _) request c = (Inr (), c)"
| "subTrack e [] baseId i request c = (Inr (), c)"
| "subTrack e (auth # subs) baseId i request c =
    (case Track e auth (request\<lparr>rq_AuthenticatorId := compositeId baseId i\<rparr>) c of
       (Inl err, c) \<Rightarrow> (Inl err, c)
     | (Inr _, c) \<Rightarrow> subTrack e subs baseId (Suc i) request c)"

text \<open>
  In an \<open>AnyOf\<close> each part runs on a cached state, which is written only if the part succeeds; the gas
  it used stays used.
\<close>

fun ConfirmExecution :: "('s, 'g) SaEnv \<Rightarrow> ('s, 'g) Authenticator \<Rightarrow> AuthenticationRequest \<Rightarrow> ('s, 'g) sctx \<Rightarrow> ('s, 'g, unit) sa_result"
  and anyConfirm :: "('s, 'g) SaEnv \<Rightarrow> ('s, 'g) Authenticator list \<Rightarrow> SignatureAssignment \<Rightarrow> bytes list \<Rightarrow> string \<Rightarrow> nat \<Rightarrow>
    AuthenticationRequest \<Rightarrow> ('s, 'g) sctx \<Rightarrow> ('s, 'g, unit) sa_result"
  and allConfirm :: "('s, 'g) SaEnv \<Rightarrow> ('s, 'g) Authenticator list \<Rightarrow> SignatureAssignment \<Rightarrow> bytes list \<Rightarrow> string \<Rightarrow> nat \<Rightarrow>
    AuthenticationRequest \<Rightarrow> ('s, 'g) sctx \<Rightarrow> ('s, 'g, unit) sa_result" where
  "ConfirmExecution e (CosmwasmAuthenticator k addr params) request c = Cosmwasm_ConfirmExecution e k addr params request c"
| "ConfirmExecution e (AnyOf subs a) request c =
    (case partSignatures e a request (length subs) of
       Inl err \<Rightarrow> (Inl err, c)
     | Inr signatures \<Rightarrow> anyConfirm e subs a signatures (rq_AuthenticatorId request) 0 request c)"
| "ConfirmExecution e (AllOf subs a) request c =
    (case partSignatures e a request (length subs) of
       Inl err \<Rightarrow> (Inl err, c)
     | Inr signatures \<Rightarrow> allConfirm e subs a signatures (rq_AuthenticatorId request) 0 request c)"
| "ConfirmExecution e (SignatureVerification _) request c = (Inr (), c)"
| "ConfirmExecution e (MessageFilter _) request c = (Inr (), c)"
| "ConfirmExecution e (ZkProofAuthenticatorV1 _ _) request c = (Inr (), c)"
| "anyConfirm e [] a signatures baseId i request c = (Inl ErrUnauthorized_sa, c)"
| "anyConfirm e (auth # subs) a signatures baseId i request c =
    (case ConfirmExecution e auth (partRequest a signatures baseId i request) c of
       (Inr _, cacheCtx) \<Rightarrow> (Inr (), cacheCtx)
     | (Inl err, cacheCtx) \<Rightarrow>
         let c = c\<lparr>sx_gas := sx_gas cacheCtx\<rparr>
         in if is_panic err then (Inl err, c) else anyConfirm e subs a signatures baseId (Suc i) request c)"
| "allConfirm e [] a signatures baseId i request c = (Inr (), c)"
| "allConfirm e (auth # subs) a signatures baseId i request c =
    (case ConfirmExecution e auth (partRequest a signatures baseId i request) c of
       (Inl err, c) \<Rightarrow> (Inl err, c)
     | (Inr _, c) \<Rightarrow> allConfirm e subs a signatures baseId (Suc i) request c)"

subsection \<open>The manager\<close>

record ('s, 'g) AuthenticatorManager =
  am_registeredAuthenticators :: "(string \<times> ('s, 'g) Authenticator) list"
  am_orderedKeys :: "string list"

definition NewAuthenticatorManager :: "('s, 'g) AuthenticatorManager" where
  "NewAuthenticatorManager = \<lparr>am_registeredAuthenticators = [], am_orderedKeys = []\<rparr>"

definition ResetAuthenticators :: "('s, 'g) AuthenticatorManager \<Rightarrow> ('s, 'g) AuthenticatorManager" where
  "ResetAuthenticators am = am\<lparr>am_registeredAuthenticators := [], am_orderedKeys := []\<rparr>"

definition InitializeAuthenticators ::
  "('s, 'g) Authenticator list \<Rightarrow> ('s, 'g) AuthenticatorManager \<Rightarrow> ('s, 'g) AuthenticatorManager" where
  "InitializeAuthenticators initialAuthenticators am =
    (if length (am_registeredAuthenticators am) > 0 then am
     else let am = foldl (\<lambda>am a. am\<lparr>am_registeredAuthenticators := AList.update (AuthType a) a (am_registeredAuthenticators am),
                                   am_orderedKeys := am_orderedKeys am @ [AuthType a]\<rparr>) am initialAuthenticators
          in am\<lparr>am_orderedKeys := sort (am_orderedKeys am)\<rparr>)"

definition RegisterAuthenticator ::
  "('s, 'g) Authenticator \<Rightarrow> ('s, 'g) AuthenticatorManager \<Rightarrow> ('s, 'g) AuthenticatorManager" where
  "RegisterAuthenticator a am =
    (let am = (if map_of (am_registeredAuthenticators am) (AuthType a) = None
               then am\<lparr>am_orderedKeys := sort (am_orderedKeys am @ [AuthType a])\<rparr> else am)
     in am\<lparr>am_registeredAuthenticators := AList.update (AuthType a) a (am_registeredAuthenticators am)\<rparr>)"

definition UnregisterAuthenticator ::
  "('s, 'g) Authenticator \<Rightarrow> ('s, 'g) AuthenticatorManager \<Rightarrow> ('s, 'g) AuthenticatorManager" where
  "UnregisterAuthenticator a am =
    (if map_of (am_registeredAuthenticators am) (AuthType a) \<noteq> None
     then am\<lparr>am_registeredAuthenticators := AList.delete (AuthType a) (am_registeredAuthenticators am),
             am_orderedKeys := remove1 (AuthType a) (am_orderedKeys am)\<rparr>
     else am)"

text \<open>A key without a registered authenticator gives the nil interface, \<open>None\<close>.\<close>

definition GetRegisteredAuthenticators :: "('s, 'g) AuthenticatorManager \<Rightarrow> ('s, 'g) Authenticator option list" where
  "GetRegisteredAuthenticators am = map (map_of (am_registeredAuthenticators am)) (am_orderedKeys am)"

definition IsAuthenticatorTypeRegistered :: "('s, 'g) AuthenticatorManager \<Rightarrow> string \<Rightarrow> bool" where
  "IsAuthenticatorTypeRegistered am t = (map_of (am_registeredAuthenticators am) t \<noteq> None)"

definition GetAuthenticatorByType :: "('s, 'g) AuthenticatorManager \<Rightarrow> string \<Rightarrow> ('s, 'g) Authenticator option" where
  "GetAuthenticatorByType am t = map_of (am_registeredAuthenticators am) t"

definition NewSignatureVerification :: "('s, 'g) Authenticator" where "NewSignatureVerification = SignatureVerification None"
definition NewMessageFilter :: "('s, 'g) Authenticator" where "NewMessageFilter = MessageFilter []"
definition NewAllOf :: "('s, 'g) Authenticator" where "NewAllOf = AllOf [] Single"
definition NewPartitionedAllOf :: "('s, 'g) Authenticator" where "NewPartitionedAllOf = AllOf [] Partitioned"
definition NewAnyOf :: "('s, 'g) Authenticator" where "NewAnyOf = AnyOf [] Single"
definition NewPartitionedAnyOf :: "('s, 'g) Authenticator" where "NewPartitionedAnyOf = AnyOf [] Partitioned"

definition NewCosmwasmAuthenticator :: "bool \<Rightarrow> ('s, 'g) Authenticator" where
  "NewCosmwasmAuthenticator contractKeeper = CosmwasmAuthenticator contractKeeper [] []"

definition NewZkProofAuthenticatorV1 :: "('s, 'g) Authenticator" where
  "NewZkProofAuthenticatorV1 =
    ZkProofAuthenticatorV1 \<lparr>zk_ZkID = 0, zk_PILayout = [], zk_StaticGas = 0, zk_RequirePin = False, zk_MaxProofBytes = 0\<rparr> None"

definition NewZkProofAuthenticatorV1WithVerifier :: "('s, 'g) ZkProofPathAVerifier \<Rightarrow> ('s, 'g) Authenticator" where
  "NewZkProofAuthenticatorV1WithVerifier v =
    ZkProofAuthenticatorV1 \<lparr>zk_ZkID = 0, zk_PILayout = [], zk_StaticGas = 0, zk_RequirePin = False, zk_MaxProofBytes = 0\<rparr> (Some v)"

text \<open>
  The manager of the application: when the contract authenticator is registered, the field
  \<open>appKeepers.ContractKeeper\<close> it is given has not been assigned yet.
\<close>

definition app_manager :: "('s, 'g) AuthenticatorManager" where
  "app_manager =
    (let contractKeeper = False;
         am = InitializeAuthenticators
                [NewSignatureVerification, NewMessageFilter, NewAllOf, NewAnyOf, NewPartitionedAnyOf, NewPartitionedAllOf]
                NewAuthenticatorManager
     in RegisterAuthenticator (NewCosmwasmAuthenticator contractKeeper) am)"

subsection \<open>Configurations\<close>

text \<open>
  A combination reads its parts from its configuration and calls the same operation of each part, whose
  configuration may again be one of a combination.  Nothing in the code bounds this recursion, so the
  operations are partial functions: \<open>None\<close> is a call that does not return.
\<close>

fun each_part :: "('x \<Rightarrow> 'w \<Rightarrow> (('e + unit) \<times> 'w) option) \<Rightarrow> 'x list \<Rightarrow> 'w \<Rightarrow> (('e + unit) \<times> 'w) option" where
  "each_part f [] w = Some (Inr (), w)"
| "each_part f (x # xs) w =
    Option.bind (f x w) (\<lambda>(r, w). case r of Inl err \<Rightarrow> Some (Inl err, w) | Inr _ \<Rightarrow> each_part f xs w)"

fun map_parts :: "('x \<Rightarrow> ('e + 'y) option) \<Rightarrow> 'x list \<Rightarrow> ('e + 'y list) option" where
  "map_parts f [] = Some (Inr [])"
| "map_parts f (x # xs) =
    Option.bind (f x) (\<lambda>r. case r of
      Inl err \<Rightarrow> Some (Inl err)
    | Inr y \<Rightarrow> Option.bind (map_parts f xs) (\<lambda>r. Some (case r of Inl err \<Rightarrow> Inl err | Inr ys \<Rightarrow> Inr (y # ys))))"

lemma each_part_mono [partial_function_mono]:
  fixes F :: "_ \<Rightarrow> 'x \<Rightarrow> 'w \<Rightarrow> (('e + unit) \<times> 'w) option"
  assumes "\<And>x w. mono_option (\<lambda>f. F f x w)"
  shows "mono_option (\<lambda>f. each_part (F f) xs w)"
proof (induction xs arbitrary: w)
  case (Cons x xs)
  have "mono_option (\<lambda>f. case r of Inl err \<Rightarrow> Some (Inl err, w) | Inr _ \<Rightarrow> each_part (F f) xs w)" for r :: "'e + unit" and w
    using Cons.IH by (cases r) (auto intro!: partial_function_mono)
  then show ?case by (auto intro!: partial_function_mono assms)
qed (auto intro!: partial_function_mono)

lemma map_parts_mono [partial_function_mono]:
  fixes F :: "_ \<Rightarrow> 'x \<Rightarrow> ('e + 'y) option"
  assumes "\<And>x. mono_option (\<lambda>f. F f x)"
  shows "mono_option (\<lambda>f. map_parts (F f) xs)"
proof (induction xs)
  case (Cons x xs)
  have "mono_option (\<lambda>f. case r of
      Inl err \<Rightarrow> Some (Inl err)
    | Inr y \<Rightarrow> Option.bind (map_parts (F f) xs) (\<lambda>r. Some (case r of Inl err \<Rightarrow> Inl err | Inr ys \<Rightarrow> Inr (y # ys))))" for r :: "'e + 'y"
    using Cons.IH by (cases r) (auto intro!: partial_function_mono)
  then show ?case by (auto intro!: partial_function_mono assms)
qed (auto intro!: partial_function_mono)

definition initDatas_checked :: "('s, 'g) SaEnv \<Rightarrow> bytes \<Rightarrow> sa_error + SubAuthenticatorInitData list" where
  "initDatas_checked e config =
    (case sa_initDatas e config of
       Inl err \<Rightarrow> Inl err
     | Inr initDatas \<Rightarrow> if length initDatas \<le> 1 then Inl ErrInvalidRequest else Inr initDatas)"

definition with_parts ::
  "(('s, 'g) Authenticator list \<Rightarrow> ('s, 'g) Authenticator) \<Rightarrow> ('s, 'g) Authenticator list \<Rightarrow> nat \<Rightarrow>
   sa_error + ('s, 'g) Authenticator list \<Rightarrow> sa_error + ('s, 'g) Authenticator" where
  "with_parts build subs n r =
    (case r of
       Inl err \<Rightarrow> Inl err
     | Inr new \<Rightarrow> if length (subs @ new) \<noteq> n then Inl ErrInvalidRequest else Inr (build (subs @ new)))"

partial_function (option) Initialize ::
  "('s, 'g) SaEnv \<Rightarrow> ('s, 'g) AuthenticatorManager \<Rightarrow> ('s, 'g) Authenticator \<Rightarrow> bytes \<Rightarrow> (sa_error + ('s, 'g) Authenticator) option" where
  "Initialize e am auth config =
    (case auth of
       SignatureVerification _ \<Rightarrow> Some (SignatureVerification_Initialize auth config)
     | MessageFilter _ \<Rightarrow> Some (MessageFilter_Initialize e config)
     | CosmwasmAuthenticator k _ _ \<Rightarrow>
         Some (case parseInitData e config of Inl err \<Rightarrow> Inl err | Inr (addr, params) \<Rightarrow> Inr (CosmwasmAuthenticator k addr params))
     | ZkProofAuthenticatorV1 _ v \<Rightarrow>
         Some (case ParseZkProofAuthenticatorConfig e config of Inl err \<Rightarrow> Inl err | Inr cfg \<Rightarrow> Inr (ZkProofAuthenticatorV1 cfg v))
     | AllOf subs a \<Rightarrow>
         (case initDatas_checked e config of
            Inl err \<Rightarrow> Some (Inl err)
          | Inr initDatas \<Rightarrow>
              Option.bind (map_parts (\<lambda>d. case GetAuthenticatorByType am (sd_Type d) of
                  None \<Rightarrow> Some (Inl (Panic NilPointer))
                | Some code \<Rightarrow> Initialize e am code (sd_Config d)) initDatas)
              (\<lambda>r. Some (with_parts (\<lambda>s. AllOf s a) subs (length initDatas) r)))
     | AnyOf subs a \<Rightarrow>
         (case initDatas_checked e config of
            Inl err \<Rightarrow> Some (Inl err)
          | Inr initDatas \<Rightarrow>
              Option.bind (map_parts (\<lambda>d. case GetAuthenticatorByType am (sd_Type d) of
                  None \<Rightarrow> Some (Inl (Panic NilPointer))
                | Some code \<Rightarrow> Initialize e am code (sd_Config d)) initDatas)
              (\<lambda>r. Some (with_parts (\<lambda>s. AnyOf s a) subs (length initDatas) r))))"

text \<open>
  The loop over the parts counts them and compares the count with their number afterwards; the two are
  equal whenever the loop ends without an error.
\<close>

partial_function (option) OnAuthenticatorAdded ::
  "('s, 'g) SaEnv \<Rightarrow> ('s, 'g) AuthenticatorManager \<Rightarrow> ('s, 'g) Authenticator \<Rightarrow> bytes \<Rightarrow> bytes \<Rightarrow> string \<Rightarrow>
   ('s, 'g) sctx \<Rightarrow> ('s, 'g, unit) sa_result option" where
  "OnAuthenticatorAdded e am auth account config authenticatorId c =
    (case auth of
       SignatureVerification _ \<Rightarrow> Some (pure_check (SignatureVerification_OnAuthenticatorAdded config) c)
     | MessageFilter _ \<Rightarrow> Some (pure_check (MessageFilter_OnAuthenticatorAdded e config) c)
     | CosmwasmAuthenticator k _ _ \<Rightarrow> Some (Cosmwasm_OnAuthenticatorAdded e k account config authenticatorId c)
     | ZkProofAuthenticatorV1 _ _ \<Rightarrow>
         Some (pure_check (case ParseZkProofAuthenticatorConfig e config of Inl err \<Rightarrow> Inl err | Inr _ \<Rightarrow> Inr ()) c)
     | AllOf _ _ \<Rightarrow>
         (case initDatas_checked e config of
            Inl err \<Rightarrow> Some (Inl err, c)
          | Inr initDatas \<Rightarrow>
              each_part (\<lambda>p c. case GetAuthenticatorByType am (sd_Type (snd p)) of
                  None \<Rightarrow> Some (Inl ErrInvalidRequest, c)
                | Some code \<Rightarrow> OnAuthenticatorAdded e am code account (sd_Config (snd p)) (compositeId authenticatorId (fst p)) c)
                (enumerate 0 initDatas) c)
     | AnyOf _ _ \<Rightarrow>
         (case initDatas_checked e config of
            Inl err \<Rightarrow> Some (Inl err, c)
          | Inr initDatas \<Rightarrow>
              each_part (\<lambda>p c. case GetAuthenticatorByType am (sd_Type (snd p)) of
                  None \<Rightarrow> Some (Inl ErrInvalidRequest, c)
                | Some code \<Rightarrow> OnAuthenticatorAdded e am code account (sd_Config (snd p)) (compositeId authenticatorId (fst p)) c)
                (enumerate 0 initDatas) c))"

partial_function (option) OnAuthenticatorRemoved ::
  "('s, 'g) SaEnv \<Rightarrow> ('s, 'g) AuthenticatorManager \<Rightarrow> ('s, 'g) Authenticator \<Rightarrow> bytes \<Rightarrow> bytes \<Rightarrow> string \<Rightarrow>
   ('s, 'g) sctx \<Rightarrow> ('s, 'g, unit) sa_result option" where
  "OnAuthenticatorRemoved e am auth account config authenticatorId c =
    (case auth of
       SignatureVerification _ \<Rightarrow> Some (Inr (), c)
     | MessageFilter _ \<Rightarrow> Some (Inr (), c)
     | CosmwasmAuthenticator k _ _ \<Rightarrow> Some (Cosmwasm_OnAuthenticatorRemoved e k account config authenticatorId c)
     | ZkProofAuthenticatorV1 _ _ \<Rightarrow> Some (Inr (), c)
     | AllOf _ _ \<Rightarrow>
         (case sa_initDatas e config of
            Inl err \<Rightarrow> Some (Inl err, c)
          | Inr initDatas \<Rightarrow>
              each_part (\<lambda>p c. case GetAuthenticatorByType am (sd_Type (snd p)) of
                  None \<Rightarrow> Some (Inl ErrInvalidRequest, c)
                | Some code \<Rightarrow> OnAuthenticatorRemoved e am code account (sd_Config (snd p)) (compositeId authenticatorId (fst p)) c)
                (enumerate 0 initDatas) c)
     | AnyOf _ _ \<Rightarrow>
         (case sa_initDatas e config of
            Inl err \<Rightarrow> Some (Inl err, c)
          | Inr initDatas \<Rightarrow>
              each_part (\<lambda>p c. case GetAuthenticatorByType am (sd_Type (snd p)) of
                  None \<Rightarrow> Some (Inl ErrInvalidRequest, c)
                | Some code \<Rightarrow> OnAuthenticatorRemoved e am code account (sd_Config (snd p)) (compositeId authenticatorId (fst p)) c)
                (enumerate 0 initDatas) c))"

end
