(* ===== verification/Smart_Combine.thy ===== *)
theory Smart_Combine
  imports Smart_Auth
begin

text \<open>
  What holds of the authenticators: reading a configuration returns, what was accepted as a configuration
  can be initialized, a combination authenticates as the formula of its parts, and the manager keeps its
  keys in order.
\<close>

subsection \<open>Reading a configuration returns\<close>

text \<open>Termination: the configuration of a part is shorter than the configuration it is read from.\<close>

definition parts_shorter :: "('s, 'g) SaEnv \<Rightarrow> bool" where
  "parts_shorter e \<longleftrightarrow> (\<forall>config ds. sa_initDatas e config = Inr ds \<longrightarrow> (\<forall>d \<in> set ds. length (sd_Config d) < length config))"

lemma each_part_returns: "(\<And>x w. x \<in> set xs \<Longrightarrow> f x w \<noteq> None) \<Longrightarrow> each_part f xs w \<noteq> None"
proof (induction xs arbitrary: w)
  case (Cons x xs)
  then obtain r w' where "f x w = Some (r, w')" by (metis list.set_intros(1) not_None_eq prod.exhaust)
  with Cons show ?case by (cases r) auto
qed simp

lemma map_parts_returns: "(\<And>x. x \<in> set xs \<Longrightarrow> f x \<noteq> None) \<Longrightarrow> map_parts f xs \<noteq> None"
proof (induction xs)
  case (Cons x xs)
  then obtain r where "f x = Some r" "map_parts f xs \<noteq> None" by (metis list.set_intros not_None_eq)
  with Cons show ?case by (cases r) auto
qed simp

lemma initDatas_checked_Inr: "initDatas_checked e config = Inr ds \<longleftrightarrow> sa_initDatas e config = Inr ds \<and> length ds > 1"
  by (auto simp: initDatas_checked_def split: sum.splits if_splits)

lemma part_shorter: "parts_shorter e \<Longrightarrow> initDatas_checked e config = Inr ds \<Longrightarrow> d \<in> set ds \<Longrightarrow> length (sd_Config d) < length config"
  by (auto simp: parts_shorter_def initDatas_checked_Inr)

lemma Initialize_returns: "parts_shorter e \<Longrightarrow> Initialize e am auth config \<noteq> None"
proof (induction config arbitrary: auth rule: length_induct)
  case (1 config)
  have parts: "map_parts (\<lambda>d. case GetAuthenticatorByType am (sd_Type d) of
      None \<Rightarrow> Some (Inl (Panic NilPointer)) | Some code \<Rightarrow> Initialize e am code (sd_Config d)) ds \<noteq> None"
    if "initDatas_checked e config = Inr ds" for ds
    using 1 part_shorter [OF 1(2) that] by (intro map_parts_returns) (auto split: option.split)
  show ?case by (subst Initialize.simps) (auto split: Authenticator.split sum.split dest: parts)
qed

lemma OnAuthenticatorAdded_returns: "parts_shorter e \<Longrightarrow> OnAuthenticatorAdded e am auth account config i c \<noteq> None"
proof (induction config arbitrary: auth i c rule: length_induct)
  case (1 config)
  have parts: "each_part (\<lambda>p c. case GetAuthenticatorByType am (sd_Type (snd p)) of
      None \<Rightarrow> Some (Inl ErrInvalidRequest, c)
    | Some code \<Rightarrow> OnAuthenticatorAdded e am code account (sd_Config (snd p)) (compositeId i (fst p)) c) (enumerate 0 ds) c \<noteq> None"
    if "initDatas_checked e config = Inr ds" for ds
    using 1 part_shorter [OF 1(2) that] by (intro each_part_returns) (auto split: option.split dest: in_set_zipE simp: enumerate_eq_zip)
  show ?case by (subst OnAuthenticatorAdded.simps) (auto split: Authenticator.split sum.split dest: parts)
qed

lemma OnAuthenticatorRemoved_returns: "parts_shorter e \<Longrightarrow> OnAuthenticatorRemoved e am auth account config i c \<noteq> None"
proof (induction config arbitrary: auth i c rule: length_induct)
  case (1 config)
  have parts: "each_part (\<lambda>p c. case GetAuthenticatorByType am (sd_Type (snd p)) of
      None \<Rightarrow> Some (Inl ErrInvalidRequest, c)
    | Some code \<Rightarrow> OnAuthenticatorRemoved e am code account (sd_Config (snd p)) (compositeId i (fst p)) c) (enumerate 0 ds) c \<noteq> None"
    if "sa_initDatas e config = Inr ds" for ds
    using 1 that by (intro each_part_returns) (auto split: option.split dest: in_set_zipE simp: enumerate_eq_zip parts_shorter_def)
  show ?case by (subst OnAuthenticatorRemoved.simps) (auto split: Authenticator.split sum.split dest: parts)
qed

subsection \<open>Accepted configurations can be initialized\<close>

text \<open>What is registered has no parts yet and is registered under its type.\<close>

fun template :: "('s, 'g) Authenticator \<Rightarrow> bool" where
  "template (AllOf subs _) = (subs = [])"
| "template (AnyOf subs _) = (subs = [])"
| "template _ = True"

definition templates :: "('s, 'g) AuthenticatorManager \<Rightarrow> bool" where
  "templates am \<longleftrightarrow> (\<forall>t a. GetAuthenticatorByType am t = Some a \<longrightarrow> template a \<and> AuthType a = t)"

lemma each_part_Inr:
  "each_part f xs w = Some (Inr (), w') \<Longrightarrow> x \<in> set xs \<Longrightarrow> \<exists>w1 w2. f x w1 = Some (Inr (), w2)"
proof (induction xs arbitrary: w)
  case (Cons y ys)
  from Cons.prems(1) obtain r w1 where "f y w = Some (r, w1)" by (cases "f y w") auto
  with Cons show ?case by (cases r) auto
qed simp

lemma map_parts_Inr:
  "(\<And>x. x \<in> set xs \<Longrightarrow> \<exists>y. f x = Some (Inr y)) \<Longrightarrow> \<exists>ys. map_parts f xs = Some (Inr ys) \<and> length ys = length xs"
proof (induction xs)
  case (Cons x xs)
  then obtain y ys where "f x = Some (Inr y)" "map_parts f xs = Some (Inr ys)" "length ys = length xs" by (metis list.set_intros)
  then show ?case by simp
qed simp

lemma parts_initialize:
  assumes "templates am"
    and run: "each_part (\<lambda>p c. case GetAuthenticatorByType am (sd_Type (snd p)) of
        None \<Rightarrow> Some (Inl ErrInvalidRequest, c) | Some code \<Rightarrow> f code (snd p) (fst p) c) (enumerate 0 ds) c = Some (Inr (), c')"
    and step: "\<And>code d k w w'. f code d k w = Some (Inr (), w') \<Longrightarrow> template code \<Longrightarrow> \<exists>a. Initialize e am code (sd_Config d) = Some (Inr a)"
  shows "\<exists>ys. map_parts (\<lambda>d. case GetAuthenticatorByType am (sd_Type d) of
      None \<Rightarrow> Some (Inl (Panic NilPointer)) | Some code \<Rightarrow> Initialize e am code (sd_Config d)) ds = Some (Inr ys) \<and> length ys = length ds"
proof (rule map_parts_Inr)
  fix d assume "d \<in> set ds"
  then obtain k where "k < length ds" "ds ! k = d" by (auto simp: in_set_conv_nth)
  then have "(k, d) \<in> set (enumerate 0 ds)" by (simp add: in_set_enumerate_eq)
  from each_part_Inr [OF run this] obtain code w w' where code: "GetAuthenticatorByType am (sd_Type d) = Some code"
      "f code d k w = Some (Inr (), w')"
    by (auto split: option.splits)
  with step [OF code(2)] assms(1) show "\<exists>y. (case GetAuthenticatorByType am (sd_Type d) of
      None \<Rightarrow> Some (Inl (Panic NilPointer)) | Some code \<Rightarrow> Initialize e am code (sd_Config d)) = Some (Inr y)"
    by (simp add: templates_def)
qed

lemmas leaf_simps = SignatureVerification_Initialize_def MessageFilter_Initialize_def MessageFilter_OnAuthenticatorAdded_def
  Cosmwasm_OnAuthenticatorAdded_def pure_check_def bindw_def

lemma added_initializes:
  assumes "OnAuthenticatorAdded e am auth account config i c = Some r"
  shows "templates am \<longrightarrow> template auth \<longrightarrow> fst r = Inr () \<longrightarrow> (\<exists>a. Initialize e am auth config = Some (Inr a))"
proof (rule OnAuthenticatorAdded.raw_induct [OF _ assms,
    where P = "\<lambda>e am auth account config i c r. templates am \<longrightarrow> template auth \<longrightarrow> fst r = Inr () \<longrightarrow> (\<exists>a. Initialize e am auth config = Some (Inr a))"], goal_cases)
  case (1 OnAdded e am auth account config i c r)
  have parts: "\<exists>ys. map_parts (\<lambda>d. case GetAuthenticatorByType am (sd_Type d) of
        None \<Rightarrow> Some (Inl (Panic NilPointer)) | Some code \<Rightarrow> Initialize e am code (sd_Config d)) ds = Some (Inr ys) \<and> length ys = length ds"
    if "templates am" "each_part (\<lambda>p c. case GetAuthenticatorByType am (sd_Type (snd p)) of
        None \<Rightarrow> Some (Inl ErrInvalidRequest, c)
      | Some code \<Rightarrow> OnAdded e am code account (sd_Config (snd p)) (compositeId i (fst p)) c) (enumerate 0 ds) c = Some (Inr (), c')" for ds c'
    using parts_initialize [OF that(1), where f = "\<lambda>code d k. OnAdded e am code account (sd_Config d) (compositeId i k)"] that 1(1)
    by fastforce
  show ?case
  proof (intro impI)
    assume t: "templates am" "template auth" and "fst r = Inr ()"
    then obtain c' where r: "r = (Inr (), c')" by (cases r) simp
    show "\<exists>a. Initialize e am auth config = Some (Inr a)"
    proof (cases auth)
      case (AllOf subs a)
      then obtain ds where ds: "initDatas_checked e config = Inr ds" using 1(2) r by (auto split: sum.splits)
      obtain ys where "map_parts (\<lambda>d. case GetAuthenticatorByType am (sd_Type d) of
          None \<Rightarrow> Some (Inl (Panic NilPointer)) | Some code \<Rightarrow> Initialize e am code (sd_Config d)) ds = Some (Inr ys)" "length ys = length ds"
        using parts [OF t(1), of ds c'] 1(2) AllOf ds r by auto
      then show ?thesis using AllOf ds t(2) by (subst Initialize.simps) (simp add: with_parts_def)
    next
      case (AnyOf subs a)
      then obtain ds where ds: "initDatas_checked e config = Inr ds" using 1(2) r by (auto split: sum.splits)
      obtain ys where "map_parts (\<lambda>d. case GetAuthenticatorByType am (sd_Type d) of
          None \<Rightarrow> Some (Inl (Panic NilPointer)) | Some code \<Rightarrow> Initialize e am code (sd_Config d)) ds = Some (Inr ys)" "length ys = length ds"
        using parts [OF t(1), of ds c'] 1(2) AnyOf ds r by auto
      then show ?thesis using AnyOf ds t(2) by (subst Initialize.simps) (simp add: with_parts_def)
    qed (use 1(2) r in \<open>(subst Initialize.simps, auto simp: leaf_simps split: sum.splits if_splits)+\<close>)
  qed
qed

subsection \<open>Combinations are formulas\<close>

text \<open>
  The reference definition: an \<open>AllOf\<close> is the conjunction and an \<open>AnyOf\<close> the disjunction of its parts, each
  with its own signature if the signature is partitioned, over verdicts on the leaves.
\<close>

fun leaves :: "('s, 'g) Authenticator \<Rightarrow> ('s, 'g) Authenticator list" where
  "leaves (AllOf subs _) = concat (map leaves subs)"
| "leaves (AnyOf subs _) = concat (map leaves subs)"
| "leaves a = [a]"

lemma part_smaller: "p \<in> set (enumerate n subs) \<Longrightarrow> size (snd p) < Suc (size_list size subs)"
proof -
  assume "p \<in> set (enumerate n subs)"
  then have "snd p \<in> set subs" by (auto simp: in_set_enumerate_eq) (metis nth_mem add.commute less_diff_conv2)
  then show ?thesis by (simp add: less_Suc_eq_le size_list_estimation')
qed

function formula :: "('s, 'g) SaEnv \<Rightarrow> (('s, 'g) Authenticator \<Rightarrow> AuthenticationRequest \<Rightarrow> bool) \<Rightarrow>
    ('s, 'g) Authenticator \<Rightarrow> AuthenticationRequest \<Rightarrow> bool" where
  "formula e verdict (AllOf subs a) request = (subs \<noteq> [] \<and>
    (case partSignatures e a request (length subs) of
       Inl _ \<Rightarrow> False
     | Inr sigs \<Rightarrow> (\<forall>p \<in> set (enumerate 0 subs). formula e verdict (snd p) (partRequest a sigs (rq_AuthenticatorId request) (fst p) request))))"
| "formula e verdict (AnyOf subs a) request = (subs \<noteq> [] \<and>
    (case partSignatures e a request (length subs) of
       Inl _ \<Rightarrow> False
     | Inr sigs \<Rightarrow> (\<exists>p \<in> set (enumerate 0 subs). formula e verdict (snd p) (partRequest a sigs (rq_AuthenticatorId request) (fst p) request))))"
| "formula e verdict (SignatureVerification key) request = verdict (SignatureVerification key) request"
| "formula e verdict (MessageFilter p) request = verdict (MessageFilter p) request"
| "formula e verdict (CosmwasmAuthenticator k addr params) request = verdict (CosmwasmAuthenticator k addr params) request"
| "formula e verdict (ZkProofAuthenticatorV1 cfg v) request = verdict (ZkProofAuthenticatorV1 cfg v) request"
  by pat_completeness auto
termination
  by (relation "measure (\<lambda>(e, v, a, r). size a)") (auto dest: part_smaller)

definition agrees :: "sa_error + unit \<Rightarrow> bool \<Rightarrow> bool" where
  "agrees r b \<longleftrightarrow> (case r of Inr _ \<Rightarrow> b | Inl err \<Rightarrow> \<not> b \<and> \<not> is_panic err)"

lemma agrees_simps [simp]: "agrees (Inr x) b \<longleftrightarrow> b" "agrees (Inl err) b \<longleftrightarrow> \<not> b \<and> \<not> is_panic err"
  by (simp_all add: agrees_def)

lemma partSignatures_error: "partSignatures e a request n = Inl err \<Longrightarrow> \<not> is_panic err"
  by (auto simp: partSignatures_def splitSignatures_def split: if_splits sum.splits)

lemma on_sdk_recheck [frame_simps]: "on_sdk f c = (r, c') \<Longrightarrow> sx_IsReCheckTx c' = sx_IsReCheckTx c"
  by (auto simp: on_sdk_def split: prod.splits)

lemma ConsumeGas_recheck [frame_simps]: "ConsumeGas e n c = (r, c') \<Longrightarrow> sx_IsReCheckTx c' = sx_IsReCheckTx c"
  by (auto simp: ConsumeGas_def split: prod.splits)

lemma bindw_recheck:
  assumes "bindw m f = (r, c')" "\<And>r c. m = (r, c) \<Longrightarrow> sx_IsReCheckTx c = b" "\<And>x c c' r. sx_IsReCheckTx c = b \<Longrightarrow> f x c = (r, c') \<Longrightarrow> sx_IsReCheckTx c' = b"
  shows "sx_IsReCheckTx c' = b"
proof -
  obtain r0 c0 where "m = (r0, c0)" by (cases m)
  with assms show ?thesis by (cases r0) (auto simp: bindw_def)
qed

lemma contract_sudo_recheck [frame_simps]: "contract_sudo e k addr m err c = (r, c') \<Longrightarrow> sx_IsReCheckTx c' = sx_IsReCheckTx c"
  by (auto simp: contract_sudo_def frame_simps split: sum.splits if_splits)

lemma SignatureVerification_recheck [frame_simps]:
  "SignatureVerification_Authenticate e key request c = (r, c') \<Longrightarrow> sx_IsReCheckTx c' = sx_IsReCheckTx c"
  unfolding SignatureVerification_Authenticate_def
  by (erule bindw_recheck) (auto simp: frame_simps elim!: bindw_recheck split: if_splits option.splits)

lemma ZkProof_recheck [frame_simps]: "ZkProof_Authenticate e cfg v request c = (r, c') \<Longrightarrow> sx_IsReCheckTx c' = sx_IsReCheckTx c"
  unfolding ZkProof_Authenticate_def Let_def
  by (cases "ParseZkProofAuthPayload e (rq_Signature request)"; erule bindw_recheck)
     (auto simp: frame_simps pure_check_def split: if_splits option.splits prod.splits sum.splits)

lemma Authenticate_recheck:
  "sx_IsReCheckTx (snd (Authenticate e auth request c)) = sx_IsReCheckTx c"
  "sx_IsReCheckTx (snd (anyAuthenticate e subs a sigs base i request c)) = sx_IsReCheckTx c"
  "sx_IsReCheckTx (snd (allAuthenticate e subs a sigs base i request c)) = sx_IsReCheckTx c"
proof (induction e auth request c and e subs a sigs base i request c and e subs a sigs base i request c
    rule: Authenticate_anyAuthenticate_allAuthenticate.induct)
  case (1 e pubKey request c)
  then show ?case by (cases "SignatureVerification_Authenticate e pubKey request c") (simp add: frame_simps)
next
  case (3 e k addr params request c)
  then show ?case by (cases "Cosmwasm_Authenticate e k addr params request c") (simp add: Cosmwasm_Authenticate_def frame_simps)
next
  case (4 e config verifier request c)
  then show ?case by (cases "ZkProof_Authenticate e config verifier request c") (simp add: frame_simps)
qed (auto simp: pure_check_def split: sum.splits prod.splits)

definition steady :: "('s, 'g) SaEnv \<Rightarrow> bool \<Rightarrow> (('s, 'g) Authenticator \<Rightarrow> AuthenticationRequest \<Rightarrow> bool) \<Rightarrow> ('s, 'g) Authenticator \<Rightarrow> bool" where
  "steady e b verdict tree \<longleftrightarrow>
    (\<forall>a \<in> set (leaves tree). \<forall>request c. sx_IsReCheckTx c = b \<longrightarrow> agrees (fst (Authenticate e a request c)) (verdict a request))"

lemma steady_parts [simp]: "steady e b v (AllOf subs a) \<longleftrightarrow> (\<forall>s \<in> set subs. steady e b v s)" "steady e b v (AnyOf subs a) \<longleftrightarrow> (\<forall>s \<in> set subs. steady e b v s)"
  by (auto simp: steady_def)

lemma authenticate_formula:
  "steady e b v auth \<Longrightarrow> sx_IsReCheckTx c = b \<Longrightarrow> agrees (fst (Authenticate e auth request c)) (formula e v auth request)"
  "\<forall>s \<in> set subs. steady e b v s \<Longrightarrow> sx_IsReCheckTx c = b \<Longrightarrow> agrees (fst (anyAuthenticate e subs a sigs base i request c))
    (\<exists>p \<in> set (enumerate i subs). formula e v (snd p) (partRequest a sigs base (fst p) request))"
  "\<forall>s \<in> set subs. steady e b v s \<Longrightarrow> sx_IsReCheckTx c = b \<Longrightarrow> agrees (fst (allAuthenticate e subs a sigs base i request c))
    (\<forall>p \<in> set (enumerate i subs). formula e v (snd p) (partRequest a sigs base (fst p) request))"
proof (induction e auth request c and e subs a sigs base i request c and e subs a sigs base i request c
    rule: Authenticate_anyAuthenticate_allAuthenticate.induct)
  case (5 e subs a request c)
  then show ?case by (cases "partSignatures e a request (length subs)") (auto dest: partSignatures_error)
next
  case (6 e subs a request c)
  then show ?case by (cases "partSignatures e a request (length subs)") (auto dest: partSignatures_error)
next
  case (8 e auth subs a sigs base i request c)
  then show ?case
    using Authenticate_recheck(1) [of e auth "partRequest a sigs base i request" c]
    by (cases "Authenticate e auth (partRequest a sigs base i request) c"; cases "fst (Authenticate e auth (partRequest a sigs base i request) c)") auto
next
  case (10 e auth subs a sigs base i request c)
  then show ?case
    using Authenticate_recheck(1) [of e auth "partRequest a sigs base i request" c]
    by (cases "Authenticate e auth (partRequest a sigs base i request) c"; cases "fst (Authenticate e auth (partRequest a sigs base i request) c)") auto
qed (auto simp: steady_def)

text \<open>C16. Reading a configuration always ends: if the configurations of the parts are shorter than the one they
  are read from, as they are when they stand in it as strings, then initializing an authenticator and
  announcing its addition or removal return, however deep the combinations are nested.
\<close>

theorem configurations_return:
  assumes "\<And>config ds d. sa_initDatas e config = Inr ds \<Longrightarrow> d \<in> set ds \<Longrightarrow> length (sd_Config d) < length config"
  shows "(\<exists>r. Initialize e am auth config = Some r) \<and>
    (\<exists>r. OnAuthenticatorAdded e am auth account config i c = Some r) \<and>
    (\<exists>r. OnAuthenticatorRemoved e am auth account config i c = Some r)"
proof -
  have "parts_shorter e" using assms by (auto simp: parts_shorter_def)
  then show ?thesis using Initialize_returns OnAuthenticatorAdded_returns OnAuthenticatorRemoved_returns by fast
qed


subsection \<open>The manager\<close>

definition manager_inv :: "('s, 'g) AuthenticatorManager \<Rightarrow> bool" where
  "manager_inv am \<longleftrightarrow> sorted (am_orderedKeys am) \<and> distinct (am_orderedKeys am) \<and>
    set (am_orderedKeys am) = dom (map_of (am_registeredAuthenticators am)) \<and>
    (\<forall>t a. GetAuthenticatorByType am t = Some a \<longrightarrow> AuthType a = t)"

lemma manager_new: "manager_inv NewAuthenticatorManager" "manager_inv (ResetAuthenticators am)"
  by (simp_all add: manager_inv_def NewAuthenticatorManager_def ResetAuthenticators_def GetAuthenticatorByType_def)

lemma manager_register: "manager_inv am \<Longrightarrow> manager_inv (RegisterAuthenticator a am)"
  by (auto simp: manager_inv_def RegisterAuthenticator_def Let_def GetAuthenticatorByType_def update_conv'
      split: if_splits)

lemma manager_unregister: "manager_inv am \<Longrightarrow> manager_inv (UnregisterAuthenticator a am)"
  by (auto simp: manager_inv_def UnregisterAuthenticator_def GetAuthenticatorByType_def delete_conv' sorted_remove1 distinct_remove1
      set_remove1_eq split: if_splits)

lemma manager_lists_registered:
  "manager_inv am \<Longrightarrow> None \<notin> set (GetRegisteredAuthenticators am) \<and>
    (\<forall>t. IsAuthenticatorTypeRegistered am t \<longleftrightarrow> t \<in> set (am_orderedKeys am))"
  by (auto simp: manager_inv_def GetRegisteredAuthenticators_def IsAuthenticatorTypeRegistered_def dest: sym)

lemma app_manager_eq: "app_manager =
  \<lparr>am_registeredAuthenticators =
     [(''SignatureVerification'', SignatureVerification None), (''MessageFilter'', MessageFilter []), (''AllOf'', AllOf [] Single),
      (''AnyOf'', AnyOf [] Single), (''PartitionedAnyOf'', AnyOf [] Partitioned), (''PartitionedAllOf'', AllOf [] Partitioned),
      (''CosmwasmAuthenticatorV1'', CosmwasmAuthenticator False [] [])],
   am_orderedKeys = [''AllOf'', ''AnyOf'', ''CosmwasmAuthenticatorV1'', ''MessageFilter'', ''PartitionedAllOf'', ''PartitionedAnyOf'',
     ''SignatureVerification'']\<rparr>"
  by (simp add: app_manager_def Let_def RegisterAuthenticator_def InitializeAuthenticators_def NewAuthenticatorManager_def
      NewSignatureVerification_def NewMessageFilter_def NewAllOf_def NewAnyOf_def NewPartitionedAnyOf_def
      NewPartitionedAllOf_def NewCosmwasmAuthenticator_def SignatureVerificationType_def)

lemma app_manager_inv: "manager_inv app_manager"
  by (auto simp: app_manager_eq manager_inv_def GetAuthenticatorByType_def SignatureVerificationType_def split: if_splits)

lemma app_manager_templates: "templates app_manager"
  by (auto simp: templates_def app_manager_eq GetAuthenticatorByType_def SignatureVerificationType_def split: if_splits)

subsection \<open>A concrete case\<close>

text \<open>
  A state that is an association list, a meter with a limit, keys that sign with themselves, no
  contracts, and one configuration of a combination of two keys.
\<close>

definition key_of :: "byte \<Rightarrow> bytes" where
  "key_of b = replicate 33 b"

definition pair_config :: bytes where
  "pair_config = replicate 34 0"

definition pair_parts :: "SubAuthenticatorInitData list" where
  "pair_parts = [\<lparr>sd_Type = ''SignatureVerification'', sd_Config = key_of 1\<rparr>, \<lparr>sd_Type = ''SignatureVerification'', sd_Config = key_of 2\<rparr>]"

definition sample_auth :: "((bytes, bytes) alist, nat \<times> nat) SaEnv" where
  "sample_auth = \<lparr>
     sa_ConsumeGas = (\<lambda>n (limit, used). (if used + unat n > limit then Inl (Panic OutOfGas) else Inr (), (limit, used + unat n))),
     sa_SigVerifyCostSecp256k1 = (\<lambda>w. (Inr 10, w)),
     sa_VerifySignature = (\<lambda>key msg sig. sig = key @ msg),
     sa_Sudo = (\<lambda>addr bz w. (Inl (SdkError ''no contract''), w)),
     sa_sudoJson = (\<lambda>m. Inr []),
     sa_initDatas = (\<lambda>config. if config = pair_config then Inr pair_parts else Inl (SdkError ''json'')),
     sa_signatures = (\<lambda>sig. if length sig = 68 then Inr [take 34 sig, drop 34 sig] else Inl (SdkError ''json'')),
     sa_cwInitData = (\<lambda>config. Inl (SdkError ''json'')),
     sa_zkConfig = (\<lambda>config. Inl (SdkError ''json'')),
     sa_zkPayload = (\<lambda>config. Inl (SdkError ''json'')),
     sa_RawMessage = (\<lambda>config. Inl (SdkError ''json'')),
     sa_jsonObject = (\<lambda>config. Inl (SdkError ''json'')),
     sa_json = (\<lambda>config. Inl (SdkError ''json'')),
     sa_LegacyNewDecFromStr = (\<lambda>s. None),
     sa_Resolve = (\<lambda>url. Inl (SdkError ''unknown'')),
     sa_UnmarshalMsg = (\<lambda>url v. Inl (SdkError ''unknown'')),
     sa_MarshalInterfaceJSON = (\<lambda>m. Inl (SdkError ''unknown'')),
     sa_AccAddressFromBech32 = (\<lambda>s. if s = [] then Inl (SdkError ''empty address'') else Inr (str s)),
     sa_GlobalPathAVerifier = None\<rparr>"

lemma sample_auth_simps [simp]:
  "sa_ConsumeGas sample_auth = (\<lambda>n (limit, used). (if used + unat n > limit then Inl (Panic OutOfGas) else Inr (), (limit, used + unat n)))"
  "sa_SigVerifyCostSecp256k1 sample_auth = (\<lambda>w. (Inr 10, w))"
  "sa_VerifySignature sample_auth = (\<lambda>key msg sig. sig = key @ msg)"
  "sa_Sudo sample_auth = (\<lambda>addr bz w. (Inl (SdkError ''no contract''), w))"
  "sa_sudoJson sample_auth = (\<lambda>m. Inr [])"
  "sa_initDatas sample_auth = (\<lambda>config. if config = pair_config then Inr pair_parts else Inl (SdkError ''json''))"
  "sa_signatures sample_auth = (\<lambda>sig. if length sig = 68 then Inr [take 34 sig, drop 34 sig] else Inl (SdkError ''json''))"
  "sa_cwInitData sample_auth = (\<lambda>config. Inl (SdkError ''json''))"
  "sa_zkConfig sample_auth = (\<lambda>config. Inl (SdkError ''json''))"
  "sa_zkPayload sample_auth = (\<lambda>config. Inl (SdkError ''json''))"
  "sa_RawMessage sample_auth = (\<lambda>config. Inl (SdkError ''json''))"
  "sa_jsonObject sample_auth = (\<lambda>config. Inl (SdkError ''json''))"
  "sa_json sample_auth = (\<lambda>config. Inl (SdkError ''json''))"
  "sa_LegacyNewDecFromStr sample_auth = (\<lambda>s. None)"
  "sa_Resolve sample_auth = (\<lambda>url. Inl (SdkError ''unknown''))"
  "sa_UnmarshalMsg sample_auth = (\<lambda>url v. Inl (SdkError ''unknown''))"
  "sa_MarshalInterfaceJSON sample_auth = (\<lambda>m. Inl (SdkError ''unknown''))"
  "sa_AccAddressFromBech32 sample_auth = (\<lambda>s. if s = [] then Inl (SdkError ''empty address'') else Inr (str s))"
  "sa_GlobalPathAVerifier sample_auth = None"
  by (simp_all add: sample_auth_def)

lemma sample_parts_shorter: "sa_initDatas sample_auth config = Inr ds \<Longrightarrow> d \<in> set ds \<Longrightarrow> length (sd_Config d) < length config"
  by (auto simp: pair_config_def pair_parts_def key_of_def split: if_splits)

definition calm :: "((bytes, bytes) alist, nat \<times> nat) sctx" where
  "calm = \<lparr>sx_state = DAList.empty, sx_gas = (100, 0), sx_IsCheckTx = False, sx_IsReCheckTx = False, sx_BlockHeight = 5, sx_ChainID = ''terp''\<rparr>"

theorem configurations_return_witness:
  "\<exists>r. OnAuthenticatorAdded sample_auth app_manager NewAnyOf (str ''alice'') pair_config ''1'' calm = Some r"
  using conjunct1 [OF conjunct2 [OF configurations_return [of sample_auth]]] sample_parts_shorter by blast

definition pair_tree :: "((bytes, bytes) alist, nat \<times> nat) Authenticator" where
  "pair_tree = AllOf [SignatureVerification (Some (key_of 1)), SignatureVerification (Some (key_of 2))] Partitioned"

definition free_auth :: "((bytes, bytes) alist, nat \<times> nat) SaEnv" where
  "free_auth = sample_auth\<lparr>sa_ConsumeGas := \<lambda>n g. (Inr (), g)\<rparr>"

definition signed_by :: "byte list \<Rightarrow> AuthenticationRequest" where
  "signed_by ks = \<lparr>rq_AuthenticatorId = ''1'', rq_Account = str ''alice'', rq_FeePayer = str ''alice'', rq_FeeGranter = [], rq_Fee = [],
     rq_Msg = \<lparr>la_TypeURL = ''send'', la_Value = []\<rparr>, rq_MsgIndex = 0, rq_Signature = concat (map (\<lambda>k. key_of k @ [7]) ks),
     rq_SignModeTxData = \<lparr>smd_Direct = [7], smd_Textual = []\<rparr>,
     rq_TxData = \<lparr>etx_ChainID = [], etx_AccountNumber = 0, etx_AccountSequence = 0, etx_TimeoutHeight = 0, etx_Msgs = [], etx_Memo = []\<rparr>,
     rq_SignatureData = \<lparr>ssd_Signers = [], ssd_Signatures = []\<rparr>, rq_Simulate = False, rq_AuthenticatorParams = []\<rparr>"

definition key_verdict :: "((bytes, bytes) alist, nat \<times> nat) Authenticator \<Rightarrow> AuthenticationRequest \<Rightarrow> bool" where
  "key_verdict a request = (rq_Simulate request \<or>
    (case a of SignatureVerification (Some key) \<Rightarrow> rq_Signature request = key @ smd_Direct (rq_SignModeTxData request) | _ \<Rightarrow> False))"


end
