(* ===== verification/Smart_Keeper.thy ===== *)
theory Smart_Keeper
  imports Smart_Combine
begin

text \<open>
  The keeper of \<open>x/smart-account\<close>: store keys (\<open>types/keys.go\<close>), parameters, the authenticators of an
  account, the messages, genesis and queries (\<open>keeper/*.go\<close>, \<open>genesis.go\<close>).  The store of the module and the
  parameter subspace are fields of \<open>SkEnv\<close>; every access to the store may charge gas, and so may panic.
\<close>

subsection \<open>Types\<close>

record AccountAuthenticator =
  aa_Id :: u64
  aa_Type :: string
  aa_Config :: bytes

record SaParams =
  sp_MaximumUnauthenticatedGas :: u64
  sp_IsSmartAccountActive :: bool
  sp_CircuitBreakerControllers :: "string list"

record AuthenticatorData =
  ad_Address :: string
  ad_Authenticators :: "AccountAuthenticator list"

record sa_genesis =
  sg_Params :: SaParams
  sg_NextAuthenticatorId :: u64
  sg_AuthenticatorData :: "AuthenticatorData list"

record MsgAddAuthenticator =
  ma_Sender :: string
  ma_AuthenticatorType :: string
  ma_Data :: bytes

record MsgRemoveAuthenticator =
  mr_Sender :: string
  mr_Id :: u64

record MsgSetActiveState =
  ms_Sender :: string
  ms_Active :: bool

record ('s, 'g) saKeeper =
  sk_CircuitBreakerGovernor :: bytes
  sk_isSmartAccountActiveBz :: bytes
  sk_isSmartAccountActiveVal :: bool
  sk_AuthenticatorManager :: "('s, 'g) AuthenticatorManager"

record ('s, 'g) InitializedAuthenticator =
  ia_Id :: u64
  ia_Authenticator :: "('s, 'g) Authenticator"

datatype kv_access = KvGet bytes | KvSet bytes bytes | KvDelete bytes | KvIterate bytes

record ('s, 'g) SkEnv =
  sk_auth :: "('s, 'g) SaEnv"
  sk_Get :: "'s \<Rightarrow> bytes \<Rightarrow> bytes option"
  sk_Set :: "bytes \<Rightarrow> bytes \<Rightarrow> 's \<Rightarrow> 's"
  sk_Delete :: "bytes \<Rightarrow> 's \<Rightarrow> 's"
  sk_Iter :: "bytes \<Rightarrow> 's \<Rightarrow> (bytes \<times> bytes) list"
  sk_charge :: "kv_access \<Rightarrow> 's \<Rightarrow> 'g \<Rightarrow> (sa_error + unit) \<times> 'g"
  sk_record :: "(sa_error, AccountAuthenticator) codec"
  sk_uint :: "(sa_error, u64) codec"
  sk_AddrString :: "bytes \<Rightarrow> string"
  sk_GetParamSet :: "('s, 'g, SaParams) sdk_call"
  sk_SetParamSet :: "SaParams \<Rightarrow> ('s, 'g, unit) sdk_call"
  sk_GetRaw :: "bytes \<Rightarrow> ('s, 'g, bytes) sdk_call"
  sk_jsonBool :: "bytes \<Rightarrow> sa_error + bool"
  sk_UnpackAny :: "bytes \<Rightarrow> sa_error + u64 list option"

text \<open>An access to the store of the module.\<close>

definition access :: "('s, 'g) SkEnv \<Rightarrow> kv_access \<Rightarrow> ('s, 'g) sctx \<Rightarrow> ('s, 'g, unit) sa_result" where
  "access e op c = (case sk_charge e op (sx_state c) (sx_gas c) of (r, g) \<Rightarrow> (r, c\<lparr>sx_gas := g\<rparr>))"

definition store_Get :: "('s, 'g) SkEnv \<Rightarrow> bytes \<Rightarrow> ('s, 'g) sctx \<Rightarrow> ('s, 'g, bytes option) sa_result" where
  "store_Get e key c = bindw (access e (KvGet key) c) (\<lambda>_ c. (Inr (sk_Get e (sx_state c) key), c))"

definition store_Set :: "('s, 'g) SkEnv \<Rightarrow> bytes \<Rightarrow> bytes \<Rightarrow> ('s, 'g) sctx \<Rightarrow> ('s, 'g, unit) sa_result" where
  "store_Set e key bz c = bindw (access e (KvSet key bz) c) (\<lambda>_ c. (Inr (), c\<lparr>sx_state := sk_Set e key bz (sx_state c)\<rparr>))"

definition store_Delete :: "('s, 'g) SkEnv \<Rightarrow> bytes \<Rightarrow> ('s, 'g) sctx \<Rightarrow> ('s, 'g, unit) sa_result" where
  "store_Delete e key c = bindw (access e (KvDelete key) c) (\<lambda>_ c. (Inr (), c\<lparr>sx_state := sk_Delete e key (sx_state c)\<rparr>))"

definition store_Iterate :: "('s, 'g) SkEnv \<Rightarrow> bytes \<Rightarrow> ('s, 'g) sctx \<Rightarrow> ('s, 'g, (bytes \<times> bytes) list) sa_result" where
  "store_Iterate e pre c = bindw (access e (KvIterate pre) c) (\<lambda>_ c. (Inr (sk_Iter e pre (sx_state c)), c))"

subsection \<open>Keys\<close>

text \<open>\<open>fmt.Sprint\<close> writes the one-byte prefixes as \<open>[1]\<close> and \<open>[2]\<close>.\<close>

definition KeyNextAccountAuthenticatorIdPrefix :: string where "KeyNextAccountAuthenticatorIdPrefix = ''[1]''"
definition KeyAccountAuthenticatorsPrefix :: string where "KeyAccountAuthenticatorsPrefix = ''[2]''"
definition KeyIsSmartAccountActive :: bytes where "KeyIsSmartAccountActive = str ''IsSmartAccountActive''"

definition BuildKey :: "string list \<Rightarrow> bytes" where
  "BuildKey elements = str (Join (CHR ''|'') elements @ ''|'')"

definition KeyAccount :: "('s, 'g) SkEnv \<Rightarrow> bytes \<Rightarrow> bytes" where
  "KeyAccount e account = BuildKey [KeyAccountAuthenticatorsPrefix, sk_AddrString e account]"

definition KeyAccountId :: "('s, 'g) SkEnv \<Rightarrow> bytes \<Rightarrow> u64 \<Rightarrow> bytes" where
  "KeyAccountId e account i = BuildKey [KeyAccountAuthenticatorsPrefix, sk_AddrString e account, Itoa (unat i)]"

definition KeyNextAccountAuthenticatorId :: bytes where
  "KeyNextAccountAuthenticatorId = BuildKey [KeyNextAccountAuthenticatorIdPrefix]"

definition KeyAccountAuthenticatorsPrefixId :: bytes where
  "KeyAccountAuthenticatorsPrefixId = BuildKey [KeyAccountAuthenticatorsPrefix]"

definition MustSet :: "('s, 'g) SkEnv \<Rightarrow> bytes \<Rightarrow> sa_error + bytes \<Rightarrow> ('s, 'g) sctx \<Rightarrow> ('s, 'g, unit) sa_result" where
  "MustSet e key marshalled c =
    (case marshalled of Inl _ \<Rightarrow> (Inl (Panic (OtherPanic ''marshal'')), c) | Inr bz \<Rightarrow> store_Set e key bz c)"

definition types_Get :: "('s, 'g) SkEnv \<Rightarrow> (sa_error, 'a) codec \<Rightarrow> bytes \<Rightarrow> ('s, 'g) sctx \<Rightarrow> ('s, 'g, 'a option) sa_result" where
  "types_Get e cd key c =
    bindw (store_Get e key c) (\<lambda>b c. case b of
      None \<Rightarrow> (Inr None, c)
    | Some bz \<Rightarrow> (case cd_Unmarshal cd bz of Inl err \<Rightarrow> (Inl err, c) | Inr v \<Rightarrow> (Inr (Some v), c)))"

fun gatherValues :: "(bytes \<Rightarrow> sa_error + 'a) \<Rightarrow> (bytes \<times> bytes) list \<Rightarrow> sa_error + 'a list" where
  "gatherValues parse [] = Inr []"
| "gatherValues parse ((key, val) # rest) =
    (case parse val of
       Inl err \<Rightarrow> Inl err
     | Inr v \<Rightarrow> (case gatherValues parse rest of Inl err \<Rightarrow> Inl err | Inr values \<Rightarrow> Inr (v # values)))"

definition GatherValuesFromStorePrefix ::
  "('s, 'g) SkEnv \<Rightarrow> bytes \<Rightarrow> (bytes \<Rightarrow> sa_error + 'a) \<Rightarrow> ('s, 'g) sctx \<Rightarrow> ('s, 'g, 'a list) sa_result" where
  "GatherValuesFromStorePrefix e pre parse c =
    bindw (store_Iterate e pre c) (\<lambda>entries c. (gatherValues parse entries, c))"

subsection \<open>Parameters\<close>

definition NewParams :: SaParams where
  "NewParams = \<lparr>sp_MaximumUnauthenticatedGas = 120000, sp_IsSmartAccountActive = True, sp_CircuitBreakerControllers = []\<rparr>"

definition validateCircuitBreakerControllers :: "('s, 'g) SkEnv \<Rightarrow> string list \<Rightarrow> sa_error + unit" where
  "validateCircuitBreakerControllers e controllers =
    (if \<exists>addr \<in> set controllers. isl (sa_AccAddressFromBech32 (sk_auth e) addr) then Inl (SaErrorf ''invalid address'') else Inr ())"

definition Params_Validate_sa :: "('s, 'g) SkEnv \<Rightarrow> SaParams \<Rightarrow> sa_error + unit" where
  "Params_Validate_sa e p = validateCircuitBreakerControllers e (sp_CircuitBreakerControllers p)"

definition GetParams_sa :: "('s, 'g) SkEnv \<Rightarrow> ('s, 'g) sctx \<Rightarrow> ('s, 'g, SaParams) sa_result" where
  "GetParams_sa e c = on_sdk (sk_GetParamSet e) c"

definition SetParams_sa :: "('s, 'g) SkEnv \<Rightarrow> SaParams \<Rightarrow> ('s, 'g) sctx \<Rightarrow> ('s, 'g, unit) sa_result" where
  "SetParams_sa e params c = on_sdk (sk_SetParamSet e params) c"

text \<open>The keeper remembers the last bytes it read and their value.\<close>

definition GetIsSmartAccountActive ::
  "('s, 'g) SkEnv \<Rightarrow> ('s, 'g) saKeeper \<Rightarrow> ('s, 'g) sctx \<Rightarrow> ('s, 'g, bool \<times> ('s, 'g) saKeeper) sa_result" where
  "GetIsSmartAccountActive e k c =
    bindw (on_sdk (sk_GetRaw e KeyIsSmartAccountActive) c) (\<lambda>bz c.
    if bz \<noteq> sk_isSmartAccountActiveBz k
    then let v = (case sk_jsonBool e bz of Inl _ \<Rightarrow> False | Inr v \<Rightarrow> v);
             k = k\<lparr>sk_isSmartAccountActiveVal := v, sk_isSmartAccountActiveBz := bz\<rparr>
         in (Inr (v, k), c)
    else (Inr (sk_isSmartAccountActiveVal k, k), c))"

definition NewKeeper_sa :: "bytes \<Rightarrow> ('s, 'g) AuthenticatorManager \<Rightarrow> ('s, 'g) saKeeper" where
  "NewKeeper_sa govModuleAddr am =
    \<lparr>sk_CircuitBreakerGovernor = govModuleAddr, sk_isSmartAccountActiveBz = [], sk_isSmartAccountActiveVal = False,
     sk_AuthenticatorManager = am\<rparr>"

subsection \<open>The authenticators of an account\<close>

definition unmarshalAccountAuthenticator :: "('s, 'g) SkEnv \<Rightarrow> bytes \<Rightarrow> sa_error + AccountAuthenticator" where
  "unmarshalAccountAuthenticator e bz = cd_Unmarshal (sk_record e) bz"

definition GetAuthenticatorDataForAccount ::
  "('s, 'g) SkEnv \<Rightarrow> bytes \<Rightarrow> ('s, 'g) sctx \<Rightarrow> ('s, 'g, AccountAuthenticator list) sa_result" where
  "GetAuthenticatorDataForAccount e account c =
    GatherValuesFromStorePrefix e (KeyAccount e account) (unmarshalAccountAuthenticator e) c"

definition GetSelectedAuthenticatorData ::
  "('s, 'g) SkEnv \<Rightarrow> bytes \<Rightarrow> u64 \<Rightarrow> ('s, 'g) sctx \<Rightarrow> ('s, 'g, AccountAuthenticator) sa_result" where
  "GetSelectedAuthenticatorData e account selected c =
    bindw (store_Get e (KeyAccountId e account selected) c) (\<lambda>bz c. case bz of
      None \<Rightarrow> (Inl ErrInvalidRequest, c)
    | Some bz \<Rightarrow> (unmarshalAccountAuthenticator e bz, c))"

text \<open>\<open>None\<close>: reading the configuration does not return.\<close>

definition GetInitializedAuthenticatorForAccount ::
  "('s, 'g) SkEnv \<Rightarrow> ('s, 'g) saKeeper \<Rightarrow> bytes \<Rightarrow> u64 \<Rightarrow> ('s, 'g) sctx \<Rightarrow>
   ('s, 'g, ('s, 'g) InitializedAuthenticator) sa_result option" where
  "GetInitializedAuthenticatorForAccount e k account selected c =
    (case GetSelectedAuthenticatorData e account selected c of
       (Inl err, c) \<Rightarrow> Some (Inl err, c)
     | (Inr aa, c) \<Rightarrow>
         (case GetAuthenticatorByType (sk_AuthenticatorManager k) (aa_Type aa) of
            None \<Rightarrow> Some (Inl ErrLogic, c)
          | Some code \<Rightarrow>
              Option.bind (Initialize (sk_auth e) (sk_AuthenticatorManager k) code (aa_Config aa)) (\<lambda>r.
              Some (case r of
                 Inl err \<Rightarrow> (Inl err, c)
               | Inr a \<Rightarrow> (Inr \<lparr>ia_Id = aa_Id aa, ia_Authenticator = a\<rparr>, c)))))"

definition FirstAuthenticatorId :: u64 where "FirstAuthenticatorId = 1"

definition SetNextAuthenticatorId :: "('s, 'g) SkEnv \<Rightarrow> u64 \<Rightarrow> ('s, 'g) sctx \<Rightarrow> ('s, 'g, unit) sa_result" where
  "SetNextAuthenticatorId e i c = MustSet e KeyNextAccountAuthenticatorId (cd_Marshal (sk_uint e) i) c"

definition InitializeOrGetNextAuthenticatorId :: "('s, 'g) SkEnv \<Rightarrow> ('s, 'g) sctx \<Rightarrow> ('s, 'g, u64) sa_result" where
  "InitializeOrGetNextAuthenticatorId e c =
    (case types_Get e (sk_uint e) KeyNextAccountAuthenticatorId c of
       (Inl err, c) \<Rightarrow> (Inl (if is_panic err then err else Panic (OtherPanic ''next authenticator id'')), c)
     | (Inr None, c) \<Rightarrow> bindw (SetNextAuthenticatorId e FirstAuthenticatorId c) (\<lambda>_ c. (Inr FirstAuthenticatorId, c))
     | (Inr (Some i), c) \<Rightarrow> (Inr i, c))"

definition AddAuthenticator ::
  "('s, 'g) SkEnv \<Rightarrow> ('s, 'g) saKeeper \<Rightarrow> bytes \<Rightarrow> string \<Rightarrow> bytes \<Rightarrow> ('s, 'g) sctx \<Rightarrow> ('s, 'g, u64) sa_result option" where
  "AddAuthenticator e k account authenticatorType config c =
    (case GetAuthenticatorByType (sk_AuthenticatorManager k) authenticatorType of
       None \<Rightarrow> Some (Inl (SaErrorf ''authenticator type is not registered''), c)
     | Some impl \<Rightarrow>
         (case InitializeOrGetNextAuthenticatorId e c of
            (Inl err, c) \<Rightarrow> Some (Inl err, c)
          | (Inr i, c) \<Rightarrow>
              Option.bind (OnAuthenticatorAdded (sk_auth e) (sk_AuthenticatorManager k) impl account config (Itoa (unat i)) c) (\<lambda>r.
              Some (bindw r (\<lambda>_ c.
                bindw (SetNextAuthenticatorId e (i + 1) c) (\<lambda>_ c.
                bindw (MustSet e (KeyAccountId e account i)
                  (cd_Marshal (sk_record e) \<lparr>aa_Id = i, aa_Type = authenticatorType, aa_Config = config\<rparr>) c) (\<lambda>_ c.
                (Inr i, c))))))))"

definition RemoveAuthenticator ::
  "('s, 'g) SkEnv \<Rightarrow> ('s, 'g) saKeeper \<Rightarrow> bytes \<Rightarrow> u64 \<Rightarrow> ('s, 'g) sctx \<Rightarrow> ('s, 'g, unit) sa_result option" where
  "RemoveAuthenticator e k account authenticatorId c =
    (let key = KeyAccountId e account authenticatorId
     in (case types_Get e (sk_record e) key c of
           (Inl err, c) \<Rightarrow> Some (Inl err, c)
         | (Inr None, c) \<Rightarrow> Some (Inl (SaErrorf ''authenticator does not exist for account''), c)
         | (Inr (Some existing), c) \<Rightarrow>
             (case GetAuthenticatorByType (sk_AuthenticatorManager k) (aa_Type existing) of
                None \<Rightarrow> Some (Inl (SaErrorf ''authenticator type is not registered''), c)
              | Some impl \<Rightarrow>
                  Option.bind (OnAuthenticatorRemoved (sk_auth e) (sk_AuthenticatorManager k) impl account (aa_Config existing)
                    (Itoa (unat authenticatorId)) c) (\<lambda>r. Some (bindw r (\<lambda>_ c. store_Delete e key c))))))"

text \<open>The options a transaction selects, or the nil interface: \<open>None\<close>.\<close>

fun GetAuthenticatorExtension :: "('s, 'g) SkEnv \<Rightarrow> bytes list \<Rightarrow> u64 list option" where
  "GetAuthenticatorExtension e [] = None"
| "GetAuthenticatorExtension e (ext # exts) =
    (case sk_UnpackAny e ext of Inr authExtension \<Rightarrow> authExtension | Inl _ \<Rightarrow> GetAuthenticatorExtension e exts)"

definition SetActiveState_keeper :: "('s, 'g) SkEnv \<Rightarrow> bool \<Rightarrow> ('s, 'g) sctx \<Rightarrow> ('s, 'g, unit) sa_result" where
  "SetActiveState_keeper e active c =
    bindw (GetParams_sa e c) (\<lambda>params c. SetParams_sa e (params\<lparr>sp_IsSmartAccountActive := active\<rparr>) c)"

subsection \<open>Messages\<close>

definition validateSender :: "('s, 'g) SkEnv \<Rightarrow> string \<Rightarrow> sa_error + unit" where
  "validateSender e sender =
    (case sa_AccAddressFromBech32 (sk_auth e) sender of Inl _ \<Rightarrow> Inl (SaErrorf ''invalid sender address'') | Inr _ \<Rightarrow> Inr ())"

definition getSender :: "('s, 'g) SkEnv \<Rightarrow> string \<Rightarrow> sa_error + bytes list" where
  "getSender e sender =
    (case sa_AccAddressFromBech32 (sk_auth e) sender of Inl _ \<Rightarrow> Inl (Panic (OtherPanic ''sender'')) | Inr addr \<Rightarrow> Inr [addr])"

definition MsgAddAuthenticator_ValidateBasic :: "('s, 'g) SkEnv \<Rightarrow> MsgAddAuthenticator \<Rightarrow> sa_error + unit" where
  "MsgAddAuthenticator_ValidateBasic e msg = validateSender e (ma_Sender msg)"

definition MsgRemoveAuthenticator_ValidateBasic :: "('s, 'g) SkEnv \<Rightarrow> MsgRemoveAuthenticator \<Rightarrow> sa_error + unit" where
  "MsgRemoveAuthenticator_ValidateBasic e msg = validateSender e (mr_Sender msg)"

definition MsgSetActiveState_ValidateBasic :: "('s, 'g) SkEnv \<Rightarrow> MsgSetActiveState \<Rightarrow> sa_error + unit" where
  "MsgSetActiveState_ValidateBasic e msg = validateSender e (ms_Sender msg)"

text \<open>The server holds a copy of the keeper: what the keeper remembers in it is lost after the call.\<close>

definition msgServer_AddAuthenticator ::
  "('s, 'g) SkEnv \<Rightarrow> ('s, 'g) saKeeper \<Rightarrow> MsgAddAuthenticator \<Rightarrow> ('s, 'g) sctx \<Rightarrow> ('s, 'g, bool) sa_result option" where
  "msgServer_AddAuthenticator e m msg c =
    (case GetIsSmartAccountActive e m c of
       (Inl err, c) \<Rightarrow> Some (Inl err, c)
     | (Inr (active, m), c) \<Rightarrow>
         if \<not> active then Some (Inl ErrUnauthorized_sa, c)
         else (case sa_AccAddressFromBech32 (sk_auth e) (ma_Sender msg) of
             Inl err \<Rightarrow> Some (Inl err, c)
           | Inr sender \<Rightarrow>
               Option.bind (AddAuthenticator e m sender (ma_AuthenticatorType msg) (ma_Data msg) c) (\<lambda>r.
               Some (bindw r (\<lambda>_ c. (Inr True, c))))))"

definition msgServer_RemoveAuthenticator ::
  "('s, 'g) SkEnv \<Rightarrow> ('s, 'g) saKeeper \<Rightarrow> MsgRemoveAuthenticator \<Rightarrow> ('s, 'g) sctx \<Rightarrow> ('s, 'g, bool) sa_result option" where
  "msgServer_RemoveAuthenticator e m msg c =
    (case GetIsSmartAccountActive e m c of
       (Inl err, c) \<Rightarrow> Some (Inl err, c)
     | (Inr (active, m), c) \<Rightarrow>
         if \<not> active then Some (Inl ErrUnauthorized_sa, c)
         else (case sa_AccAddressFromBech32 (sk_auth e) (mr_Sender msg) of
             Inl err \<Rightarrow> Some (Inl err, c)
           | Inr sender \<Rightarrow>
               Option.bind (RemoveAuthenticator e m sender (mr_Id msg) c) (\<lambda>r. Some (bindw r (\<lambda>_ c. (Inr True, c))))))"

definition msgServer_SetActiveState ::
  "('s, 'g) SkEnv \<Rightarrow> ('s, 'g) saKeeper \<Rightarrow> MsgSetActiveState \<Rightarrow> ('s, 'g) sctx \<Rightarrow> ('s, 'g, unit) sa_result" where
  "msgServer_SetActiveState e m msg c =
    bindw (pure_check (getSender e (ms_Sender msg)) c) (\<lambda>signers c.
    let signer = hd signers
    in bindw
         (if ms_Active msg
          then (if signer \<noteq> sk_CircuitBreakerGovernor m then (Inl ErrUnauthorized_sa, c) else (Inr (), c))
          else bindw (GetParams_sa e c) (\<lambda>params c.
            if sk_AddrString e signer \<in> set (sp_CircuitBreakerControllers params) then (Inr (), c) else (Inl ErrUnauthorized_sa, c)))
         (\<lambda>_ c. SetActiveState_keeper e (ms_Active msg) c))"

subsection \<open>Genesis and queries\<close>

definition addData :: "string \<Rightarrow> AccountAuthenticator \<Rightarrow> AuthenticatorData list \<Rightarrow> AuthenticatorData list" where
  "addData accountAddr aa accs =
    (if accs = [] \<or> ad_Address (last accs) \<noteq> accountAddr
     then accs @ [\<lparr>ad_Address = accountAddr, ad_Authenticators = [aa]\<rparr>]
     else butlast accs @ [(last accs)\<lparr>ad_Authenticators := ad_Authenticators (last accs) @ [aa]\<rparr>])"

fun parseData ::
  "('s, 'g) SkEnv \<Rightarrow> AuthenticatorData list \<Rightarrow> (bytes \<times> bytes) list \<Rightarrow> sa_error + AuthenticatorData list" where
  "parseData e accs [] = Inr accs"
| "parseData e accs ((key, val) # rest) =
    (case cd_Unmarshal (sk_record e) val of
       Inl err \<Rightarrow> Inl err
     | Inr aa \<Rightarrow> (case Split (CHR ''|'') (unstr key) of
         _ # accountAddr # _ \<Rightarrow> parseData e (addData accountAddr aa accs) rest
       | _ \<Rightarrow> Inl (Panic (OtherPanic ''index out of range''))))"

definition GetAllAuthenticatorData :: "('s, 'g) SkEnv \<Rightarrow> ('s, 'g) sctx \<Rightarrow> ('s, 'g, AuthenticatorData list) sa_result" where
  "GetAllAuthenticatorData e c =
    bindw (store_Iterate e KeyAccountAuthenticatorsPrefixId c) (\<lambda>entries c. (parseData e [] entries, c))"

text \<open>The announcement runs on a cached state that is thrown away; its gas is used.\<close>

definition AddAuthenticatorWithId ::
  "('s, 'g) SkEnv \<Rightarrow> ('s, 'g) saKeeper \<Rightarrow> bytes \<Rightarrow> string \<Rightarrow> bytes \<Rightarrow> u64 \<Rightarrow> ('s, 'g) sctx \<Rightarrow> ('s, 'g, unit) sa_result option" where
  "AddAuthenticatorWithId e k account authenticatorType config i c =
    (case GetAuthenticatorByType (sk_AuthenticatorManager k) authenticatorType of
       None \<Rightarrow> Some (Inl (SaErrorf ''authenticator type is not registered''), c)
     | Some impl \<Rightarrow>
         Option.bind (OnAuthenticatorAdded (sk_auth e) (sk_AuthenticatorManager k) impl account config (Itoa (unat i)) c) (\<lambda>(r, cacheCtx).
         let c = c\<lparr>sx_gas := sx_gas cacheCtx\<rparr>
         in Some (case r of
              Inl err \<Rightarrow> (Inl err, c)
            | Inr _ \<Rightarrow> MustSet e (KeyAccountId e account i)
                (cd_Marshal (sk_record e) \<lparr>aa_Id = i, aa_Type = authenticatorType, aa_Config = config\<rparr>) c)))"

definition panic_of :: "sa_error \<Rightarrow> sa_error" where
  "panic_of err = (if is_panic err then err else Panic (OtherPanic ''genesis''))"

definition initAuthenticators ::
  "('s, 'g) SkEnv \<Rightarrow> ('s, 'g) saKeeper \<Rightarrow> AuthenticatorData \<Rightarrow> ('s, 'g) sctx \<Rightarrow> ('s, 'g, unit) sa_result option" where
  "initAuthenticators e k d c =
    (case sa_AccAddressFromBech32 (sk_auth e) (ad_Address d) of
       Inl err \<Rightarrow> Some (Inl (panic_of err), c)
     | Inr accAddr \<Rightarrow>
         each_part (\<lambda>aa c. Option.bind (AddAuthenticatorWithId e k accAddr (aa_Type aa) (aa_Config aa) (aa_Id aa) c)
           (\<lambda>(r, c). Some (case r of Inl err \<Rightarrow> Inl (panic_of err) | Inr x \<Rightarrow> Inr x, c))) (ad_Authenticators d) c)"

definition InitGenesis_sa ::
  "('s, 'g) SkEnv \<Rightarrow> ('s, 'g) saKeeper \<Rightarrow> sa_genesis \<Rightarrow> ('s, 'g) sctx \<Rightarrow> ('s, 'g, unit) sa_result option" where
  "InitGenesis_sa e k genState c =
    (case SetParams_sa e (sg_Params genState) c of
       (Inl err, c) \<Rightarrow> Some (Inl err, c)
     | (Inr _, c) \<Rightarrow>
         (case SetNextAuthenticatorId e
             (if sg_NextAuthenticatorId genState = 0 then FirstAuthenticatorId else sg_NextAuthenticatorId genState) c of
            (Inl err, c) \<Rightarrow> Some (Inl err, c)
          | (Inr _, c) \<Rightarrow> each_part (initAuthenticators e k) (sg_AuthenticatorData genState) c))"

definition ExportGenesis_sa :: "('s, 'g) SkEnv \<Rightarrow> ('s, 'g) sctx \<Rightarrow> ('s, 'g, sa_genesis) sa_result" where
  "ExportGenesis_sa e c =
    bindw (GetParams_sa e c) (\<lambda>params c.
    bindw (InitializeOrGetNextAuthenticatorId e c) (\<lambda>i c.
    case GetAllAuthenticatorData e c of
      (Inl err, c) \<Rightarrow> (Inl (panic_of err), c)
    | (Inr accs, c) \<Rightarrow> (Inr \<lparr>sg_Params = params, sg_NextAuthenticatorId = i, sg_AuthenticatorData = accs\<rparr>, c)))"

definition DefaultGenesis_sa :: sa_genesis where
  "DefaultGenesis_sa = \<lparr>sg_Params = NewParams, sg_NextAuthenticatorId = 0, sg_AuthenticatorData = []\<rparr>"

definition Genesis_Validate_sa :: "('s, 'g) SkEnv \<Rightarrow> sa_genesis \<Rightarrow> sa_error + unit" where
  "Genesis_Validate_sa e gs = Params_Validate_sa e (sg_Params gs)"

text \<open>A query turns every error into a status; a panic is not an error.\<close>

definition status_Internal :: "('s, 'g, 'a) sa_result \<Rightarrow> ('s, 'g, 'a) sa_result" where
  "status_Internal r = (case r of (Inl err, c) \<Rightarrow> (Inl (if is_panic err then err else SdkError ''Internal''), c) | (Inr x, c) \<Rightarrow> (Inr x, c))"

definition query_GetAuthenticators ::
  "('s, 'g) SkEnv \<Rightarrow> string \<Rightarrow> ('s, 'g) sctx \<Rightarrow> ('s, 'g, AccountAuthenticator list) sa_result" where
  "query_GetAuthenticators e account c =
    status_Internal (bindw (pure_check (sa_AccAddressFromBech32 (sk_auth e) account) c) (\<lambda>acc c. GetAuthenticatorDataForAccount e acc c))"

definition query_GetAuthenticator ::
  "('s, 'g) SkEnv \<Rightarrow> string \<Rightarrow> u64 \<Rightarrow> ('s, 'g) sctx \<Rightarrow> ('s, 'g, AccountAuthenticator) sa_result" where
  "query_GetAuthenticator e account i c =
    status_Internal (bindw (pure_check (sa_AccAddressFromBech32 (sk_auth e) account) c) (\<lambda>acc c. GetSelectedAuthenticatorData e acc i c))"

end
