(* ===== verification/Smart_Records.thy ===== *)
theory Smart_Records
  imports Smart_Keeper
begin

text \<open>
  What the store of \<open>x/smart-account\<close> holds: the laws of the SDK the module relies on, the keys of the
  records, and that genesis and every message keep each stored authenticator usable.
\<close>

subsection \<open>What the SDK promises\<close>

definition keeps_store :: "('s, 'g) SkEnv \<Rightarrow> ('s, 'g, 'a) sdk_call \<Rightarrow> bool" where
  "keeps_store e f \<longleftrightarrow> (\<forall>s g. sk_Get e (fst (snd (f (s, g)))) = sk_Get e s)"

text \<open>
  The store answers with what was last written, records read back as written, the printed form of an
  address determines it and has no separator, and neither the parameters nor a contract called by the
  module change its store.
\<close>

definition sk_laws :: "('s, 'g) SkEnv \<Rightarrow> bool" where
  "sk_laws e \<longleftrightarrow> kv_laws (sk_Get e) (sk_Set e) (sk_Iter e) \<and>
    (\<forall>s k k'. sk_Get e (sk_Delete e k s) k' = (if k' = k then None else sk_Get e s k')) \<and>
    codec_ok (sk_record e) \<and> codec_ok (sk_uint e) \<and>
    inj (sk_AddrString e) \<and> (\<forall>a. CHR ''|'' \<notin> set (sk_AddrString e a)) \<and>
    keeps_store e (sk_GetParamSet e) \<and> (\<forall>p. keeps_store e (sk_SetParamSet e p)) \<and> (\<forall>k. keeps_store e (sk_GetRaw e k)) \<and>
    (\<forall>addr bz. keeps_store e (sa_Sudo (sk_auth e) addr bz))"

lemma sk_lawsD:
  assumes "sk_laws e"
  shows "sk_Get e (sk_Set e k v s) = (sk_Get e s)(k \<mapsto> v)" "sk_Get e (sk_Delete e k s) = (sk_Get e s)(k := None)"
    "codec_ok (sk_record e)" "codec_ok (sk_uint e)" "inj (sk_AddrString e)" "CHR ''|'' \<notin> set (sk_AddrString e a)"
  using assms by (auto simp: sk_laws_def kv_laws_def fun_eq_iff)

lemma sk_keeps:
  assumes "sk_laws e"
  shows "keeps_store e (sk_GetParamSet e)" "keeps_store e (sk_SetParamSet e p)" "keeps_store e (sk_GetRaw e k)"
    "keeps_store e (sa_Sudo (sk_auth e) addr bz)"
  using assms by (auto simp: sk_laws_def)

lemma on_sdk_keeps: "keeps_store e f \<Longrightarrow> on_sdk f c = (r, c') \<Longrightarrow> sk_Get e (sx_state c') = sk_Get e (sx_state c)"
  by (auto simp: on_sdk_def keeps_store_def split: prod.splits) (metis fst_conv snd_conv)

lemma access_state: "access e op c = (r, c') \<Longrightarrow> sx_state c' = sx_state c"
  by (auto simp: access_def split: prod.splits)

lemma store_Get_Inr: "store_Get e key c = (Inr v, c') \<Longrightarrow> v = sk_Get e (sx_state c) key \<and> sx_state c' = sx_state c"
  by (auto simp: store_Get_def bindw_Inr dest: access_state)

lemma store_Set_Inr: "store_Set e key bz c = (Inr (), c') \<Longrightarrow> sx_state c' = sk_Set e key bz (sx_state c)"
  by (auto simp: store_Set_def bindw_Inr dest: access_state)

lemma store_Delete_Inr: "store_Delete e key c = (Inr (), c') \<Longrightarrow> sx_state c' = sk_Delete e key (sx_state c)"
  by (auto simp: store_Delete_def bindw_Inr dest: access_state)

lemma types_Get_None: "types_Get e cd key c = (Inr None, c') \<Longrightarrow> sk_Get e (sx_state c) key = None \<and> sx_state c' = sx_state c"
  unfolding types_Get_def bindw_Inr
proof (elim exE conjE)
  fix b c1 assume "store_Get e key c = (Inr b, c1)"
    "(case b of None \<Rightarrow> (Inr None, c1) | Some bz \<Rightarrow> (case cd_Unmarshal cd bz of Inl err \<Rightarrow> (Inl err, c1) | Inr v \<Rightarrow> (Inr (Some v), c1))) = (Inr None, c')"
  then show ?thesis by (cases b; cases "cd_Unmarshal cd (the b)") (auto dest: store_Get_Inr)
qed

lemma types_Get_Some: "types_Get e cd key c = (Inr (Some v), c') \<Longrightarrow>
   (\<exists>bz. sk_Get e (sx_state c) key = Some bz \<and> cd_Unmarshal cd bz = Inr v) \<and> sx_state c' = sx_state c"
  unfolding types_Get_def bindw_Inr
proof (elim exE conjE)
  fix b c1 assume "store_Get e key c = (Inr b, c1)"
    "(case b of None \<Rightarrow> (Inr None, c1) | Some bz \<Rightarrow> (case cd_Unmarshal cd bz of Inl err \<Rightarrow> (Inl err, c1) | Inr v \<Rightarrow> (Inr (Some v), c1))) = (Inr (Some v), c')"
  then show ?thesis by (cases b; cases "cd_Unmarshal cd (the b)") (auto dest!: store_Get_Inr intro: sym)
qed

lemma MustSet_Inr: "MustSet e key m c = (Inr (), c') \<Longrightarrow> \<exists>bz. m = Inr bz \<and> sx_state c' = sk_Set e key bz (sx_state c)"
  by (auto simp: MustSet_def dest: store_Set_Inr split: sum.splits)

subsection \<open>Keys\<close>

lemma Split_single: "c \<notin> set p \<Longrightarrow> Split c p = [p]"
  by (induction p) auto

lemma Split_KeyAccountId:
  assumes "sk_laws e"
  shows "Split (CHR ''|'') (unstr (KeyAccountId e account i)) = [''[2]'', sk_AddrString e account, Itoa (unat i), []]"
proof -
  have "CHR ''|'' \<notin> set (Itoa (unat i))" by (rule Itoa_no_separator) simp
  then have "Split (CHR ''|'') (''[2]'' @ CHR ''|'' # sk_AddrString e account @ CHR ''|'' # Itoa (unat i) @ CHR ''|'' # []) =
      [''[2]'', sk_AddrString e account, Itoa (unat i), []]"
    using sk_lawsD(6) [OF assms] by (subst Split_append, simp)+ simp
  then show ?thesis by (simp add: KeyAccountId_def BuildKey_def KeyAccountAuthenticatorsPrefix_def)
qed

lemma KeyAccountId_inject: "sk_laws e \<Longrightarrow> KeyAccountId e a i = KeyAccountId e b j \<longleftrightarrow> a = b \<and> i = j"
  using Split_KeyAccountId [of e a i] Split_KeyAccountId [of e b j] sk_lawsD(5) [of e] by (auto dest: injD word_unat_eq_iff [THEN iffD2])

lemma KeyAccountId_prefix: "HasPrefix (KeyAccountId e a i) KeyAccountAuthenticatorsPrefixId"
  by (simp add: KeyAccountId_def KeyAccountAuthenticatorsPrefixId_def BuildKey_def HasPrefix_def KeyAccountAuthenticatorsPrefix_def str_append)

lemma KeyNext_no_prefix: "\<not> HasPrefix KeyNextAccountAuthenticatorId KeyAccountAuthenticatorsPrefixId"
  by (simp add: KeyNextAccountAuthenticatorId_def KeyAccountAuthenticatorsPrefixId_def BuildKey_def HasPrefix_def
      KeyAccountAuthenticatorsPrefix_def KeyNextAccountAuthenticatorIdPrefix_def str_append)

lemma KeyAccountId_not_next [simp]: "KeyAccountId e a i \<noteq> KeyNextAccountAuthenticatorId" "KeyNextAccountAuthenticatorId \<noteq> KeyAccountId e a i"
  using KeyAccountId_prefix [of e a i] KeyNext_no_prefix by metis+

subsection \<open>Announcements keep the store\<close>

lemma each_part_keeps:
  "each_part f xs w = Some (r, w') \<Longrightarrow> (\<And>x w r w'. f x w = Some (r, w') \<Longrightarrow> h w' = h w) \<Longrightarrow> h w' = h w"
proof (induction xs arbitrary: w)
  case (Cons x xs)
  from Cons.prems(1) obtain r1 w1 where x: "f x w = Some (r1, w1)" by (cases "f x w") auto
  with Cons.prems(1) Cons.IH [of w1] Cons.prems(2) show ?case by (cases r1) auto
qed simp

lemma contract_sudo_keeps:
  "sk_laws e \<Longrightarrow> contract_sudo (sk_auth e) k addr m err c = (r, c') \<Longrightarrow> sk_Get e (sx_state c') = sk_Get e (sx_state c)"
  by (auto simp: contract_sudo_def split: sum.splits if_splits dest: on_sdk_keeps [OF sk_keeps(4)])

lemma cosmwasm_keeps:
  assumes "sk_laws e"
  shows "Cosmwasm_OnAuthenticatorAdded (sk_auth e) k account config i c = (r, c') \<Longrightarrow> sk_Get e (sx_state c') = sk_Get e (sx_state c)"
    "Cosmwasm_OnAuthenticatorRemoved (sk_auth e) k account config i c = (r, c') \<Longrightarrow> sk_Get e (sx_state c') = sk_Get e (sx_state c)"
  by (auto simp: Cosmwasm_OnAuthenticatorAdded_def Cosmwasm_OnAuthenticatorRemoved_def pure_check_def bindw_def
      dest: contract_sudo_keeps [OF assms] split: sum.splits)

lemma added_keeps_store:
  assumes laws: "sk_laws e" and run: "OnAuthenticatorAdded (sk_auth e) am auth account config i c = Some r"
  shows "sk_Get e (sx_state (snd r)) = sk_Get e (sx_state c)"
proof -
  have "a = sk_auth e \<longrightarrow> sk_Get e (sx_state (snd r)) = sk_Get e (sx_state c)"
    if "OnAuthenticatorAdded a am auth account config i c = Some r" for a
  proof (rule OnAuthenticatorAdded.raw_induct [OF _ that,
      where P = "\<lambda>a am auth account config i c r. a = sk_auth e \<longrightarrow> sk_Get e (sx_state (snd r)) = sk_Get e (sx_state c)"], goal_cases)
    case (1 OnAdded a am auth account config i c r)
    have parts: "sk_Get e (sx_state (snd r)) = sk_Get e (sx_state c)"
      if "a = sk_auth e" and run: "each_part (\<lambda>p c. case GetAuthenticatorByType am (sd_Type (snd p)) of
          None \<Rightarrow> Some (Inl ErrInvalidRequest, c)
        | Some code \<Rightarrow> OnAdded a am code account (sd_Config (snd p)) (compositeId i (fst p)) c) (enumerate 0 ds) c = Some r" for ds
    proof -
      obtain x c' where r: "r = (x, c')" by (cases r)
      show ?thesis
        using each_part_keeps [OF run [unfolded r], where h = "\<lambda>c. sk_Get e (sx_state c)"] 1(1) that(1) r
        by (fastforce split: option.splits)
    qed
    show ?case
    proof
      assume a: "a = sk_auth e"
      with 1(2) parts show "sk_Get e (sx_state (snd r)) = sk_Get e (sx_state c)"
        by (auto simp: pure_check_def split: Authenticator.splits sum.splits) (metis cosmwasm_keeps(1) [OF laws] prod.collapse)
    qed
  qed
  with run show ?thesis by blast
qed

lemma removed_keeps_store:
  assumes laws: "sk_laws e" and run: "OnAuthenticatorRemoved (sk_auth e) am auth account config i c = Some r"
  shows "sk_Get e (sx_state (snd r)) = sk_Get e (sx_state c)"
proof -
  have "a = sk_auth e \<longrightarrow> sk_Get e (sx_state (snd r)) = sk_Get e (sx_state c)"
    if "OnAuthenticatorRemoved a am auth account config i c = Some r" for a
  proof (rule OnAuthenticatorRemoved.raw_induct [OF _ that,
      where P = "\<lambda>a am auth account config i c r. a = sk_auth e \<longrightarrow> sk_Get e (sx_state (snd r)) = sk_Get e (sx_state c)"], goal_cases)
    case (1 OnRemoved a am auth account config i c r)
    have parts: "sk_Get e (sx_state (snd r)) = sk_Get e (sx_state c)"
      if "a = sk_auth e" and run: "each_part (\<lambda>p c. case GetAuthenticatorByType am (sd_Type (snd p)) of
          None \<Rightarrow> Some (Inl ErrInvalidRequest, c)
        | Some code \<Rightarrow> OnRemoved a am code account (sd_Config (snd p)) (compositeId i (fst p)) c) (enumerate 0 ds) c = Some r" for ds
    proof -
      obtain x c' where r: "r = (x, c')" by (cases r)
      show ?thesis
        using each_part_keeps [OF run [unfolded r], where h = "\<lambda>c. sk_Get e (sx_state c)"] 1(1) that(1) r
        by (fastforce split: option.splits)
    qed
    show ?case
    proof
      assume a: "a = sk_auth e"
      with 1(2) parts show "sk_Get e (sx_state (snd r)) = sk_Get e (sx_state c)"
        by (auto simp: pure_check_def split: Authenticator.splits sum.splits) (metis cosmwasm_keeps(2) [OF laws] prod.collapse)
    qed
  qed
  with run show ?thesis by blast
qed

subsection \<open>The records of the module\<close>

definition next_id :: "('s, 'g) SkEnv \<Rightarrow> 's \<Rightarrow> u64 option" where
  "next_id e s =
    (case sk_Get e s KeyNextAccountAuthenticatorId of
       None \<Rightarrow> Some FirstAuthenticatorId
     | Some bz \<Rightarrow> (case cd_Unmarshal (sk_uint e) bz of Inl _ \<Rightarrow> None | Inr i \<Rightarrow> Some i))"

text \<open>A record whose type is registered and whose configuration can be initialized.\<close>

definition usable :: "('s, 'g) SkEnv \<Rightarrow> ('s, 'g) AuthenticatorManager \<Rightarrow> AccountAuthenticator \<Rightarrow> bool" where
  "usable e am aa \<longleftrightarrow>
    (\<exists>code a. GetAuthenticatorByType am (aa_Type aa) = Some code \<and> Initialize (sk_auth e) am code (aa_Config aa) = Some (Inr a))"

text \<open>
  Every record stands under the key of its own number, the number has been given out, and the record is
  usable.
\<close>

definition records_inv :: "('s, 'g) SkEnv \<Rightarrow> ('s, 'g) AuthenticatorManager \<Rightarrow> 's \<Rightarrow> bool" where
  "records_inv e am s \<longleftrightarrow>
    (\<exists>n. next_id e s = Some n \<and>
      (\<forall>key bz. sk_Get e s key = Some bz \<longrightarrow> HasPrefix key KeyAccountAuthenticatorsPrefixId \<longrightarrow>
        (\<exists>account aa. key = KeyAccountId e account (aa_Id aa) \<and> cd_Unmarshal (sk_record e) bz = Inr aa \<and> aa_Id aa < n \<and> usable e am aa)))"

lemma records_inv_cong: "sk_Get e s' = sk_Get e s \<Longrightarrow> records_inv e am s' = records_inv e am s"
  by (simp add: records_inv_def next_id_def)

lemma next_id_cong: "sk_Get e s' = sk_Get e s \<Longrightarrow> next_id e s' = next_id e s"
  by (simp add: next_id_def)

lemma records_invD:
  assumes "sk_laws e" "records_inv e am s" "next_id e s = Some n" "sk_Get e s (KeyAccountId e account i) = Some bz"
  shows "\<exists>aa. cd_Unmarshal (sk_record e) bz = Inr aa \<and> aa_Id aa = i \<and> i < n \<and> usable e am aa"
  using assms(2-) KeyAccountId_prefix [of e account i] unfolding records_inv_def
  by (metis KeyAccountId_inject [OF assms(1)] option.inject)

lemma SetNext_Inr:
  assumes "sk_laws e" "SetNextAuthenticatorId e i c = (Inr (), c')"
  shows "\<exists>bz. cd_Unmarshal (sk_uint e) bz = Inr i \<and> sk_Get e (sx_state c') = (sk_Get e (sx_state c))(KeyNextAccountAuthenticatorId \<mapsto> bz)"
proof -
  obtain bz where "cd_Marshal (sk_uint e) i = Inr bz" "sx_state c' = sk_Set e KeyNextAccountAuthenticatorId bz (sx_state c)"
    using assms(2) by (auto simp: SetNextAuthenticatorId_def dest: MustSet_Inr)
  then show ?thesis using sk_lawsD(1,4) [OF assms(1)] by (intro exI [of _ bz]) (simp add: codec_ok_def)
qed

lemma GetNext_Inr:
  assumes laws: "sk_laws e" and run: "InitializeOrGetNextAuthenticatorId e c = (Inr i, c')"
  shows "next_id e (sx_state c) = Some i \<and> next_id e (sx_state c') = Some i \<and>
    (\<forall>key. key \<noteq> KeyNextAccountAuthenticatorId \<longrightarrow> sk_Get e (sx_state c') key = sk_Get e (sx_state c) key)"
proof -
  obtain r c1 where g: "types_Get e (sk_uint e) KeyNextAccountAuthenticatorId c = (r, c1)" by (cases "types_Get e (sk_uint e) KeyNextAccountAuthenticatorId c")
  with run consider "r = Inr None" "SetNextAuthenticatorId e FirstAuthenticatorId c1 = (Inr (), c')" "i = FirstAuthenticatorId"
    | j where "r = Inr (Some j)" "c' = c1" "i = j"
    by (cases r) (auto simp: InitializeOrGetNextAuthenticatorId_def bindw_Inr split: option.splits)
  then show ?thesis
  proof cases
    case 1
    with g types_Get_None [of e "sk_uint e" KeyNextAccountAuthenticatorId c c1] SetNext_Inr [OF laws 1(2)]
    show ?thesis by (auto simp: next_id_def)
  next
    case 2
    with g types_Get_Some [of e "sk_uint e" KeyNextAccountAuthenticatorId c j c1] show ?thesis by (auto simp: next_id_def)
  qed
qed

lemma AddAuthenticator_Inr:
  assumes laws: "sk_laws e" and run: "AddAuthenticator e k account t config c = Some (Inr i, c')"
  shows "\<exists>code c1 c2 bz bn. GetAuthenticatorByType (sk_AuthenticatorManager k) t = Some code \<and>
    next_id e (sx_state c) = Some i \<and>
    OnAuthenticatorAdded (sk_auth e) (sk_AuthenticatorManager k) code account config (Itoa (unat i)) c1 = Some (Inr (), c2) \<and>
    cd_Unmarshal (sk_record e) bz = Inr \<lparr>aa_Id = i, aa_Type = t, aa_Config = config\<rparr> \<and> cd_Unmarshal (sk_uint e) bn = Inr (i + 1) \<and>
    sk_Get e (sx_state c') = (sk_Get e (sx_state c))(KeyNextAccountAuthenticatorId \<mapsto> bn, KeyAccountId e account i \<mapsto> bz)"
proof -
  from run obtain code where code: "GetAuthenticatorByType (sk_AuthenticatorManager k) t = Some code"
    by (auto simp: AddAuthenticator_def split: option.splits)
  obtain x c1 where x: "InitializeOrGetNextAuthenticatorId e c = (x, c1)" by (cases "InitializeOrGetNextAuthenticatorId e c")
  obtain j where xj: "x = Inr j" using run code x by (cases x) (auto simp: AddAuthenticator_def)
  from run code x xj obtain y c2 where
      added: "OnAuthenticatorAdded (sk_auth e) (sk_AuthenticatorManager k) code account config (Itoa (unat j)) c1 = Some (y, c2)"
    by (cases "OnAuthenticatorAdded (sk_auth e) (sk_AuthenticatorManager k) code account config (Itoa (unat j)) c1") (auto simp: AddAuthenticator_def)
  from run code x xj added obtain c3 where y: "y = Inr ()" "i = j" and next': "SetNextAuthenticatorId e (j + 1) c2 = (Inr (), c3)"
      and record': "MustSet e (KeyAccountId e account j) (cd_Marshal (sk_record e) \<lparr>aa_Id = j, aa_Type = t, aa_Config = config\<rparr>) c3 = (Inr (), c')"
    by (auto simp: AddAuthenticator_def bindw_Inr)
  obtain bn where bn: "cd_Unmarshal (sk_uint e) bn = Inr (j + 1)"
      "sk_Get e (sx_state c3) = (sk_Get e (sx_state c2))(KeyNextAccountAuthenticatorId \<mapsto> bn)"
    using SetNext_Inr [OF laws next'] by blast
  obtain bz where bz: "cd_Marshal (sk_record e) \<lparr>aa_Id = j, aa_Type = t, aa_Config = config\<rparr> = Inr bz"
      "sx_state c' = sk_Set e (KeyAccountId e account j) bz (sx_state c3)"
    using MustSet_Inr [OF record'] by blast
  have "sk_Get e (sx_state c2) = sk_Get e (sx_state c1)" using added_keeps_store [OF laws added] by simp
  moreover have "next_id e (sx_state c) = Some j"
      "\<And>key. key \<noteq> KeyNextAccountAuthenticatorId \<Longrightarrow> sk_Get e (sx_state c1) key = sk_Get e (sx_state c) key"
    using GetNext_Inr [OF laws] x xj by auto
  moreover have "cd_Unmarshal (sk_record e) bz = Inr \<lparr>aa_Id = j, aa_Type = t, aa_Config = config\<rparr>"
    using bz(1) sk_lawsD(3) [OF laws] by (simp add: codec_ok_def)
  ultimately show ?thesis
    using code added y bn bz sk_lawsD(1) [OF laws]
    by (intro exI [of _ code] exI [of _ c1] exI [of _ c2] exI [of _ bz] exI [of _ bn]) (auto simp: fun_eq_iff)
qed

lemma RemoveAuthenticator_Inr:
  assumes laws: "sk_laws e" and run: "RemoveAuthenticator e k account i c = Some (Inr (), c')"
  shows "sk_Get e (sx_state c) (KeyAccountId e account i) \<noteq> None \<and>
    sk_Get e (sx_state c') = (sk_Get e (sx_state c))(KeyAccountId e account i := None)"
proof -
  let ?key = "KeyAccountId e account i"
  obtain x c1 where x: "types_Get e (sk_record e) ?key c = (x, c1)" by (cases "types_Get e (sk_record e) ?key c")
  with run obtain aa where aa: "x = Inr (Some aa)"
    by (cases x) (auto simp: RemoveAuthenticator_def Let_def split: option.splits)
  from run x aa obtain code where code: "GetAuthenticatorByType (sk_AuthenticatorManager k) (aa_Type aa) = Some code"
    by (auto simp: RemoveAuthenticator_def Let_def split: option.splits)
  from run code x aa obtain y c2 where
      removed: "OnAuthenticatorRemoved (sk_auth e) (sk_AuthenticatorManager k) code account (aa_Config aa) (Itoa (unat i)) c1 = Some (y, c2)"
    by (cases "OnAuthenticatorRemoved (sk_auth e) (sk_AuthenticatorManager k) code account (aa_Config aa) (Itoa (unat i)) c1")
       (auto simp: RemoveAuthenticator_def Let_def)
  from run x aa code removed have "store_Delete e ?key c2 = (Inr (), c')" by (auto simp: RemoveAuthenticator_def Let_def bindw_Inr)
  from store_Delete_Inr [OF this] show ?thesis
    using removed_keeps_store [OF laws removed] types_Get_Some [of e "sk_record e" ?key c aa c1] x aa sk_lawsD(2) [OF laws]
    by auto
qed

subsection \<open>Every message keeps the records usable\<close>

lemma AddAuthenticator_keeps:
  assumes laws: "sk_laws e" and am: "templates (sk_AuthenticatorManager k)" and inv: "records_inv e (sk_AuthenticatorManager k) (sx_state c)"
    and run: "AddAuthenticator e k account t config c = Some (Inr i, c')" and room: "i + 1 \<noteq> 0"
  shows "records_inv e (sk_AuthenticatorManager k) (sx_state c') \<and> next_id e (sx_state c') = Some (i + 1)"
proof -
  let ?am = "sk_AuthenticatorManager k" and ?aa = "\<lparr>aa_Id = i, aa_Type = t, aa_Config = config\<rparr>"
  obtain code c1 c2 bz bn where code: "GetAuthenticatorByType ?am t = Some code" "next_id e (sx_state c) = Some i"
      "OnAuthenticatorAdded (sk_auth e) ?am code account config (Itoa (unat i)) c1 = Some (Inr (), c2)"
      "cd_Unmarshal (sk_record e) bz = Inr ?aa" "cd_Unmarshal (sk_uint e) bn = Inr (i + 1)"
      "sk_Get e (sx_state c') = (sk_Get e (sx_state c))(KeyNextAccountAuthenticatorId \<mapsto> bn, KeyAccountId e account i \<mapsto> bz)"
    using AddAuthenticator_Inr [OF laws run] by blast
  have next': "next_id e (sx_state c') = Some (i + 1)" by (simp add: next_id_def code)
  have "usable e ?am ?aa"
    using added_initializes [OF code(3)] am code(1) by (auto simp: usable_def templates_def)
  moreover have less: "i < i + 1" using room unatSuc [of i] by (simp add: word_less_nat_alt add.commute)
  moreover have old: "\<exists>account aa. key = KeyAccountId e account (aa_Id aa) \<and> cd_Unmarshal (sk_record e) b = Inr aa \<and> aa_Id aa < i \<and> usable e ?am aa"
    if "sk_Get e (sx_state c) key = Some b" "HasPrefix key KeyAccountAuthenticatorsPrefixId" for key b
    using inv that code(2) by (auto simp: records_inv_def)
  ultimately have "\<exists>account aa. key = KeyAccountId e account (aa_Id aa) \<and> cd_Unmarshal (sk_record e) b = Inr aa \<and> aa_Id aa < i + 1 \<and> usable e ?am aa"
    if get: "sk_Get e (sx_state c') key = Some b" and pre: "HasPrefix key KeyAccountAuthenticatorsPrefixId" for key b
  proof (cases "key = KeyAccountId e account i")
    case True
    with get code(6) have "b = bz" by simp
    with True code(4) \<open>usable e ?am ?aa\<close> less show ?thesis by (intro exI [of _ account] exI [of _ ?aa]) simp
  next
    case False
    moreover have "key \<noteq> KeyNextAccountAuthenticatorId" using pre KeyNext_no_prefix by blast
    ultimately have "sk_Get e (sx_state c) key = Some b" using get code(6) by simp
    with old [OF _ pre] less show ?thesis by (meson less_trans)
  qed
  then show ?thesis using next' unfolding records_inv_def by blast
qed

lemma RemoveAuthenticator_keeps:
  assumes "sk_laws e" "records_inv e am (sx_state c)" "RemoveAuthenticator e k account i c = Some (Inr (), c')"
  shows "records_inv e am (sx_state c') \<and> next_id e (sx_state c') = next_id e (sx_state c)"
  using assms(2) RemoveAuthenticator_Inr [OF assms(1,3)] by (auto simp: records_inv_def next_id_def)

lemma bindw_keeps:
  assumes "bindw m f = (r, c')" "\<And>r c. m = (r, c) \<Longrightarrow> h c = x" "\<And>y c r c'. f y c = (r, c') \<Longrightarrow> h c = x \<Longrightarrow> h c' = x"
  shows "h c' = x"
proof -
  obtain r0 c0 where "m = (r0, c0)" by (cases m)
  with assms show ?thesis by (cases r0) auto
qed

lemma params_keep:
  assumes "sk_laws e"
  shows "GetParams_sa e c = (r, c') \<Longrightarrow> sk_Get e (sx_state c') = sk_Get e (sx_state c)"
    and "SetParams_sa e p c = (r', c') \<Longrightarrow> sk_Get e (sx_state c') = sk_Get e (sx_state c)"
    and "GetIsSmartAccountActive e k c = (r'', c') \<Longrightarrow> sk_Get e (sx_state c') = sk_Get e (sx_state c)"
  unfolding GetParams_sa_def SetParams_sa_def GetIsSmartAccountActive_def
  by (auto elim!: bindw_keeps dest: on_sdk_keeps [OF sk_keeps(1) [OF assms]] on_sdk_keeps [OF sk_keeps(2) [OF assms]]
      on_sdk_keeps [OF sk_keeps(3) [OF assms]] simp: Let_def split: if_splits)

lemma SetActiveState_keeps:
  assumes laws: "sk_laws e" and run: "msgServer_SetActiveState e k msg c = (r, c')"
  shows "sk_Get e (sx_state c') = sk_Get e (sx_state c)"
  using run unfolding msgServer_SetActiveState_def SetActiveState_keeper_def Let_def pure_check_def
  by (elim bindw_keeps [where h = "\<lambda>c. sk_Get e (sx_state c)"])
     (auto dest: params_keep [OF laws] elim!: bindw_keeps [where h = "\<lambda>c. sk_Get e (sx_state c)"] split: if_splits)

subsection \<open>Genesis\<close>

lemma each_part_inv:
  "each_part f xs w = Some (Inr (), w') \<Longrightarrow> I w \<Longrightarrow>
    (\<And>x w w'. x \<in> set xs \<Longrightarrow> I w \<Longrightarrow> f x w = Some (Inr (), w') \<Longrightarrow> I w') \<Longrightarrow> I w'"
proof (induction xs arbitrary: w)
  case (Cons x xs)
  from Cons.prems(1) obtain r1 w1 where x: "f x w = Some (r1, w1)" by (cases "f x w") auto
  with Cons.prems(1) have "r1 = Inr ()" "each_part f xs w1 = Some (Inr (), w')" by (cases r1; auto)+
  with x Cons show ?case by auto
qed simp

lemma panicking_Inr:
  assumes "Option.bind m (\<lambda>(r, c). Some (case r of Inl err \<Rightarrow> Inl (g err) | Inr x \<Rightarrow> Inr x, c)) = Some (Inr y, u)"
  shows "m = Some (Inr y, u)"
proof -
  from assms obtain r c where "m = Some (r, c)" by (cases m) auto
  with assms show ?thesis by (cases r) auto
qed

text \<open>The state after part of the genesis data was added: the next number is \<open>n\<close> throughout.\<close>

lemma AddAuthenticatorWithId_keeps:
  assumes laws: "sk_laws e" and am: "templates (sk_AuthenticatorManager k)"
    and inv: "records_inv e (sk_AuthenticatorManager k) (sx_state c)" "next_id e (sx_state c) = Some n" "i < n"
    and run: "AddAuthenticatorWithId e k account t config i c = Some (Inr (), c')"
  shows "records_inv e (sk_AuthenticatorManager k) (sx_state c') \<and> next_id e (sx_state c') = Some n"
proof -
  let ?am = "sk_AuthenticatorManager k" and ?aa = "\<lparr>aa_Id = i, aa_Type = t, aa_Config = config\<rparr>"
  from run obtain code where code: "GetAuthenticatorByType ?am t = Some code"
    by (auto simp: AddAuthenticatorWithId_def split: option.splits)
  from run code obtain y c2 where added: "OnAuthenticatorAdded (sk_auth e) ?am code account config (Itoa (unat i)) c = Some (y, c2)"
    by (cases "OnAuthenticatorAdded (sk_auth e) ?am code account config (Itoa (unat i)) c") (auto simp: AddAuthenticatorWithId_def)
  from run code added have y: "y = Inr ()"
      and "MustSet e (KeyAccountId e account i) (cd_Marshal (sk_record e) ?aa) (c\<lparr>sx_gas := sx_gas c2\<rparr>) = (Inr (), c')"
    by (cases y; auto simp: AddAuthenticatorWithId_def Let_def)+
  then obtain bz where bz: "cd_Marshal (sk_record e) ?aa = Inr bz" "sx_state c' = sk_Set e (KeyAccountId e account i) bz (sx_state c)"
    by (auto dest: MustSet_Inr)
  have get: "sk_Get e (sx_state c') = (sk_Get e (sx_state c))(KeyAccountId e account i \<mapsto> bz)" by (simp add: bz sk_lawsD [OF laws])
  have rec: "cd_Unmarshal (sk_record e) bz = Inr ?aa" using bz(1) sk_lawsD(3) [OF laws] by (simp add: codec_ok_def)
  have use: "usable e ?am ?aa" using added_initializes [OF added] am code y by (auto simp: usable_def templates_def)
  have next': "next_id e (sx_state c') = Some n" using inv(2) by (simp add: next_id_def get)
  have "\<exists>account aa. key = KeyAccountId e account (aa_Id aa) \<and> cd_Unmarshal (sk_record e) b = Inr aa \<and> aa_Id aa < n \<and> usable e ?am aa"
    if "sk_Get e (sx_state c') key = Some b" "HasPrefix key KeyAccountAuthenticatorsPrefixId" for key b
  proof (cases "key = KeyAccountId e account i")
    case True
    with that get have "b = bz" by simp
    with True rec use inv(3) show ?thesis by (intro exI [of _ account] exI [of _ ?aa]) simp
  next
    case False
    with that get inv(1,2) show ?thesis by (auto simp: records_inv_def)
  qed
  then show ?thesis using next' unfolding records_inv_def by blast
qed

lemma InitGenesis_inv:
  assumes laws: "sk_laws e" and am: "templates (sk_AuthenticatorManager k)" and empty: "sk_Get e (sx_state c) = Map.empty"
    and run: "InitGenesis_sa e k gs c = Some (Inr (), c')"
    and ids: "\<forall>d \<in> set (sg_AuthenticatorData gs). \<forall>aa \<in> set (ad_Authenticators d). aa_Id aa < sg_NextAuthenticatorId gs"
  shows "records_inv e (sk_AuthenticatorManager k) (sx_state c') \<and>
    next_id e (sx_state c') = Some (if sg_NextAuthenticatorId gs = 0 then FirstAuthenticatorId else sg_NextAuthenticatorId gs)"
proof -
  let ?n = "if sg_NextAuthenticatorId gs = 0 then FirstAuthenticatorId else sg_NextAuthenticatorId gs"
  let ?I = "\<lambda>c. records_inv e (sk_AuthenticatorManager k) (sx_state c) \<and> next_id e (sx_state c) = Some ?n"
  obtain r1 c1 where p: "SetParams_sa e (sg_Params gs) c = (r1, c1)" by (cases "SetParams_sa e (sg_Params gs) c")
  obtain r2 c2 where n: "SetNextAuthenticatorId e ?n c1 = (r2, c2)" by (cases "SetNextAuthenticatorId e ?n c1")
  from run p n have r: "r1 = Inr ()" "r2 = Inr ()" and loop: "each_part (initAuthenticators e k) (sg_AuthenticatorData gs) c2 = Some (Inr (), c')"
    by (cases r1; cases r2; auto simp: InitGenesis_sa_def)+
  obtain bz where "cd_Unmarshal (sk_uint e) bz = Inr ?n" "sk_Get e (sx_state c2) = (sk_Get e (sx_state c1))(KeyNextAccountAuthenticatorId \<mapsto> bz)"
    using SetNext_Inr [OF laws] n r by blast
  then have start: "?I c2"
    using params_keep(2) [OF laws p] empty KeyNext_no_prefix by (auto simp: records_inv_def next_id_def split: if_splits)
  show ?thesis
  proof (rule each_part_inv [where I = ?I, OF loop start])
    fix d w w' assume d: "d \<in> set (sg_AuthenticatorData gs)" "?I w" "initAuthenticators e k d w = Some (Inr (), w')"
    then obtain addr where "each_part (\<lambda>aa c. Option.bind (AddAuthenticatorWithId e k addr (aa_Type aa) (aa_Config aa) (aa_Id aa) c)
        (\<lambda>(r, c). Some (case r of Inl err \<Rightarrow> Inl (panic_of err) | Inr x \<Rightarrow> Inr x, c))) (ad_Authenticators d) w = Some (Inr (), w')"
      by (auto simp: initAuthenticators_def split: sum.splits)
    then show "?I w'"
    proof (rule each_part_inv [where I = ?I, OF _ d(2)])
      fix aa u u' assume aa: "aa \<in> set (ad_Authenticators d)" "?I u"
        "Option.bind (AddAuthenticatorWithId e k addr (aa_Type aa) (aa_Config aa) (aa_Id aa) u)
          (\<lambda>(r, c). Some (case r of Inl err \<Rightarrow> Inl (panic_of err) | Inr x \<Rightarrow> Inr x, c)) = Some (Inr (), u')"
      then have "AddAuthenticatorWithId e k addr (aa_Type aa) (aa_Config aa) (aa_Id aa) u = Some (Inr (), u')"
        by (blast dest: panicking_Inr)
      moreover have "aa_Id aa < ?n" using ids d(1) aa(1) by (auto simp: word_less_nat_alt)
      ultimately show "?I u'" using AddAuthenticatorWithId_keeps [OF laws am, of u ?n] aa(2) by blast
    qed
  qed
qed

subsection \<open>Runs\<close>

text \<open>
  What changes the chain between two points: a message of the module that succeeds (a failed one is
  rolled back), or anything that leaves the store of the module alone.  The number counts additions.
\<close>

inductive sa_run :: "('s, 'g) SkEnv \<Rightarrow> ('s, 'g) saKeeper \<Rightarrow> nat \<Rightarrow> ('s, 'g) sctx \<Rightarrow> ('s, 'g) sctx \<Rightarrow> bool" for e k where
  start: "sa_run e k 0 c c"
| added: "sa_run e k n c0 c \<Longrightarrow> msgServer_AddAuthenticator e k msg c = Some (Inr b, c') \<Longrightarrow> sa_run e k (Suc n) c0 c'"
| removed: "sa_run e k n c0 c \<Longrightarrow> msgServer_RemoveAuthenticator e k msg c = Some (Inr b, c') \<Longrightarrow> sa_run e k n c0 c'"
| switched: "sa_run e k n c0 c \<Longrightarrow> msgServer_SetActiveState e k msg c = (Inr (), c') \<Longrightarrow> sa_run e k n c0 c'"
| elsewhere: "sa_run e k n c0 c \<Longrightarrow> sk_Get e (sx_state c') = sk_Get e (sx_state c) \<Longrightarrow> sa_run e k n c0 c'"

lemma same_manager: "GetIsSmartAccountActive e k c = (Inr (b, k'), c') \<Longrightarrow> sk_AuthenticatorManager k' = sk_AuthenticatorManager k"
  by (auto simp: GetIsSmartAccountActive_def bindw_Inr Let_def split: if_splits)

lemma AddAuthenticator_manager:
  assumes "sk_AuthenticatorManager k' = sk_AuthenticatorManager k"
  shows "AddAuthenticator e k' account t config c = AddAuthenticator e k account t config c"
    and "RemoveAuthenticator e k' account i c = RemoveAuthenticator e k account i c"
  unfolding AddAuthenticator_def RemoveAuthenticator_def assms by (rule refl)+

lemma msg_Add_Inr:
  assumes laws: "sk_laws e" and run: "msgServer_AddAuthenticator e k msg c = Some (Inr b, c')"
  shows "\<exists>c1 account i. sk_Get e (sx_state c1) = sk_Get e (sx_state c) \<and>
    AddAuthenticator e k account (ma_AuthenticatorType msg) (ma_Data msg) c1 = Some (Inr i, c')"
proof -
  obtain r c1 where act: "GetIsSmartAccountActive e k c = (r, c1)" by (cases "GetIsSmartAccountActive e k c")
  with run obtain k' where r: "r = Inr (True, k')" by (cases r) (auto simp: msgServer_AddAuthenticator_def split: if_splits)
  with run act obtain account where acc: "sa_AccAddressFromBech32 (sk_auth e) (ma_Sender msg) = Inr account"
    by (auto simp: msgServer_AddAuthenticator_def split: sum.splits)
  from run act r acc obtain y c2 where "AddAuthenticator e k' account (ma_AuthenticatorType msg) (ma_Data msg) c1 = Some (y, c2)"
    by (cases "AddAuthenticator e k' account (ma_AuthenticatorType msg) (ma_Data msg) c1") (auto simp: msgServer_AddAuthenticator_def)
  with run act r acc obtain i where "AddAuthenticator e k' account (ma_AuthenticatorType msg) (ma_Data msg) c1 = Some (Inr i, c')"
    by (auto simp: msgServer_AddAuthenticator_def bindw_Inr)
  then show ?thesis using params_keep(3) [OF laws act] AddAuthenticator_manager(1) [OF same_manager [OF act [unfolded r]]] by metis
qed

lemma msg_Remove_Inr:
  assumes laws: "sk_laws e" and run: "msgServer_RemoveAuthenticator e k msg c = Some (Inr b, c')"
  shows "\<exists>c1 account. sk_Get e (sx_state c1) = sk_Get e (sx_state c) \<and> RemoveAuthenticator e k account (mr_Id msg) c1 = Some (Inr (), c')"
proof -
  obtain r c1 where act: "GetIsSmartAccountActive e k c = (r, c1)" by (cases "GetIsSmartAccountActive e k c")
  with run obtain k' where r: "r = Inr (True, k')" by (cases r) (auto simp: msgServer_RemoveAuthenticator_def split: if_splits)
  with run act obtain account where acc: "sa_AccAddressFromBech32 (sk_auth e) (mr_Sender msg) = Inr account"
    by (auto simp: msgServer_RemoveAuthenticator_def split: sum.splits)
  from run act r acc obtain y c2 where "RemoveAuthenticator e k' account (mr_Id msg) c1 = Some (y, c2)"
    by (cases "RemoveAuthenticator e k' account (mr_Id msg) c1") (auto simp: msgServer_RemoveAuthenticator_def)
  with run act r acc have "RemoveAuthenticator e k' account (mr_Id msg) c1 = Some (Inr (), c')"
    by (auto simp: msgServer_RemoveAuthenticator_def bindw_Inr)
  then show ?thesis using params_keep(3) [OF laws act] AddAuthenticator_manager(2) [OF same_manager [OF act [unfolded r]]] by metis
qed

lemma run_inv:
  assumes "sa_run e k n c0 c" and laws: "sk_laws e" and am: "templates (sk_AuthenticatorManager k)"
    and "records_inv e (sk_AuthenticatorManager k) (sx_state c0)" "next_id e (sx_state c0) = Some m" "unat m + n < 2 ^ 64"
  shows "records_inv e (sk_AuthenticatorManager k) (sx_state c) \<and> next_id e (sx_state c) = Some (m + word_of_nat n)"
  using assms(1,4,5,6)
proof (induction rule: sa_run.induct)
  case (added n c0 c msg b c')
  obtain c1 account i where c1: "sk_Get e (sx_state c1) = sk_Get e (sx_state c)"
      and add: "AddAuthenticator e k account (ma_AuthenticatorType msg) (ma_Data msg) c1 = Some (Inr i, c')"
    using msg_Add_Inr [OF laws added(2)] by blast
  have inv: "records_inv e (sk_AuthenticatorManager k) (sx_state c1)" "next_id e (sx_state c1) = Some (m + word_of_nat n)"
    using added records_inv_cong [OF c1] next_id_cong [OF c1] by auto
  then have i: "i = m + word_of_nat n" using AddAuthenticator_Inr [OF laws add] by auto
  have "unat (m + word_of_nat (Suc n)) = unat m + Suc n"
    using added.prems(3) by (simp add: unat_word_ariths unat_of_nat del: of_nat_Suc)
  moreover have i1: "i + 1 = m + word_of_nat (Suc n)" by (simp add: i)
  ultimately have "unat (i + 1) = unat m + Suc n" by (simp only:)
  then have "i + 1 \<noteq> 0" by auto
  from AddAuthenticator_keeps [OF laws am inv(1) add this] show ?case unfolding i1 .
next
  case (removed n c0 c msg b c')
  obtain c1 account where c1: "sk_Get e (sx_state c1) = sk_Get e (sx_state c)"
      and rem: "RemoveAuthenticator e k account (mr_Id msg) c1 = Some (Inr (), c')"
    using msg_Remove_Inr [OF laws removed(2)] by blast
  have "records_inv e (sk_AuthenticatorManager k) (sx_state c1)" using removed records_inv_cong [OF c1] by simp
  from RemoveAuthenticator_keeps [OF laws this rem] removed next_id_cong [OF c1] show ?case by simp
next
  case (switched n c0 c msg c')
  note same = SetActiveState_keeps [OF laws switched(2)]
  from switched show ?case unfolding records_inv_cong [OF same] next_id_cong [OF same] by blast
next
  case (elsewhere n c0 c c')
  then show ?case unfolding records_inv_cong [OF elsewhere(2)] next_id_cong [OF elsewhere(2)] by blast
qed simp

lemma usable_selected:
  assumes laws: "sk_laws e" and inv: "records_inv e (sk_AuthenticatorManager k) (sx_state c)"
    and get: "sk_Get e (sx_state c) (KeyAccountId e account i) = Some bz"
  shows "\<exists>r c'. GetInitializedAuthenticatorForAccount e k account i c = Some (r, c') \<and>
    (case r of Inr ia \<Rightarrow> ia_Id ia = i | Inl err \<Rightarrow> fst (access e (KvGet (KeyAccountId e account i)) c) = Inl err)"
proof -
  obtain n where "next_id e (sx_state c) = Some n" using inv by (auto simp: records_inv_def)
  from records_invD [OF laws inv this get] obtain aa code a where aa: "cd_Unmarshal (sk_record e) bz = Inr aa" "aa_Id aa = i"
      "GetAuthenticatorByType (sk_AuthenticatorManager k) (aa_Type aa) = Some code"
      "Initialize (sk_auth e) (sk_AuthenticatorManager k) code (aa_Config aa) = Some (Inr a)"
    by (auto simp: usable_def)
  obtain r c1 where r: "access e (KvGet (KeyAccountId e account i)) c = (r, c1)" by (cases "access e (KvGet (KeyAccountId e account i)) c")
  with access_state get have "sk_Get e (sx_state c1) (KeyAccountId e account i) = Some bz" by metis
  with aa r show ?thesis
    by (cases r) (auto simp: GetInitializedAuthenticatorForAccount_def GetSelectedAuthenticatorData_def store_Get_def
        unmarshalAccountAuthenticator_def)
qed


subsection \<open>Contracts cannot be added\<close>

text \<open>C37. With the manager the application builds, an account can never add a contract authenticator: the
  contract keeper it was registered with is nil, so announcing the addition to the contract panics
  whatever the configuration, and fails before that if the configuration cannot be read.
\<close>

theorem contract_authenticator_never_added:
  fixes e :: "('s, 'g) SkEnv"
  shows "AddAuthenticator e (NewKeeper_sa gov app_manager) account ''CosmwasmAuthenticatorV1'' config c \<noteq> Some (Inr i, c')"
proof
  assume run: "AddAuthenticator e (NewKeeper_sa gov app_manager) account ''CosmwasmAuthenticatorV1'' config c = Some (Inr i, c')"
  have type': "GetAuthenticatorByType (sk_AuthenticatorManager (NewKeeper_sa gov (app_manager :: ('s, 'g) AuthenticatorManager))) ''CosmwasmAuthenticatorV1'' =
      Some (CosmwasmAuthenticator False [] [])"
    by (simp add: NewKeeper_sa_def GetAuthenticatorByType_def app_manager_eq)
  have never: "OnAuthenticatorAdded (sk_auth e) am (CosmwasmAuthenticator False [] []) account config x c1 \<noteq> Some (Inr (), c2)" for am x c1 c2
    by (subst OnAuthenticatorAdded.simps)
       (auto simp: Cosmwasm_OnAuthenticatorAdded_def bindw_Inr contract_sudo_def pure_check_def split: sum.splits)
  obtain r c1 where "InitializeOrGetNextAuthenticatorId e c = (r, c1)" by (cases "InitializeOrGetNextAuthenticatorId e c")
  with run type' never show False
    by (cases r) (auto simp: AddAuthenticator_def bind_eq_Some_conv bindw_Inr)
qed

subsection \<open>The remembered switch\<close>

definition active_value :: "('s, 'g) SkEnv \<Rightarrow> bytes \<Rightarrow> bool" where
  "active_value e bz = (case sk_jsonBool e bz of Inl _ \<Rightarrow> False | Inr v \<Rightarrow> v)"

definition switch_ok :: "('s, 'g) SkEnv \<Rightarrow> ('s, 'g) saKeeper \<Rightarrow> bool" where
  "switch_ok e k \<longleftrightarrow> sk_isSmartAccountActiveVal k = active_value e (sk_isSmartAccountActiveBz k)"

lemma switch_new: "\<not> active_value e [] \<Longrightarrow> switch_ok e (NewKeeper_sa gov am)"
  by (simp add: switch_ok_def NewKeeper_sa_def)

lemma switch_transparent:
  "switch_ok e k \<Longrightarrow> GetIsSmartAccountActive e k c =
    (case on_sdk (sk_GetRaw e KeyIsSmartAccountActive) c of
       (Inl err, c) \<Rightarrow> (Inl err, c)
     | (Inr bz, c) \<Rightarrow> (Inr (active_value e bz, k\<lparr>sk_isSmartAccountActiveVal := active_value e bz, sk_isSmartAccountActiveBz := bz\<rparr>), c))"
  by (auto simp: GetIsSmartAccountActive_def bindw_def switch_ok_def Let_def active_value_def split: prod.splits sum.splits)

lemma switch_kept: "switch_ok e k \<Longrightarrow> GetIsSmartAccountActive e k c = (Inr (b, k'), c') \<Longrightarrow> switch_ok e k'"
  by (auto simp: switch_transparent switch_ok_def split: prod.splits sum.splits)

subsection \<open>A concrete chain\<close>

definition addr_text :: "bytes \<Rightarrow> string" where
  "addr_text a = concat (map (\<lambda>b. [digit (unat b div 16), digit (unat b mod 16)]) a)"

lemma digit_inject: "a < 16 \<Longrightarrow> b < 16 \<Longrightarrow> digit a = digit b \<longleftrightarrow> a = b"
proof -
  assume "a < 16" "b < 16"
  then have "of_char (digit a) = 48 + a" "of_char (digit b) = 48 + b" by (simp_all add: digit_def)
  then show ?thesis by (metis add_left_cancel)
qed

lemma byte_nibbles: "unat (b :: byte) div 16 < 16" "unat b mod 16 < 16"
proof -
  have "unat b < 256" using unsigned_less [where ?'a = nat, of b] by simp
  then show "unat b div 16 < 16" "unat b mod 16 < 16" by simp_all
qed

lemma addr_text_inj: "inj addr_text"
proof (rule injI)
  fix a b assume "addr_text a = addr_text b"
  then show "a = b"
  proof (induction a arbitrary: b)
    case Nil
    then show ?case by (cases b) (auto simp: addr_text_def)
  next
    case (Cons x a)
    then obtain y b' where b: "b = y # b'" by (cases b) (auto simp: addr_text_def)
    with Cons.prems have "unat x div 16 = unat y div 16" "unat x mod 16 = unat y mod 16" "addr_text a = addr_text b'"
      by (auto simp: addr_text_def digit_inject byte_nibbles)
    then have "unat x = unat y" by (metis div_mult_mod_eq)
    with Cons.IH [OF \<open>addr_text a = _\<close>] b show ?case by (simp add: word_unat_eq_iff)
  qed
qed

lemma addr_text_no_bar: "CHR ''|'' \<notin> set (addr_text a)"
proof -
  have "CHR ''|'' \<noteq> digit d" if "d < 16" for d
  proof
    assume "CHR ''|'' = digit d"
    then have "of_char CHR ''|'' = (of_char (digit d) :: nat)" by (rule arg_cong)
    with that show False by (simp add: digit_def)
  qed
  then show ?thesis by (auto simp: addr_text_def byte_nibbles)
qed

definition pair_record :: AccountAuthenticator where
  "pair_record = \<lparr>aa_Id = 1, aa_Type = ''AnyOf'', aa_Config = pair_config\<rparr>"

definition sample_keeper :: "((bytes, bytes) alist, nat \<times> nat) SkEnv" where
  "sample_keeper = \<lparr>
     sk_auth = sample_auth,
     sk_Get = DAList.lookup,
     sk_Set = DAList.update,
     sk_Delete = DAList.delete,
     sk_Iter = alist_iter,
     sk_charge = (\<lambda>op s g. (Inr (), g)),
     sk_record = table_codec (SdkError ''proto'') [(pair_record, [1])],
     sk_uint = table_codec (SdkError ''proto'') [(1, [1]), (2, [2])],
     sk_AddrString = addr_text,
     sk_GetParamSet = (\<lambda>w. (Inr NewParams, w)),
     sk_SetParamSet = (\<lambda>p w. (if p = NewParams then Inr () else Inl (Panic (OtherPanic ''params'')), w)),
     sk_GetRaw = (\<lambda>k w. (Inr (str ''true''), w)),
     sk_jsonBool = (\<lambda>b. if b = str ''true'' then Inr True else Inl (SdkError ''json'')),
     sk_UnpackAny = (\<lambda>b. Inl (SdkError ''any''))\<rparr>"

lemma sample_keeper_simps [simp]:
  "sk_auth sample_keeper = sample_auth"
  "sk_Get sample_keeper = DAList.lookup"
  "sk_Set sample_keeper = DAList.update"
  "sk_Delete sample_keeper = DAList.delete"
  "sk_Iter sample_keeper = alist_iter"
  "sk_charge sample_keeper = (\<lambda>op s g. (Inr (), g))"
  "sk_record sample_keeper = table_codec (SdkError ''proto'') [(pair_record, [1])]"
  "sk_uint sample_keeper = table_codec (SdkError ''proto'') [(1, [1]), (2, [2])]"
  "sk_AddrString sample_keeper = addr_text"
  "sk_GetParamSet sample_keeper = (\<lambda>w. (Inr NewParams, w))"
  "sk_SetParamSet sample_keeper = (\<lambda>p w. (if p = NewParams then Inr () else Inl (Panic (OtherPanic ''params'')), w))"
  "sk_GetRaw sample_keeper = (\<lambda>k w. (Inr (str ''true''), w))"
  "sk_jsonBool sample_keeper = (\<lambda>b. if b = str ''true'' then Inr True else Inl (SdkError ''json''))"
  "sk_UnpackAny sample_keeper = (\<lambda>b. Inl (SdkError ''any''))"
  by (simp_all add: sample_keeper_def)

lemma sample_keeper_laws: "sk_laws sample_keeper"
proof -
  have "DAList.lookup (DAList.delete k s) k' = (if k' = k then None else DAList.lookup s k')" for k k' and s :: "(bytes, bytes) alist"
    by (simp add: DAList.lookup.rep_eq DAList.delete.rep_eq delete_conv')
  then show ?thesis
    by (auto simp: sk_laws_def alist_kv_laws codec_ok_table addr_text_inj addr_text_no_bar keeps_store_def)
qed

definition add_pair :: MsgAddAuthenticator where
  "add_pair = \<lparr>ma_Sender = ''alice'', ma_AuthenticatorType = ''AnyOf'', ma_Data = pair_config\<rparr>"

abbreviation sample_sa :: "((bytes, bytes) alist, nat \<times> nat) saKeeper" where
  "sample_sa \<equiv> NewKeeper_sa (str ''gov'') app_manager"

definition genesis_ctx :: "((bytes, bytes) alist, nat \<times> nat) sctx" where
  "genesis_ctx = calm\<lparr>sx_state := DAList.update KeyNextAccountAuthenticatorId [1] DAList.empty\<rparr>"

definition pair_ctx :: "((bytes, bytes) alist, nat \<times> nat) sctx" where
  "pair_ctx = calm\<lparr>sx_state := DAList.update (KeyAccountId sample_keeper (str ''alice'') 1) [1]
     (DAList.update KeyNextAccountAuthenticatorId [2] (sx_state genesis_ctx))\<rparr>"

lemmas sample_store = access_def store_Get_def store_Set_def MustSet_def types_Get_def on_sdk_def table_codec_def

lemma sample_genesis: "InitGenesis_sa sample_keeper sample_sa DefaultGenesis_sa calm = Some (Inr (), genesis_ctx)"
  by (simp add: InitGenesis_sa_def DefaultGenesis_sa_def SetParams_sa_def SetNextAuthenticatorId_def sample_store FirstAuthenticatorId_def
      genesis_ctx_def calm_def)

lemma sample_added: "msgServer_AddAuthenticator sample_keeper sample_sa add_pair genesis_ctx = Some (Inr True, pair_ctx)"
proof -
  have types: "GetAuthenticatorByType app_manager ''SignatureVerification'' = Some (SignatureVerification None)"
      "GetAuthenticatorByType app_manager ''AnyOf'' = Some (AnyOf [] Single)"
    by (simp_all add: GetAuthenticatorByType_def app_manager_eq)
  have part: "OnAuthenticatorAdded sample_auth app_manager (SignatureVerification None) a (key_of b) i c = Some (Inr (), c)" for a b i c
    by (subst OnAuthenticatorAdded.simps) (simp add: pure_check_def SignatureVerification_OnAuthenticatorAdded_def key_of_def PubKeySize_def)
  have any: "OnAuthenticatorAdded sample_auth app_manager (AnyOf [] Single) a pair_config i c = Some (Inr (), c)" for a i c
    by (subst OnAuthenticatorAdded.simps)
       (simp add: initDatas_checked_def pair_parts_def part types enumerate_simps)
  have act: "GetIsSmartAccountActive sample_keeper sample_sa genesis_ctx =
      (Inr (True, sample_sa\<lparr>sk_isSmartAccountActiveVal := True, sk_isSmartAccountActiveBz := str ''true''\<rparr>), genesis_ctx)"
    by (simp add: GetIsSmartAccountActive_def sample_store NewKeeper_sa_def)
  have add: "AddAuthenticator sample_keeper k (str ''alice'') ''AnyOf'' pair_config genesis_ctx = Some (Inr 1, pair_ctx)"
    if "sk_AuthenticatorManager k = app_manager" for k
    by (simp add: AddAuthenticator_def that any types InitializeOrGetNextAuthenticatorId_def SetNextAuthenticatorId_def sample_store
        lookup_update genesis_ctx_def pair_ctx_def pair_record_def)
  have "sk_AuthenticatorManager (sample_sa\<lparr>sk_isSmartAccountActiveVal := True, sk_isSmartAccountActiveBz := str ''true''\<rparr>) = app_manager"
    by (simp add: NewKeeper_sa_def)
  from add [OF this] act show ?thesis by (simp add: msgServer_AddAuthenticator_def add_pair_def)
qed


end
