(* ===== verification/Smart_Ante.thy ===== *)
theory Smart_Ante
  imports Smart_Keeper
begin

text \<open>
  The transaction side of \<open>x/smart-account\<close>: the request an authenticator is given
  (\<open>authenticator/authentication_request.go\<close>, \<open>replay_protection.go\<close>), the decorators before and after the
  messages (\<open>ante/ante.go\<close>, \<open>ante/circuit_breaker.go\<close>, \<open>ante/pubkey.go\<close>, \<open>post/post.go\<close>).

  A message is of type \<open>'m\<close>.  The interfaces a transaction may or may not implement are optional fields.
\<close>

subsection \<open>Transactions\<close>

datatype SignatureData =
    NoSignatureData
  | SingleSignatureData bytes
  | MultiSignatureData "SignatureData list"

record SignatureV2 =
  sv_Data :: SignatureData
  sv_Sequence :: u64

record FeeTx =
  ft_FeePayer :: bytes
  ft_FeeGranter :: bytes
  ft_Fee :: "Coin list"

record SigTx =
  st_Signatures :: "sa_error + SignatureV2 list"
  st_Signers :: "sa_error + bytes list"

record 'm SaTx =
  tx_Msgs :: "'m list"
  tx_FeeTx :: "FeeTx option"
  tx_SigTx :: "SigTx option"
  tx_NonCriticalExtensionOptions :: "bytes list option"
  tx_TimeoutHeight :: "u64 option"
  tx_Memo :: "string option"

record SignerData =
  sd_ChainID :: string
  sd_AccountNumber :: u64
  sd_Sequence :: u64

text \<open>
  \<open>at_NewGasMeter\<close> and \<open>at_GasConsumed\<close> are the meter of the SDK; \<open>at_GetAccount\<close> gives number and sequence of an
  account, or nil; \<open>at_CacheMultiStore\<close> says that the multi-store of the context can be written.
\<close>

record ('s, 'g, 'm) AnteEnv =
  at_keeper :: "('s, 'g) SkEnv"
  at_GetMsgV1Signers :: "'m \<Rightarrow> sa_error + bytes list"
  at_NewAnyWithValue :: "'m \<Rightarrow> sa_error + LocalAny"
  at_GetAccount :: "bytes \<Rightarrow> ('s, 'g, (u64 \<times> u64) option) sdk_call"
  at_GetSignBytes :: "SignerData \<Rightarrow> 'm SaTx \<Rightarrow> ('s, 'g, bytes) sdk_call"
  at_DeductFee :: "'m SaTx \<Rightarrow> bool \<Rightarrow> ('s, 'g, unit) sdk_call"
  at_NewGasMeter :: "u64 \<Rightarrow> 'g"
  at_GasConsumed :: "'g \<Rightarrow> u64"
  at_CacheMultiStore :: bool
  at_MarshalMultisig :: "bytes list \<Rightarrow> sa_error + bytes"
  at_base64 :: "bytes \<Rightarrow> string"

subsection \<open>The authentication request\<close>

definition SequenceMatch :: "ExplicitTxData \<Rightarrow> SignatureV2 \<Rightarrow> sa_error + unit" where
  "SequenceMatch txData signature = (if sv_Sequence signature \<noteq> etx_AccountSequence txData then Inl ErrInvalidSequence else Inr ())"

definition NoReplayProtection :: "ExplicitTxData \<Rightarrow> SignatureV2 \<Rightarrow> sa_error + unit" where
  "NoReplayProtection txData signature = Inr ()"

definition GetSignerAndSignatures :: "'m SaTx \<Rightarrow> sa_error + bytes list \<times> SignatureV2 list" where
  "GetSignerAndSignatures tx =
    (case tx_SigTx tx of
       None \<Rightarrow> Inl ErrTxDecode
     | Some sigTx \<Rightarrow> (case st_Signatures sigTx of
         Inl err \<Rightarrow> Inl err
       | Inr signatures \<Rightarrow> (case st_Signers sigTx of
           Inl err \<Rightarrow> Inl err
         | Inr signers \<Rightarrow> if length signatures \<noteq> length signers then Inl ErrTxDecode else Inr (signers, signatures))))"

definition getSignerData :: "('s, 'g, 'm) AnteEnv \<Rightarrow> bytes \<Rightarrow> ('s, 'g) sctx \<Rightarrow> ('s, 'g, SignerData) sa_result" where
  "getSignerData e account c =
    bindw (on_sdk (at_GetAccount e account) c) (\<lambda>baseAccount c.
    let genesis = (sx_BlockHeight c = 0)
    in if \<not> genesis \<and> baseAccount = None then (Inl (Panic NilPointer), c)
       else (Inr \<lparr>sd_ChainID = sx_ChainID c,
                  sd_AccountNumber = (if genesis then 0 else fst (the baseAccount)),
                  sd_Sequence = (case baseAccount of None \<Rightarrow> 0 | Some a \<Rightarrow> snd a)\<rparr>, c))"

fun encodeMsgs :: "('s, 'g, 'm) AnteEnv \<Rightarrow> 'm list \<Rightarrow> sa_error + LocalAny list" where
  "encodeMsgs e [] = Inr []"
| "encodeMsgs e (txMsg # rest) =
    (case at_NewAnyWithValue e txMsg of
       Inl err \<Rightarrow> Inl err
     | Inr encodedMsg \<Rightarrow> (case encodeMsgs e rest of Inl err \<Rightarrow> Inl err | Inr msgs \<Rightarrow> Inr (encodedMsg # msgs)))"

definition extractExplicitTxData :: "('s, 'g, 'm) AnteEnv \<Rightarrow> 'm SaTx \<Rightarrow> SignerData \<Rightarrow> sa_error + ExplicitTxData" where
  "extractExplicitTxData e tx signerData =
    (case tx_TimeoutHeight tx of
       None \<Rightarrow> Inl ErrInvalidType
     | Some timeoutHeight \<Rightarrow> (case tx_Memo tx of
         None \<Rightarrow> Inl ErrInvalidType
       | Some memo \<Rightarrow> (case encodeMsgs e (tx_Msgs tx) of
           Inl err \<Rightarrow> Inl err
         | Inr msgs \<Rightarrow> Inr \<lparr>etx_ChainID = sd_ChainID signerData, etx_AccountNumber = sd_AccountNumber signerData,
             etx_AccountSequence = sd_Sequence signerData, etx_TimeoutHeight = timeoutHeight, etx_Msgs = msgs, etx_Memo = memo\<rparr>)))"

text \<open>The loop over the signatures, with the signatures and the signature of the account found so far.\<close>

fun extractSignatures_from ::
  "bytes list \<Rightarrow> nat \<Rightarrow> ExplicitTxData \<Rightarrow> bytes \<Rightarrow> (ExplicitTxData \<Rightarrow> SignatureV2 \<Rightarrow> sa_error + unit) \<Rightarrow> bytes list \<Rightarrow> bytes \<Rightarrow>
   SignatureV2 list \<Rightarrow> sa_error + bytes list \<times> bytes" where
  "extractSignatures_from txSigners i txData account replayProtection signatures msgSignature [] = Inr (signatures, msgSignature)"
| "extractSignatures_from txSigners i txData account replayProtection signatures msgSignature (signature # rest) =
    (case sv_Data signature of
       SingleSignatureData single \<Rightarrow>
         if txSigners ! i = account
         then (case replayProtection txData signature of
             Inl err \<Rightarrow> Inl err
           | Inr _ \<Rightarrow> extractSignatures_from txSigners (Suc i) txData account replayProtection (signatures @ [single]) single rest)
         else extractSignatures_from txSigners (Suc i) txData account replayProtection (signatures @ [single]) msgSignature rest
     | _ \<Rightarrow> Inl ErrInvalidType)"

definition extractSignatures ::
  "bytes list \<Rightarrow> SignatureV2 list \<Rightarrow> ExplicitTxData \<Rightarrow> bytes \<Rightarrow> (ExplicitTxData \<Rightarrow> SignatureV2 \<Rightarrow> sa_error + unit) \<Rightarrow>
   sa_error + bytes list \<times> bytes" where
  "extractSignatures txSigners txSignatures txData account replayProtection =
    extractSignatures_from txSigners 0 txData account replayProtection [] [] txSignatures"

definition GenerateAuthenticationRequest ::
  "('s, 'g, 'm) AnteEnv \<Rightarrow> bytes \<Rightarrow> bytes \<Rightarrow> bytes \<Rightarrow> Coin list \<Rightarrow> 'm \<Rightarrow> 'm SaTx \<Rightarrow> nat \<Rightarrow> bool \<Rightarrow>
   (ExplicitTxData \<Rightarrow> SignatureV2 \<Rightarrow> sa_error + unit) \<Rightarrow> ('s, 'g) sctx \<Rightarrow> ('s, 'g, AuthenticationRequest) sa_result" where
  "GenerateAuthenticationRequest e account feePayer feeGranter fee msg tx msgIndex simulate replayProtection c =
    bindw (pure_check (at_GetMsgV1Signers e msg) c) (\<lambda>signers c.
    if signers = [] then (Inl (Panic (OtherPanic ''index out of range'')), c)
    else if hd signers \<noteq> account then (Inl ErrInvalidRequest, c)
    else bindw (pure_check (GetSignerAndSignatures tx) c) (\<lambda>(txSigners, txSignatures) c.
    bindw (getSignerData e account c) (\<lambda>signerData c.
    bindw (pure_check (extractExplicitTxData e tx signerData) c) (\<lambda>txData c.
    bindw (pure_check (extractSignatures txSigners txSignatures txData account replayProtection) c) (\<lambda>(signatures, msgSignature) c.
    let authRequest = \<lparr>rq_AuthenticatorId = [], rq_Account = account, rq_FeePayer = feePayer, rq_FeeGranter = feeGranter, rq_Fee = fee,
          rq_Msg = etx_Msgs txData ! msgIndex, rq_MsgIndex = word_of_nat msgIndex, rq_Signature = msgSignature,
          rq_SignModeTxData = \<lparr>smd_Direct = str ''signBytes'', smd_Textual = []\<rparr>, rq_TxData = txData,
          rq_SignatureData = \<lparr>ssd_Signers = txSigners, ssd_Signatures = signatures\<rparr>,
          rq_Simulate = simulate, rq_AuthenticatorParams = []\<rparr>
    in if simulate \<and> sx_IsCheckTx c then (Inr authRequest, c)
       else bindw (on_sdk (at_GetSignBytes e signerData tx) c) (\<lambda>signBytes c.
         (Inr (authRequest\<lparr>rq_SignModeTxData := \<lparr>smd_Direct = signBytes, smd_Textual = []\<rparr>\<rparr>), c)))))))"

subsection \<open>The circuit breaker\<close>

definition IsSelectedAuthenticatorTxExtensionMissing :: "('s, 'g, 'm) AnteEnv \<Rightarrow> 'm SaTx \<Rightarrow> bool \<times> u64 list option" where
  "IsSelectedAuthenticatorTxExtensionMissing e tx =
    (case tx_NonCriticalExtensionOptions tx of
       None \<Rightarrow> (True, None)
     | Some exts \<Rightarrow> (case GetAuthenticatorExtension (at_keeper e) exts of
         None \<Rightarrow> (True, None)
       | Some selected \<Rightarrow> if length selected < 1 then (True, None) else (False, Some selected)))"

definition IsCircuitBreakActive ::
  "('s, 'g, 'm) AnteEnv \<Rightarrow> ('s, 'g) saKeeper \<Rightarrow> 'm SaTx \<Rightarrow> ('s, 'g) sctx \<Rightarrow>
   ('s, 'g, (bool \<times> u64 list option) \<times> ('s, 'g) saKeeper) sa_result" where
  "IsCircuitBreakActive e k tx c =
    bindw (GetIsSmartAccountActive (at_keeper e) k c) (\<lambda>(isSmartAccountActive, k) c.
    if \<not> isSmartAccountActive then (Inr ((True, None), k), c)
    else (Inr (IsSelectedAuthenticatorTxExtensionMissing e tx, k), c))"

definition CircuitBreaker_AnteHandle ::
  "('s, 'g, 'm) AnteEnv \<Rightarrow> ('s, 'g) saKeeper \<Rightarrow> (('s, 'g) saKeeper \<Rightarrow> 'm SaTx \<Rightarrow> bool \<Rightarrow> ('s, 'g) sctx \<Rightarrow> 'r) \<Rightarrow>
   (('s, 'g) saKeeper \<Rightarrow> 'm SaTx \<Rightarrow> bool \<Rightarrow> ('s, 'g) sctx \<Rightarrow> 'r) \<Rightarrow> (sa_error \<Rightarrow> ('s, 'g) sctx \<Rightarrow> 'r) \<Rightarrow>
   'm SaTx \<Rightarrow> bool \<Rightarrow> ('s, 'g) sctx \<Rightarrow> 'r" where
  "CircuitBreaker_AnteHandle e k authenticatorFlow originalFlow raised tx simulate c =
    (case IsCircuitBreakActive e k tx c of
       (Inl err, c) \<Rightarrow> raised err c
     | (Inr ((active, _), k), c) \<Rightarrow> if active then originalFlow k tx simulate c else authenticatorFlow k tx simulate c)"

subsection \<open>Before the messages\<close>

definition ValidateAuthenticatorFeePayer :: "('s, 'g, 'm) AnteEnv \<Rightarrow> 'm SaTx \<Rightarrow> sa_error + unit" where
  "ValidateAuthenticatorFeePayer e tx =
    (case tx_FeeTx tx of
       None \<Rightarrow> Inl ErrTxDecode
     | Some feeTx \<Rightarrow> (case tx_Msgs tx of
         [] \<Rightarrow> Inl ErrTxDecode
       | msg # _ \<Rightarrow> (case at_GetMsgV1Signers e msg of
           Inl _ \<Rightarrow> Inl ErrUnauthorized_sa
         | Inr signers \<Rightarrow>
             if signers = [] then Inl ErrTxDecode
             else if ft_FeePayer feeTx \<noteq> hd signers then Inl ErrUnauthorized_sa else Inr ())))"

definition GetSelectedAuthenticators :: "('s, 'g, 'm) AnteEnv \<Rightarrow> 'm SaTx \<Rightarrow> nat \<Rightarrow> sa_error + u64 list" where
  "GetSelectedAuthenticators e tx msgCount =
    (case tx_NonCriticalExtensionOptions tx of
       None \<Rightarrow> Inl ErrTxDecode
     | Some exts \<Rightarrow> (case GetAuthenticatorExtension (at_keeper e) exts of
         None \<Rightarrow> Inl ErrInvalidRequest
       | Some selected \<Rightarrow> if length selected \<noteq> msgCount then Inl ErrInvalidRequest else Inr selected))"

text \<open>
  The variables of the loop: the context, the meter the transaction came with, the store below the
  context (what \<open>cacheMultiStore.Write\<close> writes to), whether the fees are paid, and the closures that call
  \<open>Track\<close>.
\<close>

record ('s, 'g) ante_loop =
  al_ctx :: "('s, 'g) sctx"
  al_originalGasMeter :: 'g
  al_parent :: 's
  al_feesPaid :: bool
  al_tracks :: "(('s, 'g) Authenticator \<times> AuthenticationRequest) list"

definition payFees ::
  "('s, 'g, 'm) AnteEnv \<Rightarrow> 'm SaTx \<Rightarrow> bool \<Rightarrow> bytes \<Rightarrow> bytes \<Rightarrow> ('s, 'g) ante_loop \<Rightarrow> (sa_error + unit) \<times> ('s, 'g) ante_loop" where
  "payFees e tx simulate account feePayer l =
    (if \<not> al_feesPaid l \<and> account = feePayer
     then (case sa_ConsumeGas (sk_auth (at_keeper e)) (at_GasConsumed e (sx_gas (al_ctx l))) (al_originalGasMeter l) of
         (Inl err, original) \<Rightarrow> (Inl err, l\<lparr>al_originalGasMeter := original\<rparr>)
       | (Inr _, original) \<Rightarrow> (case on_sdk (at_DeductFee e tx simulate) (al_ctx l) of
           (Inl err, c) \<Rightarrow> (Inl err, l\<lparr>al_ctx := c, al_originalGasMeter := original\<rparr>)
         | (Inr _, c) \<Rightarrow>
             if \<not> at_CacheMultiStore e then (Inl ErrPanic, l\<lparr>al_ctx := c, al_originalGasMeter := original\<rparr>)
             else (Inr (), l\<lparr>al_ctx := c\<lparr>sx_gas := original\<rparr>, al_originalGasMeter := original, al_parent := sx_state c,
                             al_feesPaid := True\<rparr>)))
     else (Inr (), l))"

text \<open>One message.  \<open>Authenticate\<close> runs on a cached state that is thrown away; its gas is used.\<close>

definition authenticateMsg ::
  "('s, 'g, 'm) AnteEnv \<Rightarrow> ('s, 'g) saKeeper \<Rightarrow> 'm SaTx \<Rightarrow> bool \<Rightarrow> bytes \<Rightarrow> FeeTx \<Rightarrow> u64 list \<Rightarrow> nat \<times> 'm \<Rightarrow>
   ('s, 'g) ante_loop \<Rightarrow> ((sa_error + unit) \<times> ('s, 'g) ante_loop) option" where
  "authenticateMsg e k tx simulate feePayer feeTx selected p l =
    (let msgIndex = fst p; msg = snd p
     in case at_GetMsgV1Signers e msg of
       Inl _ \<Rightarrow> Some (Inl ErrUnauthorized_sa, l)
     | Inr signers \<Rightarrow>
         if length signers \<noteq> 1 then Some (Inl ErrUnauthorized_sa, l)
         else let account = hd signers
              in Option.bind (GetInitializedAuthenticatorForAccount (at_keeper e) k account (selected ! msgIndex) (al_ctx l)) (\<lambda>(r, c).
                Some (bindw (r, l\<lparr>al_ctx := c\<rparr>) (\<lambda>sel l.
                  case GenerateAuthenticationRequest e account feePayer (ft_FeeGranter feeTx) (ft_Fee feeTx) msg tx msgIndex simulate
                      SequenceMatch (al_ctx l) of
                    (Inl err, c) \<Rightarrow> (Inl err, l\<lparr>al_ctx := c\<rparr>)
                  | (Inr request, c) \<Rightarrow>
                      let request = request\<lparr>rq_AuthenticatorId := Itoa (unat (ia_Id sel))\<rparr>;
                          ath = ia_Authenticator sel
                      in case ConsumeGas (sk_auth (at_keeper e)) (StaticGas ath) c of
                           (Inl err, c) \<Rightarrow> (Inl err, l\<lparr>al_ctx := c\<rparr>)
                         | (Inr _, c) \<Rightarrow> (case Authenticate (sk_auth (at_keeper e)) ath request c of
                             (authErr, neverWriteCtx) \<Rightarrow>
                               bindw (authErr, l\<lparr>al_ctx := c\<lparr>sx_gas := sx_gas neverWriteCtx\<rparr>\<rparr>) (\<lambda>_ l.
                               bindw (payFees e tx simulate account feePayer l) (\<lambda>_ l.
                               (Inr (), l\<lparr>al_tracks := al_tracks l @ [(ath, request)]\<rparr>))))))))"

fun runTracks ::
  "('s, 'g) SaEnv \<Rightarrow> (('s, 'g) Authenticator \<times> AuthenticationRequest) list \<Rightarrow> ('s, 'g) sctx \<Rightarrow> ('s, 'g, unit) sa_result" where
  "runTracks e [] c = (Inr (), c)"
| "runTracks e ((ath, request) # tracks) c = bindw (Track e ath request c) (\<lambda>_ c. runTracks e tracks c)"

definition recoverOutOfGas :: "(sa_error + unit) \<times> 'w \<Rightarrow> (sa_error + unit) \<times> 'w" where
  "recoverOutOfGas r = (case r of (Inl err, w) \<Rightarrow> (Inl (if err = Panic OutOfGas then ErrOutOfGas else err), w) | (Inr x, w) \<Rightarrow> (Inr x, w))"

text \<open>The body below the deferred \<open>recover\<close>.  The result carries the context and the store below it.\<close>

definition authenticateTx ::
  "('s, 'g, 'm) AnteEnv \<Rightarrow> ('s, 'g) saKeeper \<Rightarrow> ('m SaTx \<Rightarrow> bool \<Rightarrow> ('s, 'g) sctx \<Rightarrow> ('s, 'g, unit) sa_result) \<Rightarrow>
   'm SaTx \<Rightarrow> bool \<Rightarrow> ('s, 'g) ante_loop \<Rightarrow> ((sa_error + unit) \<times> ('s, 'g) sctx \<times> 's) option" where
  "authenticateTx e k next1 tx simulate l =
    (let fail = (\<lambda>err. Some (Inl err, al_ctx l, al_parent l))
     in case tx_Msgs tx of
       [] \<Rightarrow> fail ErrInvalidRequest
     | msg # _ \<Rightarrow> (case tx_FeeTx tx of
         None \<Rightarrow> fail ErrTxDecode
       | Some feeTx \<Rightarrow> (case at_GetMsgV1Signers e msg of
           Inl _ \<Rightarrow> fail ErrUnauthorized_sa
         | Inr [] \<Rightarrow> fail (Panic (OtherPanic ''index out of range''))
         | Inr (feePayer # _) \<Rightarrow> (case GetSelectedAuthenticators e tx (length (tx_Msgs tx)) of
             Inl err \<Rightarrow> fail err
           | Inr selected \<Rightarrow>
               Option.bind (each_part (authenticateMsg e k tx simulate feePayer feeTx selected) (enumerate 0 (tx_Msgs tx)) l) (\<lambda>(r, l).
               Some (case r of
                 Inl err \<Rightarrow> (Inl err, al_ctx l, al_parent l)
               | Inr _ \<Rightarrow>
                   (case bindw (runTracks (sk_auth (at_keeper e)) (al_tracks l) (al_ctx l)) (\<lambda>_ c. next1 tx simulate c) of
                      (r, c) \<Rightarrow> (r, c, al_parent l))))))))"

definition Authenticator_AnteHandle ::
  "('s, 'g, 'm) AnteEnv \<Rightarrow> ('s, 'g) saKeeper \<Rightarrow> ('m SaTx \<Rightarrow> bool \<Rightarrow> ('s, 'g) sctx \<Rightarrow> ('s, 'g, unit) sa_result) \<Rightarrow>
   'm SaTx \<Rightarrow> bool \<Rightarrow> ('s, 'g) sctx \<Rightarrow> 's \<Rightarrow> ((sa_error + unit) \<times> ('s, 'g) sctx \<times> 's) option" where
  "Authenticator_AnteHandle e k next1 tx simulate c parent =
    (case ValidateAuthenticatorFeePayer e tx of
       Inl err \<Rightarrow> Some (Inl err, c, parent)
     | Inr _ \<Rightarrow> (case GetParams_sa (at_keeper e) c of
         (Inl err, c) \<Rightarrow> Some (Inl err, c, parent)
       | (Inr params, c) \<Rightarrow>
           map_option recoverOutOfGas
             (authenticateTx e k next1 tx simulate
               \<lparr>al_ctx = c\<lparr>sx_gas := at_NewGasMeter e (sp_MaximumUnauthenticatedGas params)\<rparr>, al_originalGasMeter = sx_gas c,
                al_parent = parent, al_feesPaid = False, al_tracks = []\<rparr>)))"

subsection \<open>After the messages\<close>

definition confirmMsg ::
  "('s, 'g, 'm) AnteEnv \<Rightarrow> ('s, 'g) saKeeper \<Rightarrow> 'm SaTx \<Rightarrow> bool \<Rightarrow> FeeTx \<Rightarrow> u64 list \<Rightarrow> nat \<times> 'm \<Rightarrow>
   ('s, 'g) sctx \<Rightarrow> ('s, 'g, unit) sa_result option" where
  "confirmMsg e k tx simulate feeTx selected p c =
    (let msgIndex = fst p; msg = snd p
     in case at_GetMsgV1Signers e msg of
       Inl err \<Rightarrow> Some (Inl err, c)
     | Inr signers \<Rightarrow>
         if signers = [] \<or> \<not> msgIndex < length selected then Some (Inl (Panic (OtherPanic ''index out of range'')), c)
         else let account = hd signers
              in Option.bind (GetInitializedAuthenticatorForAccount (at_keeper e) k account (selected ! msgIndex) c) (\<lambda>r.
                Some (bindw r (\<lambda>sel c.
                bindw (GenerateAuthenticationRequest e account (ft_FeePayer feeTx) (ft_FeeGranter feeTx) (ft_Fee feeTx) msg tx msgIndex simulate
                  NoReplayProtection c) (\<lambda>request c.
                ConfirmExecution (sk_auth (at_keeper e)) (ia_Authenticator sel)
                  (request\<lparr>rq_AuthenticatorId := Itoa (unat (ia_Id sel))\<rparr>) c)))))"

text \<open>The handler runs its own next handler if the circuit breaker is active, and the one it is called with otherwise.\<close>

definition PostHandle ::
  "('s, 'g, 'm) AnteEnv \<Rightarrow> ('s, 'g) saKeeper \<Rightarrow> ('m SaTx \<Rightarrow> bool \<Rightarrow> bool \<Rightarrow> ('s, 'g) sctx \<Rightarrow> ('s, 'g, unit) sa_result) \<Rightarrow>
   ('m SaTx \<Rightarrow> bool \<Rightarrow> bool \<Rightarrow> ('s, 'g) sctx \<Rightarrow> ('s, 'g, unit) sa_result) \<Rightarrow> 'm SaTx \<Rightarrow> bool \<Rightarrow> bool \<Rightarrow>
   ('s, 'g) sctx \<Rightarrow> ('s, 'g, unit) sa_result option" where
  "PostHandle e k own_next next1 tx simulate success c =
    (case IsCircuitBreakActive e k tx c of
       (Inl err, c) \<Rightarrow> Some (Inl err, c)
     | (Inr ((active, txOptions), k), c) \<Rightarrow>
         if active then Some (own_next tx simulate success c)
         else (case tx_FeeTx tx of
             None \<Rightarrow> Some (Inl ErrTxDecode, c)
           | Some feeTx \<Rightarrow>
               Option.bind (each_part (confirmMsg e k tx simulate feeTx (case txOptions of None \<Rightarrow> [] | Some s \<Rightarrow> s)) (enumerate 0 (tx_Msgs tx)) c) (\<lambda>r.
               Some (bindw r (\<lambda>_ c. next1 tx simulate (if tx_Msgs tx = [] then success else True) c)))))"

subsection \<open>Events of the signatures\<close>

fun signatureDataToBz :: "('s, 'g, 'm) AnteEnv \<Rightarrow> SignatureData \<Rightarrow> sa_error + bytes list"
  and nestedSignatures :: "('s, 'g, 'm) AnteEnv \<Rightarrow> SignatureData list \<Rightarrow> sa_error + bytes list" where
  "signatureDataToBz e NoSignatureData = Inl (SaErrorf ''got empty SignatureData'')"
| "signatureDataToBz e (SingleSignatureData signature) = Inr [signature]"
| "signatureDataToBz e (MultiSignatureData signatures) =
    (case nestedSignatures e signatures of
       Inl err \<Rightarrow> Inl err
     | Inr sigs \<Rightarrow> (case at_MarshalMultisig e sigs of Inl err \<Rightarrow> Inl err | Inr aggregatedSig \<Rightarrow> Inr (sigs @ [aggregatedSig])))"
| "nestedSignatures e [] = Inr []"
| "nestedSignatures e (d # rest) =
    (case signatureDataToBz e d of
       Inl err \<Rightarrow> Inl err
     | Inr nestedSigs \<Rightarrow> (case nestedSignatures e rest of Inl err \<Rightarrow> Inl err | Inr sigs \<Rightarrow> Inr (nestedSigs @ sigs)))"

fun pubKeyEvents ::
  "('s, 'g, 'm) AnteEnv \<Rightarrow> bytes list \<Rightarrow> nat \<Rightarrow> SignatureV2 list \<Rightarrow> sa_error + (string \<times> string) list" where
  "pubKeyEvents e signers i [] = Inr []"
| "pubKeyEvents e signers i (sig # sigs) =
    (if \<not> i < length signers then Inl (Panic (OtherPanic ''index out of range''))
     else let accSeq = unstr (signers ! i) @ ''/'' @ Itoa (unat (sv_Sequence sig))
          in case signatureDataToBz e (sv_Data sig) of
            Inl err \<Rightarrow> Inl err
          | Inr sigBzs \<Rightarrow> (case pubKeyEvents e signers (Suc i) sigs of
              Inl err \<Rightarrow> Inl err
            | Inr events \<Rightarrow> Inr ([(''acc_seq'', accSeq), (''authenticator_acc_seq'', accSeq)] @
                concat (map (\<lambda>sigBz. [(''signature'', at_base64 e sigBz), (''authenticator_signature'', at_base64 e sigBz)]) sigBzs) @ events)))"

definition EmitPubKey_AnteHandle ::
  "('s, 'g, 'm) AnteEnv \<Rightarrow> ('m SaTx \<Rightarrow> bool \<Rightarrow> ('s, 'g) sctx \<Rightarrow> ('s, 'g, unit) sa_result) \<Rightarrow> 'm SaTx \<Rightarrow> bool \<Rightarrow>
   ('s, 'g) sctx \<Rightarrow> ('s, 'g, unit) sa_result \<times> (string \<times> string) list" where
  "EmitPubKey_AnteHandle e next1 tx simulate c =
    (case tx_SigTx tx of
       None \<Rightarrow> ((Inl ErrTxDecode, c), [])
     | Some sigTx \<Rightarrow> (case st_Signers sigTx of
         Inl err \<Rightarrow> ((Inl err, c), [])
       | Inr signers \<Rightarrow> (case st_Signatures sigTx of
           Inl err \<Rightarrow> ((Inl err, c), [])
         | Inr sigs \<Rightarrow> (case pubKeyEvents e signers 0 sigs of
             Inl err \<Rightarrow> ((Inl err, c), [])
           | Inr events \<Rightarrow> (next1 tx simulate c, events)))))"

end
