(* ===== verification/Smart_Txs.thy ===== *)
theory Smart_Txs
  imports Smart_Records Smart_Ante
begin

text \<open>
  What the authenticator decorator of \<open>x/smart-account\<close> guarantees: every message of a transaction that
  passes carries a signature that verifies under the stored key, and the fee is deducted exactly once.
\<close>

subsection \<open>What the SDK promises\<close>

text \<open>
  \<open>accts\<close> is what the account keeper holds in a state, \<open>signBytes\<close> what the sign mode handler makes of a
  transaction.  Neither reading them nor deducting a fee changes the accounts or the store of the module.
\<close>

definition keeps_view :: "('s, 'g, 'm) AnteEnv \<Rightarrow> ('s \<Rightarrow> 'v) \<Rightarrow> ('s, 'g, 'a) sdk_call \<Rightarrow> bool" where
  "keeps_view e accts f \<longleftrightarrow> (\<forall>s g. sk_Get (at_keeper e) (fst (snd (f (s, g)))) = sk_Get (at_keeper e) s \<and> accts (fst (snd (f (s, g)))) = accts s)"

definition ante_laws ::
  "('s, 'g, 'm) AnteEnv \<Rightarrow> ('s \<Rightarrow> bytes \<Rightarrow> (u64 \<times> u64) option) \<Rightarrow> (SignerData \<Rightarrow> 'm SaTx \<Rightarrow> bytes) \<Rightarrow> bool" where
  "ante_laws e accts signBytes \<longleftrightarrow>
    keeps_view e accts (sk_GetParamSet (at_keeper e)) \<and> (\<forall>a. keeps_view e accts (at_GetAccount e a)) \<and>
    (\<forall>d tx. keeps_view e accts (at_GetSignBytes e d tx)) \<and> (\<forall>tx b. keeps_view e accts (at_DeductFee e tx b)) \<and>
    (\<forall>a s g r w. at_GetAccount e a (s, g) = (Inr r, w) \<longrightarrow> r = accts s a) \<and>
    (\<forall>d tx w bz w'. at_GetSignBytes e d tx w = (Inr bz, w') \<longrightarrow> bz = signBytes d tx)"

definition ante_view ::
  "('s, 'g, 'm) AnteEnv \<Rightarrow> ('s \<Rightarrow> 'v) \<Rightarrow> ('s, 'g) sctx \<Rightarrow> (bytes \<Rightarrow> bytes option) \<times> 'v \<times> string \<times> i64 \<times> bool" where
  "ante_view e accts c = (sk_Get (at_keeper e) (sx_state c), accts (sx_state c), sx_ChainID c, sx_BlockHeight c, sx_IsReCheckTx c)"

text \<open>A view of a context that calls into the SDK, the gas meter aside, do not change.\<close>

definition sees :: "(('s, 'g) sctx \<Rightarrow> 'v) \<Rightarrow> ('s, 'g, 'a) sdk_call \<Rightarrow> bool" where
  "sees h f \<longleftrightarrow> (\<forall>c r c'. on_sdk f c = (r, c') \<longrightarrow> h c' = h c)"

definition gas_blind :: "(('s, 'g) sctx \<Rightarrow> 'v) \<Rightarrow> bool" where
  "gas_blind h \<longleftrightarrow> (\<forall>c g. h (c\<lparr>sx_gas := g\<rparr>) = h c)"

lemma sees_on_sdk: "sees h f \<Longrightarrow> on_sdk f c = (r, c') \<Longrightarrow> h c' = h c"
  by (auto simp: sees_def)

lemma sees_trans: "sees h f \<Longrightarrow> on_sdk f c = (r, c') \<Longrightarrow> h c = x \<Longrightarrow> h c' = x"
  by (auto simp: sees_def)

lemma keeps_view_sees: "keeps_view e accts f \<Longrightarrow> sees (ante_view e accts) f"
  by (auto simp: sees_def on_sdk_def keeps_view_def ante_view_def split: prod.splits) (metis fst_conv snd_conv)+

lemma ante_view_blind: "gas_blind (ante_view e accts)"
  by (simp add: gas_blind_def ante_view_def)

lemma ante_sees:
  assumes "ante_laws e accts signBytes"
  shows "sees (ante_view e accts) (sk_GetParamSet (at_keeper e))" "sees (ante_view e accts) (at_GetAccount e a)"
    "sees (ante_view e accts) (at_GetSignBytes e d tx)" "sees (ante_view e accts) (at_DeductFee e tx b)"
  using assms by (auto simp: ante_laws_def intro!: keeps_view_sees)

lemma access_sees: "gas_blind h \<Longrightarrow> access e op c = (r, c') \<Longrightarrow> h c' = h c"
  by (auto simp: access_def gas_blind_def split: prod.splits)

lemma ConsumeGas_sees: "gas_blind h \<Longrightarrow> ConsumeGas e n c = (r, c') \<Longrightarrow> h c' = h c"
  by (auto simp: ConsumeGas_def gas_blind_def split: prod.splits)

lemma selected_sees:
  assumes "gas_blind h" "GetInitializedAuthenticatorForAccount e k account i c = Some (r, c')"
  shows "h c' = h c"
proof -
  obtain x c1 where x: "access e (KvGet (KeyAccountId e account i)) c = (x, c1)" by (cases "access e (KvGet (KeyAccountId e account i)) c")
  obtain y c2 where y: "GetSelectedAuthenticatorData e account i c = (y, c2)" by (cases "GetSelectedAuthenticatorData e account i c")
  from x y have "c2 = c1"
    by (cases x) (auto simp: GetSelectedAuthenticatorData_def store_Get_def split: option.splits)
  moreover have "c' = c2"
  proof (cases y)
    case (Inr aa)
    show ?thesis
    proof (cases "GetAuthenticatorByType (sk_AuthenticatorManager k) (aa_Type aa)")
      case (Some code)
      with y Inr assms(2) obtain z where "Initialize (sk_auth e) (sk_AuthenticatorManager k) code (aa_Config aa) = Some z"
        by (auto simp: GetInitializedAuthenticatorForAccount_def bind_eq_Some_conv)
      with y Inr Some assms(2) show ?thesis by (cases z) (auto simp: GetInitializedAuthenticatorForAccount_def)
    qed (use y Inr assms(2) in \<open>auto simp: GetInitializedAuthenticatorForAccount_def\<close>)
  qed (use y assms(2) in \<open>auto simp: GetInitializedAuthenticatorForAccount_def\<close>)
  ultimately show ?thesis using access_sees [OF assms(1) x] by simp
qed

lemma request_sees:
  assumes "\<And>a. sees h (at_GetAccount e a)" "\<And>d. sees h (at_GetSignBytes e d tx)"
    and "GenerateAuthenticationRequest e account feePayer feeGranter fee msg tx i simulate replay c = (r, c')"
  shows "h c' = h c"
  using assms(3) unfolding GenerateAuthenticationRequest_def getSignerData_def Let_def pure_check_def
  by (elim bindw_keeps [where h = h])
     (auto elim!: bindw_keeps [where h = h] intro: sees_trans [OF assms(1)] sees_trans [OF assms(2)] split: if_splits prod.splits)

subsection \<open>One message\<close>

text \<open>Everything that happened when a message was authenticated in loop state \<open>l\<close>.\<close>

definition authenticated ::
  "('s, 'g, 'm) AnteEnv \<Rightarrow> ('s, 'g) saKeeper \<Rightarrow> 'm SaTx \<Rightarrow> bool \<Rightarrow> bytes \<Rightarrow> FeeTx \<Rightarrow> u64 list \<Rightarrow> nat \<Rightarrow> 'm \<Rightarrow>
   bytes \<Rightarrow> ('s, 'g) InitializedAuthenticator \<Rightarrow> AuthenticationRequest \<Rightarrow> ('s, 'g) sctx \<Rightarrow> ('s, 'g) sctx \<Rightarrow> ('s, 'g) sctx \<Rightarrow> ('s, 'g) sctx \<Rightarrow> ('s, 'g) sctx \<Rightarrow> bool" where
  "authenticated e k tx simulate feePayer feeTx selected i msg account sel request c0 c1 c2 c3 c4 \<longleftrightarrow>
    at_GetMsgV1Signers e msg = Inr [account] \<and>
    GetInitializedAuthenticatorForAccount (at_keeper e) k account (selected ! i) c0 = Some (Inr sel, c1) \<and>
    GenerateAuthenticationRequest e account feePayer (ft_FeeGranter feeTx) (ft_Fee feeTx) msg tx i simulate SequenceMatch c1 = (Inr request, c2) \<and>
    ConsumeGas (sk_auth (at_keeper e)) (StaticGas (ia_Authenticator sel)) c2 = (Inr (), c3) \<and>
    Authenticate (sk_auth (at_keeper e)) (ia_Authenticator sel) (request\<lparr>rq_AuthenticatorId := Itoa (unat (ia_Id sel))\<rparr>) c3 = (Inr (), c4)"

lemma authenticateMsg_Inr:
  assumes run: "authenticateMsg e k tx simulate feePayer feeTx selected (i, msg) l = Some (Inr (), l')"
  shows "\<exists>account sel request c1 c2 c3 c4 l1. authenticated e k tx simulate feePayer feeTx selected i msg account sel request (al_ctx l) c1 c2 c3 c4 \<and>
    payFees e tx simulate account feePayer (l\<lparr>al_ctx := c3\<lparr>sx_gas := sx_gas c4\<rparr>\<rparr>) = (Inr (), l1) \<and> al_ctx l' = al_ctx l1 \<and>
    al_parent l' = al_parent l1 \<and> al_feesPaid l' = al_feesPaid l1"
proof -
  from run obtain account where account: "at_GetMsgV1Signers e msg = Inr [account]"
    by (auto simp: authenticateMsg_def Let_def length_Suc_conv split: sum.splits if_splits)
  from run account obtain r c1 where sel: "GetInitializedAuthenticatorForAccount (at_keeper e) k account (selected ! i) (al_ctx l) = Some (r, c1)"
    by (auto simp: authenticateMsg_def bind_eq_Some_conv)
  from run account sel obtain sel where r: "r = Inr sel" by (cases r) (auto simp: authenticateMsg_def)
  obtain q c2 where req: "GenerateAuthenticationRequest e account feePayer (ft_FeeGranter feeTx) (ft_Fee feeTx) msg tx i simulate SequenceMatch c1 = (q, c2)"
    by (cases "GenerateAuthenticationRequest e account feePayer (ft_FeeGranter feeTx) (ft_Fee feeTx) msg tx i simulate SequenceMatch c1")
  from run account sel r req obtain request where q: "q = Inr request" by (cases q) (auto simp: authenticateMsg_def)
  obtain g c3 where gas: "ConsumeGas (sk_auth (at_keeper e)) (StaticGas (ia_Authenticator sel)) c2 = (g, c3)"
    by (cases "ConsumeGas (sk_auth (at_keeper e)) (StaticGas (ia_Authenticator sel)) c2")
  from run account sel r req q gas have g: "g = Inr ()" by (cases g) (auto simp: authenticateMsg_def)
  obtain a c4 where auth: "Authenticate (sk_auth (at_keeper e)) (ia_Authenticator sel) (request\<lparr>rq_AuthenticatorId := Itoa (unat (ia_Id sel))\<rparr>) c3 = (a, c4)"
    by (cases "Authenticate (sk_auth (at_keeper e)) (ia_Authenticator sel) (request\<lparr>rq_AuthenticatorId := Itoa (unat (ia_Id sel))\<rparr>) c3")
  from run account sel r req q gas g auth have a: "a = Inr ()"
      and pay: "\<exists>l1. payFees e tx simulate account feePayer (l\<lparr>al_ctx := c3\<lparr>sx_gas := sx_gas c4\<rparr>\<rparr>) = (Inr (), l1) \<and> al_ctx l' = al_ctx l1 \<and>
        al_parent l' = al_parent l1 \<and> al_feesPaid l' = al_feesPaid l1"
    by (cases a; auto simp: authenticateMsg_def Let_def bindw_Inr)+
  with account sel r req q gas g auth show ?thesis unfolding authenticated_def by blast
qed

lemma payFees_Inr:
  assumes run: "payFees e tx simulate account feePayer l = (Inr (), l1)"
  shows "l1 = l \<and> (al_feesPaid l \<or> account \<noteq> feePayer) \<or>
    (\<exists>c. \<not> al_feesPaid l \<and> account = feePayer \<and> on_sdk (at_DeductFee e tx simulate) (al_ctx l) = (Inr (), c) \<and> al_feesPaid l1 \<and>
      al_parent l1 = sx_state c \<and> (\<exists>g. al_ctx l1 = c\<lparr>sx_gas := g\<rparr>))"
proof (cases "\<not> al_feesPaid l \<and> account = feePayer")
  case True
  obtain x original where x: "sa_ConsumeGas (sk_auth (at_keeper e)) (at_GasConsumed e (sx_gas (al_ctx l))) (al_originalGasMeter l) = (x, original)"
    by (cases "sa_ConsumeGas (sk_auth (at_keeper e)) (at_GasConsumed e (sx_gas (al_ctx l))) (al_originalGasMeter l)")
  obtain y c where y: "on_sdk (at_DeductFee e tx simulate) (al_ctx l) = (y, c)" by (cases "on_sdk (at_DeductFee e tx simulate) (al_ctx l)")
  from run True x y show ?thesis by (cases x; cases y) (auto simp: payFees_def split: if_splits)
qed (use run in \<open>auto simp: payFees_def\<close>)

lemma authenticateMsg_sees:
  assumes blind: "gas_blind h" and sdk: "\<And>a. sees h (at_GetAccount e a)" "\<And>d. sees h (at_GetSignBytes e d tx)" "sees h (at_DeductFee e tx simulate)"
    and run: "authenticateMsg e k tx simulate feePayer feeTx selected (i, msg) l = Some (Inr (), l')"
  shows "h (al_ctx l') = h (al_ctx l)"
proof -
  obtain account sel request c1 c2 c3 c4 l1 where a: "authenticated e k tx simulate feePayer feeTx selected i msg account sel request (al_ctx l) c1 c2 c3 c4"
      and pay: "payFees e tx simulate account feePayer (l\<lparr>al_ctx := c3\<lparr>sx_gas := sx_gas c4\<rparr>\<rparr>) = (Inr (), l1)" and l': "al_ctx l' = al_ctx l1"
    using authenticateMsg_Inr [OF run] by blast
  note a = a [unfolded authenticated_def]
  have blind': "h (c\<lparr>sx_gas := g\<rparr>) = h c" for c g using blind by (simp add: gas_blind_def)
  have "h c3 = h (al_ctx l)"
    using selected_sees [OF blind a [THEN conjunct2, THEN conjunct1]] request_sees [OF sdk(1,2) a [THEN conjunct2, THEN conjunct2, THEN conjunct1]]
      ConsumeGas_sees [OF blind a [THEN conjunct2, THEN conjunct2, THEN conjunct2, THEN conjunct1]] by simp
  from payFees_Inr [OF pay] show ?thesis
  proof (elim disjE exE conjE)
    fix c g assume "on_sdk (at_DeductFee e tx simulate) (al_ctx (l\<lparr>al_ctx := c3\<lparr>sx_gas := sx_gas c4\<rparr>\<rparr>)) = (Inr (), c)" "al_ctx l1 = c\<lparr>sx_gas := g\<rparr>"
    with l' sees_on_sdk [OF sdk(3)] \<open>h c3 = _\<close> show ?thesis by (simp add: blind')
  qed (simp_all add: l' blind' \<open>h c3 = _\<close>)
qed

lemma each_part_all:
  "each_part f xs w = Some (Inr (), w') \<Longrightarrow> I w \<Longrightarrow>
    (\<And>x w w'. x \<in> set xs \<Longrightarrow> I w \<Longrightarrow> f x w = Some (Inr (), w') \<Longrightarrow> I w') \<Longrightarrow> x \<in> set xs \<Longrightarrow> \<exists>u u'. I u \<and> f x u = Some (Inr (), u')"
proof (induction xs arbitrary: w)
  case (Cons y xs)
  from Cons.prems(1) obtain r1 w1 where y: "f y w = Some (r1, w1)" by (cases "f y w") auto
  with Cons.prems(1) have r: "r1 = Inr ()" "each_part f xs w1 = Some (Inr (), w')" by (cases r1; auto)+
  show ?case
  proof (cases "x = y")
    case True
    with y r Cons.prems(2) show ?thesis by blast
  next
    case False
    have "I w1" by (rule Cons.prems(3) [of y w]) (use y r Cons.prems(2) in simp_all)
    moreover have "x \<in> set xs" using Cons.prems(4) False by simp
    ultimately show ?thesis using Cons.IH [OF r(2)] Cons.prems(3) by (meson list.set_intros(2))
  qed
qed simp

lemma extractSignatures_from_Inr:
  assumes "extractSignatures_from signers i txData account SequenceMatch done m sigs = Inr (ss, m')"
  shows "if \<exists>j < length sigs. signers ! (i + j) = account
    then \<exists>j < length sigs. signers ! (i + j) = account \<and> sv_Data (sigs ! j) = SingleSignatureData m' \<and> sv_Sequence (sigs ! j) = etx_AccountSequence txData
    else m' = m"
  using assms
proof (induction sigs arbitrary: i "done" m)
  case (Cons sg sigs)
  from Cons.prems obtain s where s: "sv_Data sg = SingleSignatureData s" by (cases "sv_Data sg") auto
  show ?case
  proof (cases "signers ! i = account")
    case True
    with Cons.prems s have match: "SequenceMatch txData sg = Inr ()"
        and rest: "extractSignatures_from signers (Suc i) txData account SequenceMatch (done @ [s]) s sigs = Inr (ss, m')"
      by (cases "SequenceMatch txData sg"; auto)+
    from match have seq: "sv_Sequence sg = etx_AccountSequence txData" by (auto simp: SequenceMatch_def split: if_splits)
    from Cons.IH [OF rest] True s seq show ?thesis by (auto simp: Ex_less_Suc2 split: if_splits)
  next
    case False
    with Cons.prems s have "extractSignatures_from signers (Suc i) txData account SequenceMatch (done @ [s]) m sigs = Inr (ss, m')" by simp
    from Cons.IH [OF this] False show ?thesis by (auto simp: Ex_less_Suc2 split: if_splits)
  qed
qed simp

subsection \<open>A signature was verified for every message\<close>

lemma request_Inr:
  assumes "GenerateAuthenticationRequest e account feePayer feeGranter fee msg tx i False SequenceMatch c = (Inr request, c')"
  shows "\<exists>st signers sigs data c1 c2 bz. tx_SigTx tx = Some st \<and> st_Signers st = Inr signers \<and> st_Signatures st = Inr sigs \<and>
    length sigs = length signers \<and> getSignerData e account c = (Inr data, c1) \<and> fst (on_sdk (at_GetSignBytes e data tx) c2) = Inr bz \<and>
    smd_Direct (rq_SignModeTxData request) = bz \<and> \<not> rq_Simulate request \<and> rq_Account request = account \<and>
    (account \<in> set signers \<longrightarrow> (\<exists>j < length signers. signers ! j = account \<and>
      sigs ! j = \<lparr>sv_Data = SingleSignatureData (rq_Signature request), sv_Sequence = sd_Sequence data\<rparr>))"
proof -
  from assms obtain txSigners txSignatures data c1 txData ss m bz c2 where
      sig: "GetSignerAndSignatures tx = Inr (txSigners, txSignatures)"
      and data: "getSignerData e account c = (Inr data, c1)"
      and txData: "extractExplicitTxData e tx data = Inr txData"
      and ex: "extractSignatures txSigners txSignatures txData account SequenceMatch = Inr (ss, m)"
      and sb: "on_sdk (at_GetSignBytes e data tx) c1 = (Inr bz, c2)"
      and rq: "smd_Direct (rq_SignModeTxData request) = bz" "\<not> rq_Simulate request" "rq_Account request = account" "rq_Signature request = m"
    by (auto simp: GenerateAuthenticationRequest_def bindw_Inr pure_check_def Let_def split: if_splits)
  from sig obtain st where st: "tx_SigTx tx = Some st" "st_Signers st = Inr txSigners" "st_Signatures st = Inr txSignatures" "length txSignatures = length txSigners"
    by (auto simp: GetSignerAndSignatures_def split: option.splits sum.splits if_splits)
  from txData have "etx_AccountSequence txData = sd_Sequence data"
    by (auto simp: extractExplicitTxData_def split: option.splits sum.splits)
  with extractSignatures_from_Inr [OF ex [unfolded extractSignatures_def]] st(4) rq(4)
  have "account \<in> set txSigners \<longrightarrow> (\<exists>j < length txSigners. txSigners ! j = account \<and>
      txSignatures ! j = \<lparr>sv_Data = SingleSignatureData (rq_Signature request), sv_Sequence = sd_Sequence data\<rparr>)"
    by (auto simp: in_set_conv_nth split: if_splits)
  with st data sb rq show ?thesis by (metis fst_conv)
qed

definition first_loop :: "('s, 'g, 'm) AnteEnv \<Rightarrow> SaParams \<Rightarrow> ('s, 'g) sctx \<Rightarrow> 's \<Rightarrow> ('s, 'g) ante_loop" where
  "first_loop e params c parent =
    \<lparr>al_ctx = c\<lparr>sx_gas := at_NewGasMeter e (sp_MaximumUnauthenticatedGas params)\<rparr>, al_originalGasMeter = sx_gas c,
     al_parent = parent, al_feesPaid = False, al_tracks = []\<rparr>"

lemma recoverOutOfGas_cases:
  "recoverOutOfGas (r, w) = (r', w') \<Longrightarrow> w' = w \<and> (r' = Inr () \<longleftrightarrow> r = Inr ())"
  by (cases r) (auto simp: recoverOutOfGas_def)

lemma authenticateTx_cases:
  assumes "authenticateTx e k next tx simulate l = Some (r, c', parent')"
  shows "parent' = al_parent l \<and> r \<noteq> Inr () \<or>
    (\<exists>msg msgs feeTx feePayer rest selected r1 l'. tx_Msgs tx = msg # msgs \<and> tx_FeeTx tx = Some feeTx \<and> at_GetMsgV1Signers e msg = Inr (feePayer # rest) \<and>
      GetSelectedAuthenticators e tx (length (tx_Msgs tx)) = Inr selected \<and>
      each_part (authenticateMsg e k tx simulate feePayer feeTx selected) (enumerate 0 (tx_Msgs tx)) l = Some (r1, l') \<and>
      parent' = al_parent l' \<and> (r = Inr () \<longrightarrow> r1 = Inr ()))"
proof (cases "tx_Msgs tx")
  case (Cons msg msgs)
  show ?thesis
  proof (cases "tx_FeeTx tx")
    case (Some feeTx)
    consider err where "at_GetMsgV1Signers e msg = Inl err" | "at_GetMsgV1Signers e msg = Inr []"
      | feePayer rest where "at_GetMsgV1Signers e msg = Inr (feePayer # rest)"
      by (metis list.exhaust sum.exhaust)
    then show ?thesis
    proof cases
      case (3 feePayer rest)
      show ?thesis
      proof (cases "GetSelectedAuthenticators e tx (length (tx_Msgs tx))")
        case (Inr selected)
        from assms Cons Some 3 Inr obtain r1 l' where loop:
            "each_part (authenticateMsg e k tx simulate feePayer feeTx selected) (enumerate 0 (tx_Msgs tx)) l = Some (r1, l')"
          by (auto simp: authenticateTx_def bind_eq_Some_conv)
        from assms Cons Some 3 Inr loop have "parent' = al_parent l' \<and> (r = Inr () \<longrightarrow> r1 = Inr ())"
          by (cases r1) (auto simp: authenticateTx_def split: prod.splits)
        with Cons Some 3 Inr loop show ?thesis by blast
      qed (use assms Cons Some 3 in \<open>auto simp: authenticateTx_def\<close>)
    qed (use assms Cons Some in \<open>auto simp: authenticateTx_def\<close>)
  qed (use assms Cons in \<open>auto simp: authenticateTx_def\<close>)
qed (use assms in \<open>auto simp: authenticateTx_def\<close>)

lemma AnteHandle_cases:
  assumes run: "Authenticator_AnteHandle e k next tx simulate c parent = Some (r, c', parent')"
  shows "parent' = parent \<and> r \<noteq> Inr () \<or>
    (\<exists>msg msgs feeTx feePayer rest selected params c0 r1 l'. GetParams_sa (at_keeper e) c = (Inr params, c0) \<and>
      tx_Msgs tx = msg # msgs \<and> tx_FeeTx tx = Some feeTx \<and> at_GetMsgV1Signers e msg = Inr (feePayer # rest) \<and>
      GetSelectedAuthenticators e tx (length (tx_Msgs tx)) = Inr selected \<and>
      each_part (authenticateMsg e k tx simulate feePayer feeTx selected) (enumerate 0 (tx_Msgs tx)) (first_loop e params c0 parent) = Some (r1, l') \<and>
      parent' = al_parent l' \<and> (r = Inr () \<longrightarrow> r1 = Inr ()))"
proof (cases "ValidateAuthenticatorFeePayer e tx")
  case (Inr u)
  obtain x c0 where x: "GetParams_sa (at_keeper e) c = (x, c0)" by (cases "GetParams_sa (at_keeper e) c")
  show ?thesis
  proof (cases x)
    case xp: (Inr params)
    from run Inr x xp obtain r0 w0 where body0: "authenticateTx e k next tx simulate (first_loop e params c0 parent) = Some (r0, w0)"
        and rec: "recoverOutOfGas (r0, w0) = (r, c', parent')"
      by (auto simp: Authenticator_AnteHandle_def first_loop_def)
    from recoverOutOfGas_cases [OF rec] body0 have body: "authenticateTx e k next tx simulate (first_loop e params c0 parent) = Some (r0, c', parent')"
        and r: "r = Inr () \<longleftrightarrow> r0 = Inr ()"
      by simp_all
    from x xp have params: "GetParams_sa (at_keeper e) c = (Inr params, c0)" by simp
    have "al_parent (first_loop e params c0 parent) = parent" by (simp add: first_loop_def)
    with authenticateTx_cases [OF body] r params show ?thesis by (elim disjE) (simp, blast)
  qed (use run Inr x in \<open>auto simp: Authenticator_AnteHandle_def\<close>)
qed (use run in \<open>auto simp: Authenticator_AnteHandle_def\<close>)


lemma ante_reads:
  assumes "ante_laws e accts signBytes"
  shows "on_sdk (at_GetAccount e a) c = (Inr b, c') \<Longrightarrow> b = accts (sx_state c) a"
    "on_sdk (at_GetSignBytes e d tx) c = (Inr bz, c') \<Longrightarrow> bz = signBytes d tx"
  using assms unfolding ante_laws_def on_sdk_def by (auto split: prod.splits) blast+

lemma on_sdk_context: "on_sdk f c = (r, c') \<Longrightarrow> sx_ChainID c' = sx_ChainID c \<and> sx_BlockHeight c' = sx_BlockHeight c \<and> sx_IsReCheckTx c' = sx_IsReCheckTx c"
  by (auto simp: on_sdk_def split: prod.splits)

lemma getSignerData_Inr:
  assumes "ante_laws e accts signBytes" "getSignerData e account c = (Inr data, c')"
  shows "data = \<lparr>sd_ChainID = sx_ChainID c,
    sd_AccountNumber = (if sx_BlockHeight c = 0 then 0 else fst (the (accts (sx_state c) account))),
    sd_Sequence = (case accts (sx_state c) account of None \<Rightarrow> 0 | Some a \<Rightarrow> snd a)\<rparr>"
proof -
  from assms(2) obtain b c1 where b: "on_sdk (at_GetAccount e account) c = (Inr b, c1)"
    by (auto simp: getSignerData_def bindw_Inr)
  have "b = accts (sx_state c) account" "sx_ChainID c1 = sx_ChainID c" "sx_BlockHeight c1 = sx_BlockHeight c"
    using ante_reads(1) [OF assms(1) b] on_sdk_context [OF b] by simp_all
  with assms(2) b show ?thesis by (auto simp: getSignerData_def Let_def split: if_splits)
qed

lemma signature_selected:
  assumes run: "GetInitializedAuthenticatorForAccount e k account i c = Some (Inr sel, c')"
    and stored: "sk_Get e (sx_state c) (KeyAccountId e account i) = Some bz" "unmarshalAccountAuthenticator e bz = Inr aa"
    and type': "GetAuthenticatorByType (sk_AuthenticatorManager k) (aa_Type aa) = Some (SignatureVerification p)"
  shows "ia_Authenticator sel = SignatureVerification (Some (aa_Config aa))"
proof -
  obtain r c1 where r: "GetSelectedAuthenticatorData e account i c = (r, c1)" by (cases "GetSelectedAuthenticatorData e account i c")
  with run obtain aa' where aa': "r = Inr aa'" by (cases r) (auto simp: GetInitializedAuthenticatorForAccount_def)
  with r stored have "aa' = aa" by (auto simp: GetSelectedAuthenticatorData_def bindw_Inr dest!: store_Get_Inr)
  with run r aa' type' show ?thesis
    by (auto simp: GetInitializedAuthenticatorForAccount_def Initialize.simps SignatureVerification_Initialize_def)
qed


lemma signature_verified:
  assumes "SignatureVerification_Authenticate e (Some key) request c = (Inr (), c')" "\<not> rq_Simulate request" "\<not> sx_IsReCheckTx c"
  shows "sa_VerifySignature e key (smd_Direct (rq_SignModeTxData request)) (rq_Signature request)"
proof -
  from assms(1) obtain cost c1 c2 where cost: "on_sdk (sa_SigVerifyCostSecp256k1 e) c = (Inr cost, c1)" and "ConsumeGas e cost c1 = (Inr (), c2)"
    by (auto simp: SignatureVerification_Authenticate_def bindw_Inr)
  moreover from this have "\<not> sx_IsReCheckTx c2"
    using assms(3) on_sdk_context [OF cost] by (auto simp: ConsumeGas_def split: prod.splits)
  ultimately show ?thesis using assms(1,2) by (auto simp: SignatureVerification_Authenticate_def split: if_splits)
qed

lemma message_authenticated:
  assumes laws: "ante_laws e accts signBytes" and run: "Authenticator_AnteHandle e k next1 tx simulate c parent = Some (Inr (), c', parent')"
    and selected: "GetSelectedAuthenticators e tx (length (tx_Msgs tx)) = Inr selected" and i: "i < length (tx_Msgs tx)"
  shows "\<exists>feePayer feeTx account sel request c0 c1 c2 c3 c4.
    authenticated e k tx simulate feePayer feeTx selected i (tx_Msgs tx ! i) account sel request c0 c1 c2 c3 c4 \<and>
    ante_view e accts c0 = ante_view e accts c \<and> ante_view e accts c1 = ante_view e accts c \<and> ante_view e accts c3 = ante_view e accts c"
proof -
  note sees' = ante_view_blind [of e accts] ante_sees(2,3,4) [OF laws]
  from AnteHandle_cases [OF run] selected obtain feeTx feePayer params c0 l' where params: "GetParams_sa (at_keeper e) c = (Inr params, c0)"
      and loop: "each_part (authenticateMsg e k tx simulate feePayer feeTx selected) (enumerate 0 (tx_Msgs tx)) (first_loop e params c0 parent) = Some (Inr (), l')"
    by auto
  define I where "I l \<longleftrightarrow> ante_view e accts (al_ctx l) = ante_view e accts c" for l :: "('a, 'b) ante_loop"
  have "ante_view e accts c0 = ante_view e accts c" by (rule sees_on_sdk [OF ante_sees(1) [OF laws] params [unfolded GetParams_sa_def]])
  then have start: "I (first_loop e params c0 parent)" by (simp add: I_def first_loop_def ante_view_def)
  have "(i, tx_Msgs tx ! i) \<in> set (enumerate 0 (tx_Msgs tx))" using i by (auto simp: in_set_enumerate_eq)
  from each_part_all [OF loop, of I, OF start _ this] obtain l l1 where I: "I l"
      and msg: "authenticateMsg e k tx simulate feePayer feeTx selected (i, tx_Msgs tx ! i) l = Some (Inr (), l1)"
    using authenticateMsg_sees [OF sees'] unfolding I_def by auto
  from authenticateMsg_Inr [OF msg] obtain account sel request c1 c2 c3 c4
    where a: "authenticated e k tx simulate feePayer feeTx selected i (tx_Msgs tx ! i) account sel request (al_ctx l) c1 c2 c3 c4"
    by blast
  then have "ante_view e accts c1 = ante_view e accts c" "ante_view e accts c3 = ante_view e accts c"
    using I selected_sees [OF sees'(1)] request_sees [OF sees'(2,3)] ConsumeGas_sees [OF sees'(1)] unfolding I_def authenticated_def by metis+
  with a I show ?thesis unfolding I_def by blast
qed

text \<open>C12. A transaction that passes the authenticator decorator, neither simulated nor checked again, carries
  for each of its messages a valid signature: if the authenticator selected for the message is a stored
  signature verification, one of the signatures the transaction gives for the signer of the message has
  the sequence of that account and verifies, under the stored key, over the sign bytes for that account,
  all read from the state the decorator started with.
\<close>

theorem ante_verifies_signatures:
  assumes laws: "ante_laws e accts signBytes"
    and run: "Authenticator_AnteHandle e k next1 tx False c parent = Some (Inr (), c', parent')" and fresh: "\<not> sx_IsReCheckTx c"
    and tx: "tx_SigTx tx = Some st" "st_Signers st = Inr signers" "st_Signatures st = Inr sigs"
    and selected: "GetSelectedAuthenticators e tx (length (tx_Msgs tx)) = Inr selected"
    and i: "i < length (tx_Msgs tx)" and signer: "at_GetMsgV1Signers e (tx_Msgs tx ! i) = Inr (account # rest)" "account \<in> set signers"
    and stored: "sk_Get (at_keeper e) (sx_state c) (KeyAccountId (at_keeper e) account (selected ! i)) = Some bz"
      "unmarshalAccountAuthenticator (at_keeper e) bz = Inr aa"
      "GetAuthenticatorByType (sk_AuthenticatorManager k) (aa_Type aa) = Some (SignatureVerification p)"
  shows "\<exists>j sig. j < length signers \<and> signers ! j = account \<and>
    (let sequence = (case accts (sx_state c) account of None \<Rightarrow> 0 | Some a \<Rightarrow> snd a);
         signerData = \<lparr>sd_ChainID = sx_ChainID c,
           sd_AccountNumber = (if sx_BlockHeight c = 0 then 0 else fst (the (accts (sx_state c) account))), sd_Sequence = sequence\<rparr>
     in sigs ! j = \<lparr>sv_Data = SingleSignatureData sig, sv_Sequence = sequence\<rparr> \<and>
        sa_VerifySignature (sk_auth (at_keeper e)) (aa_Config aa) (signBytes signerData tx) sig)"
proof -
  from message_authenticated [OF laws run selected i] obtain feePayer feeTx account' sel request c0 c1 c2 c3 c4
    where "authenticated e k tx False feePayer feeTx selected i (tx_Msgs tx ! i) account' sel request c0 c1 c2 c3 c4"
      and view: "ante_view e accts c0 = ante_view e accts c" "ante_view e accts c1 = ante_view e accts c" "ante_view e accts c3 = ante_view e accts c"
    by blast
  then have a: "account' = account"
      "GetInitializedAuthenticatorForAccount (at_keeper e) k account (selected ! i) c0 = Some (Inr sel, c1)"
      "GenerateAuthenticationRequest e account feePayer (ft_FeeGranter feeTx) (ft_Fee feeTx) (tx_Msgs tx ! i) tx i False SequenceMatch c1 = (Inr request, c2)"
      "ConsumeGas (sk_auth (at_keeper e)) (StaticGas (ia_Authenticator sel)) c2 = (Inr (), c3)"
      "Authenticate (sk_auth (at_keeper e)) (ia_Authenticator sel) (request\<lparr>rq_AuthenticatorId := Itoa (unat (ia_Id sel))\<rparr>) c3 = (Inr (), c4)"
    using signer by (auto simp: authenticated_def)
  have "sk_Get (at_keeper e) (sx_state c0) (KeyAccountId (at_keeper e) account (selected ! i)) = Some bz"
    using view(1) stored(1) by (simp add: ante_view_def)
  from signature_selected [OF a(2) this stored(2,3)] have sel: "ia_Authenticator sel = SignatureVerification (Some (aa_Config aa))" .
  from request_Inr [OF a(3)] tx signer(2) obtain data d1 d2 bz' j where data: "getSignerData e account c1 = (Inr data, d1)"
      and bytes: "fst (on_sdk (at_GetSignBytes e data tx) d2) = Inr bz'" "smd_Direct (rq_SignModeTxData request) = bz'" and sim: "\<not> rq_Simulate request"
      and j: "j < length signers" "signers ! j = account" "sigs ! j = \<lparr>sv_Data = SingleSignatureData (rq_Signature request), sv_Sequence = sd_Sequence data\<rparr>"
    by auto
  have "sa_VerifySignature (sk_auth (at_keeper e)) (aa_Config aa) bz' (rq_Signature request)"
    using signature_verified [OF a(5) [unfolded sel Authenticate.simps]] view(3) fresh sim bytes(2) by (simp add: ante_view_def)
  moreover have "bz' = signBytes data tx" using ante_reads(2) [OF laws] bytes(1) by (metis prod.collapse)
  ultimately show ?thesis using j getSignerData_Inr [OF laws data] view(2) by (auto simp: Let_def ante_view_def)
qed

subsection \<open>The fee\<close>

text \<open>\<open>fees\<close> counts the deducted fees of a state.\<close>

definition fee_laws :: "('s, 'g, 'm) AnteEnv \<Rightarrow> ('s \<Rightarrow> nat) \<Rightarrow> bool" where
  "fee_laws e fees \<longleftrightarrow>
    (\<forall>s g. fees (fst (snd (sk_GetParamSet (at_keeper e) (s, g)))) = fees s) \<and>
    (\<forall>a s g. fees (fst (snd (at_GetAccount e a (s, g)))) = fees s) \<and>
    (\<forall>d tx s g. fees (fst (snd (at_GetSignBytes e d tx (s, g)))) = fees s) \<and>
    (\<forall>tx b s g s' g'. at_DeductFee e tx b (s, g) = (Inr (), s', g') \<longrightarrow> fees s' = Suc (fees s))"

lemma fee_sees:
  assumes "fee_laws e fees"
  shows "sees (fees \<circ> sx_state) (sk_GetParamSet (at_keeper e))" "sees (fees \<circ> sx_state) (at_GetAccount e a)"
    "sees (fees \<circ> sx_state) (at_GetSignBytes e d tx)" "gas_blind (fees \<circ> sx_state)"
  using assms by (auto simp: fee_laws_def sees_def on_sdk_def gas_blind_def split: prod.splits) (metis fst_conv snd_conv)+

lemma fee_deducted: "fee_laws e fees \<Longrightarrow> on_sdk (at_DeductFee e tx b) c = (Inr (), c') \<Longrightarrow> fees (sx_state c') = Suc (fees (sx_state c))"
  by (auto simp: fee_laws_def on_sdk_def split: prod.splits) blast

lemma payFees_Inl: "payFees e tx simulate account feePayer l = (Inl err, l1) \<Longrightarrow> al_parent l1 = al_parent l"
  by (auto simp: payFees_def split: if_splits prod.splits sum.splits)

lemma authenticateMsg_Inl:
  assumes run: "authenticateMsg e k tx simulate feePayer feeTx selected (i, msg) l = Some (Inl err, l')"
  shows "al_parent l' = al_parent l"
proof (cases "\<exists>account. at_GetMsgV1Signers e msg = Inr [account]")
  case True
  then obtain account where account: "at_GetMsgV1Signers e msg = Inr [account]" by blast
  from run account obtain r c1 where sel: "GetInitializedAuthenticatorForAccount (at_keeper e) k account (selected ! i) (al_ctx l) = Some (r, c1)"
    by (auto simp: authenticateMsg_def bind_eq_Some_conv)
  show ?thesis
  proof (cases r)
    case r: (Inr sel)
    obtain q c2 where q: "GenerateAuthenticationRequest e account feePayer (ft_FeeGranter feeTx) (ft_Fee feeTx) msg tx i simulate SequenceMatch c1 = (q, c2)"
      by (cases "GenerateAuthenticationRequest e account feePayer (ft_FeeGranter feeTx) (ft_Fee feeTx) msg tx i simulate SequenceMatch c1")
    obtain g c3 where g: "ConsumeGas (sk_auth (at_keeper e)) (StaticGas (ia_Authenticator sel)) c2 = (g, c3)"
      by (cases "ConsumeGas (sk_auth (at_keeper e)) (StaticGas (ia_Authenticator sel)) c2")
    from run account sel r q g show ?thesis
      by (cases q; cases g) (auto simp: authenticateMsg_def Let_def bindw_def dest!: payFees_Inl split: prod.splits sum.splits)
  qed (use run account sel in \<open>auto simp: authenticateMsg_def\<close>)
qed (use run in \<open>auto simp: authenticateMsg_def length_Suc_conv split: sum.splits if_splits\<close>)

lemma paid_loop:
  "each_part (authenticateMsg e k tx simulate feePayer feeTx selected) ps l = Some (r, l') \<Longrightarrow> al_feesPaid l \<Longrightarrow> al_parent l' = al_parent l"
proof (induction ps arbitrary: l)
  case (Cons p ps)
  obtain i msg where p: "p = (i, msg)" by (cases p)
  from Cons.prems(1) obtain r1 l1 where x: "authenticateMsg e k tx simulate feePayer feeTx selected (i, msg) l = Some (r1, l1)"
    using p by (cases "authenticateMsg e k tx simulate feePayer feeTx selected p l") auto
  show ?case
  proof (cases r1)
    case (Inl err)
    with Cons.prems(1) x p authenticateMsg_Inl show ?thesis by auto
  next
    case (Inr u)
    with authenticateMsg_Inr [of e k tx simulate feePayer feeTx selected i msg l l1] x Cons.prems(2)
    have "al_parent l1 = al_parent l" "al_feesPaid l1" by (auto dest: payFees_Inr)
    with Cons Inr x p show ?thesis by auto
  qed
qed simp

lemma first_message_pays:
  assumes laws: "fee_laws e fees" and run: "authenticateMsg e k tx simulate feePayer feeTx selected (i, msg) l = Some (Inr (), l')"
    and unpaid: "\<not> al_feesPaid l" and payer: "at_GetMsgV1Signers e msg = Inr (feePayer # rest)"
  shows "al_feesPaid l' \<and> fees (al_parent l') = Suc (fees (sx_state (al_ctx l))) \<and>
    (\<exists>sel request c1 c2 c3 c4. authenticated e k tx simulate feePayer feeTx selected i msg feePayer sel request (al_ctx l) c1 c2 c3 c4)"
proof -
  note sees' = fee_sees [OF laws]
  from authenticateMsg_Inr [OF run] obtain account sel request c1 c2 c3 c4 l1
    where a: "authenticated e k tx simulate feePayer feeTx selected i msg account sel request (al_ctx l) c1 c2 c3 c4"
      and pay: "payFees e tx simulate account feePayer (l\<lparr>al_ctx := c3\<lparr>sx_gas := sx_gas c4\<rparr>\<rparr>) = (Inr (), l1)"
      and l': "al_parent l' = al_parent l1" "al_feesPaid l' = al_feesPaid l1"
    by blast
  from a payer have account: "account = feePayer" by (auto simp: authenticated_def)
  have "(fees \<circ> sx_state) c3 = (fees \<circ> sx_state) (al_ctx l)"
    using a selected_sees [OF sees'(4)] request_sees [OF sees'(2,3)] ConsumeGas_sees [OF sees'(4)] unfolding authenticated_def by metis
  with payFees_Inr [OF pay] account unpaid l' fee_deducted [OF laws] a show ?thesis by auto blast
qed

text \<open>C14. A transaction pays its fee exactly once: a transaction that passes the authenticator decorator has
  written to the store below a state in which one more fee was deducted; one that is refused either wrote
  nothing or paid one fee, and then its first message, whose signer is the payer, was authenticated.
\<close>

theorem fee_charged_once:
  assumes laws: "fee_laws e fees" and run: "Authenticator_AnteHandle e k next1 tx simulate c parent = Some (r, c', parent')"
  shows "(if r = Inr () then fees parent' = Suc (fees (sx_state c)) else parent' = parent \<or> fees parent' = Suc (fees (sx_state c))) \<and>
    (parent' = parent \<or> (\<exists>feePayer feeTx selected sel request c0 c1 c2 c3 c4.
      authenticated e k tx simulate feePayer feeTx selected 0 (hd (tx_Msgs tx)) feePayer sel request c0 c1 c2 c3 c4))"
  using AnteHandle_cases [OF run]
proof (elim disjE exE conjE)
  fix msg msgs feeTx feePayer rest selected params c0 r1 l'
  assume params: "GetParams_sa (at_keeper e) c = (Inr params, c0)" and msgs: "tx_Msgs tx = msg # msgs"
    and payer: "at_GetMsgV1Signers e msg = Inr (feePayer # rest)" and parent': "parent' = al_parent l'" and r: "r = Inr () \<longrightarrow> r1 = Inr ()"
    and loop: "each_part (authenticateMsg e k tx simulate feePayer feeTx selected) (enumerate 0 (tx_Msgs tx)) (first_loop e params c0 parent) = Some (r1, l')"
  let ?l = "first_loop e params c0 parent"
  have c0: "fees (sx_state c0) = fees (sx_state c)" using sees_on_sdk [OF fee_sees(1) [OF laws] params [unfolded GetParams_sa_def]] by simp
  have l: "\<not> al_feesPaid ?l" "al_parent ?l = parent" "sx_state (al_ctx ?l) = sx_state c0" by (simp_all add: first_loop_def)
  from loop msgs obtain r2 l2 where first: "authenticateMsg e k tx simulate feePayer feeTx selected (0, msg) ?l = Some (r2, l2)"
    by (cases "authenticateMsg e k tx simulate feePayer feeTx selected (0, msg) ?l") (auto simp: enumerate_simps)
  show ?thesis
  proof (cases r2)
    case (Inl err)
    with first loop msgs have "l' = l2 \<and> r1 = Inl err" by (simp add: enumerate_simps)
    moreover from first Inl have "al_parent l2 = al_parent ?l" by (simp add: authenticateMsg_Inl)
    ultimately show ?thesis using parent' l r by auto
  next
    case (Inr u)
    with first loop msgs have rest: "each_part (authenticateMsg e k tx simulate feePayer feeTx selected) (enumerate (Suc 0) msgs) l2 = Some (r1, l')"
      by (simp add: enumerate_simps)
    from first Inr have "authenticateMsg e k tx simulate feePayer feeTx selected (0, msg) ?l = Some (Inr (), l2)" by simp
    from first_message_pays [OF laws this l(1) payer] paid_loop [OF rest] parent' c0 l(3) msgs show ?thesis by auto
  qed
qed simp

subsection \<open>A concrete transaction\<close>

definition key_record :: AccountAuthenticator where
  "key_record = \<lparr>aa_Id = 1, aa_Type = ''SignatureVerification'', aa_Config = key_of 1\<rparr>"

definition sample_ante :: "((bytes, bytes) alist \<Rightarrow> (bytes, bytes) alist) \<Rightarrow> ((bytes, bytes) alist, nat \<times> nat, bytes) AnteEnv" where
  "sample_ante deduct = \<lparr>
     at_keeper = sample_keeper\<lparr>sk_record := table_codec (SdkError ''proto'') [(key_record, [1])], sk_UnpackAny := (\<lambda>b. Inr (Some [1]))\<rparr>,
     at_GetMsgV1Signers = (\<lambda>m. Inr [m]),
     at_NewAnyWithValue = (\<lambda>m. Inr \<lparr>la_TypeURL = ''msg'', la_Value = m\<rparr>),
     at_GetAccount = (\<lambda>a w. (Inr (Some (4, 3)), w)),
     at_GetSignBytes = (\<lambda>d tx w. (Inr [7], w)),
     at_DeductFee = (\<lambda>tx simulate (s, g). (Inr (), deduct s, g)),
     at_NewGasMeter = (\<lambda>n. (unat n, 0)),
     at_GasConsumed = (\<lambda>(limit, used). word_of_nat used),
     at_CacheMultiStore = True,
     at_MarshalMultisig = (\<lambda>sigs. Inr (concat sigs)),
     at_base64 = (\<lambda>b. [])\<rparr>"

lemma sample_ante_simps [simp]:
  "at_keeper (sample_ante deduct) = sample_keeper\<lparr>sk_record := table_codec (SdkError ''proto'') [(key_record, [1])], sk_UnpackAny := (\<lambda>b. Inr (Some [1]))\<rparr>"
  "at_GetMsgV1Signers (sample_ante deduct) = (\<lambda>m. Inr [m])"
  "at_NewAnyWithValue (sample_ante deduct) = (\<lambda>m. Inr \<lparr>la_TypeURL = ''msg'', la_Value = m\<rparr>)"
  "at_GetAccount (sample_ante deduct) = (\<lambda>a w. (Inr (Some (4, 3)), w))"
  "at_GetSignBytes (sample_ante deduct) = (\<lambda>d tx w. (Inr [7], w))"
  "at_DeductFee (sample_ante deduct) = (\<lambda>tx simulate (s, g). (Inr (), deduct s, g))"
  "at_NewGasMeter (sample_ante deduct) = (\<lambda>n. (unat n, 0))"
  "at_GasConsumed (sample_ante deduct) = (\<lambda>(limit, used). word_of_nat used)"
  "at_CacheMultiStore (sample_ante deduct) = True"
  "at_MarshalMultisig (sample_ante deduct) = (\<lambda>sigs. Inr (concat sigs))"
  "at_base64 (sample_ante deduct) = (\<lambda>b. [])"
  by (simp_all add: sample_ante_def)


definition key_tx :: "bytes SaTx" where
  "key_tx = \<lparr>tx_Msgs = [str ''alice''], tx_FeeTx = Some \<lparr>ft_FeePayer = str ''alice'', ft_FeeGranter = [], ft_Fee = []\<rparr>,
     tx_SigTx = Some \<lparr>st_Signatures = Inr [\<lparr>sv_Data = SingleSignatureData (key_of 1 @ [7]), sv_Sequence = 3\<rparr>], st_Signers = Inr [str ''alice'']\<rparr>,
     tx_NonCriticalExtensionOptions = Some [[1]], tx_TimeoutHeight = Some 0, tx_Memo = Some []\<rparr>"

definition key_ctx :: "((bytes, bytes) alist, nat \<times> nat) sctx" where
  "key_ctx = calm\<lparr>sx_state := DAList.update (KeyAccountId sample_keeper (str ''alice'') 1) [1] DAList.empty\<rparr>"

lemma KeyAccountId_record [simp]: "KeyAccountId (e\<lparr>sk_record := x, sk_UnpackAny := y\<rparr>) = KeyAccountId e"
  by (simp add: KeyAccountId_def fun_eq_iff)

lemma key_passes: "\<exists>c. Authenticator_AnteHandle (sample_ante deduct) sample_sa (\<lambda>tx simulate c. (Inr (), c)) key_tx False key_ctx DAList.empty =
    Some (Inr (), c, deduct (sx_state key_ctx))"
proof -
  let ?e = "sample_ante deduct"
  have type': "GetAuthenticatorByType app_manager ''SignatureVerification'' = Some (SignatureVerification None)"
    by (simp add: GetAuthenticatorByType_def app_manager_eq)
  have sel: "GetInitializedAuthenticatorForAccount (at_keeper ?e) sample_sa (str ''alice'') 1 (key_ctx\<lparr>sx_gas := g\<rparr>) =
      Some (Inr \<lparr>ia_Id = 1, ia_Authenticator = SignatureVerification (Some (key_of 1))\<rparr>, key_ctx\<lparr>sx_gas := g\<rparr>)" for g
    by (simp add: GetInitializedAuthenticatorForAccount_def GetSelectedAuthenticatorData_def sample_store lookup_update key_ctx_def
        unmarshalAccountAuthenticator_def key_record_def NewKeeper_sa_def type' Initialize.simps SignatureVerification_Initialize_def)
  let ?msg = "str ''alice''" and ?feeTx = "\<lparr>ft_FeePayer = str ''alice'', ft_FeeGranter = [], ft_Fee = []\<rparr>"
  have req: "\<exists>request. GenerateAuthenticationRequest ?e ?msg ?msg [] [] ?msg key_tx 0 False SequenceMatch (key_ctx\<lparr>sx_gas := g\<rparr>) =
      (Inr request, key_ctx\<lparr>sx_gas := g\<rparr>) \<and> rq_Signature request = key_of 1 @ [7] \<and> smd_Direct (rq_SignModeTxData request) = [7]" for g
    by (simp add: GenerateAuthenticationRequest_def pure_check_def getSignerData_def on_sdk_def key_tx_def GetSignerAndSignatures_def
        extractExplicitTxData_def extractSignatures_def SequenceMatch_def key_ctx_def calm_def)
  have auth: "SignatureVerification_Authenticate sample_auth (Some (key_of 1)) request (key_ctx\<lparr>sx_gas := (120000, 0)\<rparr>) = (Inr (), key_ctx\<lparr>sx_gas := (120000, 10)\<rparr>)"
    if "rq_Signature request = key_of 1 @ [7]" "smd_Direct (rq_SignModeTxData request) = [7]" for request
    using that by (simp add: SignatureVerification_Authenticate_def on_sdk_def ConsumeGas_def key_ctx_def calm_def)
  let ?l = "first_loop ?e NewParams key_ctx DAList.empty"
  have l: "al_ctx ?l = key_ctx\<lparr>sx_gas := (120000, 0)\<rparr>" "al_originalGasMeter ?l = (100, 0)" "\<not> al_feesPaid ?l" "al_tracks ?l = []"
    by (simp_all add: first_loop_def NewParams_def key_ctx_def calm_def)
  obtain request where request: "GenerateAuthenticationRequest ?e ?msg ?msg [] [] ?msg key_tx 0 False SequenceMatch (key_ctx\<lparr>sx_gas := (120000, 0)\<rparr>) =
      (Inr request, key_ctx\<lparr>sx_gas := (120000, 0)\<rparr>)" "rq_Signature request = key_of 1 @ [7]" "smd_Direct (rq_SignModeTxData request) = [7]"
    using req by blast
  have msg: "\<exists>l'. authenticateMsg ?e sample_sa key_tx False ?msg ?feeTx [1] (0, ?msg) ?l = Some (Inr (), l') \<and>
      al_parent l' = deduct (sx_state key_ctx) \<and> (\<exists>r. al_tracks l' = [(SignatureVerification (Some (key_of 1)), r)])"
    using request sel [of "(120000, 0)"] auth [of "request\<lparr>rq_AuthenticatorId := Itoa (unat 1)\<rparr>"]
    by (simp add: authenticateMsg_def l ConsumeGas_def payFees_def on_sdk_def)
  then obtain l' r where l': "authenticateMsg ?e sample_sa key_tx False ?msg ?feeTx [1] (0, ?msg) ?l = Some (Inr (), l')"
      "al_parent l' = deduct (sx_state key_ctx)" "al_tracks l' = [(SignatureVerification (Some (key_of 1)), r)]"
    by blast
  have "ValidateAuthenticatorFeePayer ?e key_tx = Inr ()" "GetParams_sa (at_keeper ?e) key_ctx = (Inr NewParams, key_ctx)"
      "GetSelectedAuthenticators ?e key_tx (Suc 0) = Inr [1]" "tx_Msgs key_tx = [?msg]" "tx_FeeTx key_tx = Some ?feeTx"
    by (simp_all add: ValidateAuthenticatorFeePayer_def GetParams_sa_def on_sdk_def GetSelectedAuthenticators_def key_tx_def)
  then show ?thesis
    using l' by (simp add: Authenticator_AnteHandle_def authenticateTx_def enumerate_simps first_loop_def recoverOutOfGas_def)
qed

theorem ante_verifies_signatures_witness:
  "\<exists>st sigs sig. tx_SigTx key_tx = Some st \<and> st_Signatures st = Inr sigs \<and> sigs ! 0 = \<lparr>sv_Data = SingleSignatureData sig, sv_Sequence = 3\<rparr> \<and>
    sa_VerifySignature sample_auth (key_of 1) [7] sig"
proof -
  have laws: "ante_laws (sample_ante id) (\<lambda>s a. Some (4, 3)) (\<lambda>d tx. [7])"
    by (auto simp: ante_laws_def keeps_view_def)
  obtain c where run: "Authenticator_AnteHandle (sample_ante id) sample_sa (\<lambda>tx simulate c. (Inr (), c)) key_tx False key_ctx DAList.empty =
      Some (Inr (), c, sx_state key_ctx)"
    using key_passes [of id] by auto
  have "sk_Get (at_keeper (sample_ante id)) (sx_state key_ctx) (KeyAccountId (at_keeper (sample_ante id)) (str ''alice'') ([1] ! 0)) = Some [1]"
    by (simp add: key_ctx_def lookup_update)
  moreover have "unmarshalAccountAuthenticator (at_keeper (sample_ante id)) [1] = Inr key_record"
    by (simp add: unmarshalAccountAuthenticator_def table_codec_def)
  moreover have "GetAuthenticatorByType (sk_AuthenticatorManager sample_sa) (aa_Type key_record) = Some (SignatureVerification None)"
    by (simp add: NewKeeper_sa_def GetAuthenticatorByType_def app_manager_eq key_record_def)
  ultimately show ?thesis
    using ante_verifies_signatures [OF laws run, of _ "[str ''alice'']" "[\<lparr>sv_Data = SingleSignatureData (key_of 1 @ [7]), sv_Sequence = 3\<rparr>]" "[1]" 0 "str ''alice''" "[]" "[1]" key_record None]
    by (auto simp: key_tx_def GetSelectedAuthenticators_def key_ctx_def calm_def Let_def key_record_def)
qed

definition count_fee :: "(bytes, bytes) alist \<Rightarrow> (bytes, bytes) alist" where
  "count_fee s = DAList.update [] (0 # (case DAList.lookup s [] of None \<Rightarrow> [] | Some b \<Rightarrow> b)) s"

definition counted_fees :: "(bytes, bytes) alist \<Rightarrow> nat" where
  "counted_fees s = length (case DAList.lookup s [] of None \<Rightarrow> [] | Some b \<Rightarrow> b)"

theorem fee_charged_once_witness:
  "\<exists>c. Authenticator_AnteHandle (sample_ante count_fee) sample_sa (\<lambda>tx simulate c. (Inr (), c)) key_tx False key_ctx DAList.empty =
     Some (Inr (), c, count_fee (sx_state key_ctx)) \<and> counted_fees (count_fee (sx_state key_ctx)) = Suc (counted_fees (sx_state key_ctx))"
proof -
  have laws: "fee_laws (sample_ante count_fee) counted_fees"
    by (auto simp: fee_laws_def count_fee_def counted_fees_def lookup_update)
  from key_passes [of count_fee] obtain c where run: "Authenticator_AnteHandle (sample_ante count_fee) sample_sa (\<lambda>tx simulate c. (Inr (), c)) key_tx False
      key_ctx DAList.empty = Some (Inr (), c, count_fee (sx_state key_ctx))" by blast
  from fee_charged_once [OF laws run] run show ?thesis by auto
qed

end
