(* ===== verification/Spec2Isabelle.thy ===== *)
theory Spec2Isabelle
  imports Lean_Driver Lean_Registry Lean_App Hash_Votes Token_Laws Smart_Txs
begin

text \<open>
  Terp Network, the lean validator set: a verification of the module \<open>x/leanval\<close>, of its place in the
  application and of the driver of its consensus engine.

  \<^bold>\<open>The program.\<close> The module keeps a roster of validators in the store of the chain: a bitfield of active
  members, a deposit index per subject and one byte of effective balance per index. The roster
  changes by LNPR blobs, which a proposer injects into its block: rows of subject, weight and proof,
  built from the roster and from queued JOIN and LEAV transactions. Validators check a proposed LNPR,
  every node verifies it again before the block (\<open>PreBlocker\<close>) and applies it after the transactions
  (\<open>EndBlocker\<close>), and the difference in voting power goes to the consensus engine. The engine is
  CometBFT or Commonware simplex; for the latter \<open>x/leanval/cwffi\<close> reads the participants from the
  store, maps engine calls to ABCI calls and stores certified blocks.

  \<^bold>\<open>The theories\<close>, in import order, with the files under \<open>src/\<close> they model:
  \<^item> \<open>Prelude\<close>: byte strings, big-endian integers, prefixes, list and word lemmas, and the collections
    \<open>wire_simps\<close>, \<open>key_simps\<close> and \<open>frame_simps\<close>.
  \<^item> \<open>Lean_Keys\<close> (\<open>x/leanval/types/keys.go\<close>, \<open>errors.go\<close>): store keys, classes, periods, errors.
  \<^item> \<open>Lean_Wire\<close> (\<open>types/lnpr.go\<close>, \<open>membership.go\<close>, \<open>ssle.go\<close>): the transaction formats; locales
    \<open>framed_codec\<close> and \<open>codec_pair\<close>, interpreted for each format.
  \<^item> \<open>Lean_Pairs\<close> (\<open>types/pairs.go\<close>, \<open>genesis.go\<close>, \<open>query.go\<close>): the decoder of query answers; genesis types.
  \<^item> \<open>Lean_Store\<close> (\<open>keeper/store.go\<close>): the store; locale \<open>kv_store\<close>.
  \<^item> \<open>Lean_Bits\<close> (\<open>keeper/bitfield.go\<close>, \<open>merkle.go\<close>, \<open>roots.go\<close>): bits, indices, balances, object roots.
  \<^item> \<open>Lean_Roster\<close>: the abstract roster (a list of members with flag and balance), its invariant, and
    the refinement of the store operations; no code of its own.
  \<^item> \<open>Lean_Power\<close> (\<open>keeper/power.go\<close>, \<open>membership.go\<close>, \<open>pending.go\<close>): bonded rows and their carry-over, validator
    updates, JOIN and LEAV.
  \<^item> \<open>Lean_Stwo\<close> (\<open>keeper/dummy_stwo.go\<close>, \<open>fold_verify.go\<close>, \<open>ssle.go\<close>, \<open>valset_stwo.go\<close>, \<open>verifier.go\<close>): proofs;
    locale \<open>proof_verifier\<close>.
  \<^item> \<open>Lean_Keeper\<close> (\<open>keeper/keeper.go\<close>, \<open>genesis.go\<close>, \<open>bind.go\<close>, \<open>membership.go\<close>): the keeper, genesis, the queue.
  \<^item> \<open>Lean_Abci\<close> (\<open>keeper/abci.go\<close>, \<open>power.go\<close>, \<open>prove.go\<close>): proposals, verification and application of LNPR.
  \<^item> \<open>Lean_Registry\<close> (\<open>keeper/daily.go\<close>, \<open>withdraw.go\<close>, \<open>privacy.go\<close>): daily keys and hidden withdrawals;
    locales \<open>named_proof\<close> and \<open>two_named_proofs\<close>.
  \<^item> \<open>Lean_App\<close> (\<open>x/leanval/*.go\<close>, \<open>ante/reject_sudo.go\<close>, \<open>keeper/fusion.go\<close>, \<open>sdk_wrap.go\<close>, \<open>app/app.go\<close>): decoder,
    CheckTx, module wrappers, block hooks, and the chain they make.
  \<^item> \<open>Lean_Cert\<close> (\<open>cwffi/payload.go\<close>, \<open>cert.go\<close>, \<open>crates/lean-cw-ffi/src/cert.rs\<close>, \<open>scheme.rs\<close>): payloads, certificates,
    weight tests; locale \<open>weighted_voters\<close>.
  \<^item> \<open>Lean_Participants\<close> (\<open>cwffi/participants.go\<close>) and \<open>Lean_Driver\<close> (\<open>cwffi/driver.go\<close>): the engine side.

  \<^bold>\<open>State.\<close> Go structs are records whose fields carry a short prefix (\<open>k_\<close> for \<open>Keeper\<close>, \<open>d_\<close> for
  \<open>Driver\<close>), \<open>int64\<close>, \<open>uint64\<close>, \<open>uint32\<close> and bytes are machine words (\<open>sint\<close> reads the signed ones), the store
  is an association list behind \<open>memGet\<close>, \<open>memSet\<close>, \<open>memDelete\<close>, \<open>memIteratePrefix\<close>. An operation that
  can fail returns \<open>lean_error + 'a\<close>; one that changes state returns the new state as well.
  Format arguments of error texts are left out.

  \<^bold>\<open>Parameters.\<close> The hash function, the proof programs and the in-process verifier (fields of \<open>Host\<close> and
  \<open>RegHost\<close>), the SDK and the other modules (fields of \<open>hooks\<close>), the application behind the driver
  (\<open>EngineApp\<close>, with the laws of its height as hypotheses), certificate verification. The wall clock
  is an argument.

  \<^bold>\<open>What is shown.\<close> Roster: the store operations refine operations on the abstract roster, the LNPR is
  applied all or nothing, a block changes the roster by its LNPR alone, and on a chain from genesis
  the validator set of the engine is the recorded power map, held by active members only. Power:
  updates are a diff, never raise power and are idempotent. Proposals: what an accepted LNPR was
  checked for, and that an honest dummy-mode proposal is accepted. Engine: participants are the
  active members, certificates intersect, the driver keeps step with the application and its ledger
  only grows. Formats: decoders accept exactly the encodings, classes are disjoint, Go and Rust agree
  on certificates. Some properties record weaknesses of the code as it is: catch-up does not bind a
  payload to its certificate, a repeated signer counts repeatedly, a member that rejoins has no balance.

  \<^bold>\<open>Bounds and termination.\<close> All recursive definitions are total; loops over bytes recurse on the rest of
  the input or on an index bounded by its length, so no fuel is used. Statements about the roster
  assume room below \<open>2 ^ 32\<close> deposit indices, since the index is a 32-bit word; statements about
  weight sums assume that they fit 64 bits where the Go code would wrap. The chain relation takes
  blocks at which some member is active, the regime in which the roster is read from the bitfield.

  \<^bold>\<open>Not modelled.\<close> The Commonware engine and its C bindings, RPC and command-line code (input and output);
  the Rust circuits, reached only through their binaries; the modules \<open>hashmerchant\<close>, \<open>feeshare\<close>,
  \<open>globalfee\<close>, \<open>tokenfactory\<close>, \<open>drip\<close>, \<open>cw-hooks\<close> and \<open>smart-account\<close>, which share no state with the validator
  set and appear as hooks; application wiring, upgrades and generated code. Locks of the driver are
  left out: its calls are atomic steps. Log output and the debug files of proposals are left out.
\<close>

section \<open>Wire formats\<close>

text \<open>C25. The LNPR decoder accepts exactly the encodings of well-formed blobs, followed by any bytes.\<close>

theorem lnpr_canonical:
  "DecodeLNPR tx = Some b \<longleftrightarrow> wf_LNPR b \<and> (\<exists>junk. tx = EncodeLNPR b @ junk)"
  by (rule DecodeLNPR_iff)

text \<open>JOIN and SSLE transactions have exactly one encoding; a LEAV may carry trailing bytes.\<close>

theorem membership_canonical:
  "(DecodeJoin tx = Some j \<longleftrightarrow> wf_join j \<and> tx = EncodeJoin j) \<and>
   (DecodeLeave tx = Some l \<longleftrightarrow> wf_leave l \<and> (\<exists>junk. tx = EncodeLeave l @ junk)) \<and>
   (DecodeSSLE tx = Some e \<longleftrightarrow> wf_SSLE e \<and> tx = EncodeSSLE e)"
  using DecodeJoin_iff DecodeLeave_iff DecodeSSLE_iff by blast

text \<open>No transaction is read as two things: at most one of the four decoders accepts it.\<close>

theorem tx_classes_exclusive:
  "length (filter (\<lambda>accepted. accepted)
     [DecodeLNPR tx \<noteq> None, DecodeSSLE tx \<noteq> None, DecodeJoin tx \<noteq> None, DecodeLeave tx \<noteq> None]) \<le> 1"
proof -
  have "DecodeLNPR tx \<noteq> None \<Longrightarrow> HasPrefix tx PrefixLNPR" "DecodeSSLE tx \<noteq> None \<Longrightarrow> HasPrefix tx PrefixSSLE"
    "DecodeJoin tx \<noteq> None \<Longrightarrow> HasPrefix tx PrefixJOIN" "DecodeLeave tx \<noteq> None \<Longrightarrow> HasPrefix tx PrefixLEAV"
    using lnpr.dec_prefix ssle.dec_prefix join.dec_prefix leav.dec_prefix by blast+
  then show ?thesis
    using HasPrefix_same_length [of tx] classes_distinct 
    by (cases "DecodeLNPR tx = None"; cases "DecodeSSLE tx = None"; cases "DecodeJoin tx = None";
        cases "DecodeLeave tx = None") auto
qed

text \<open>The key-value pairs an ABCI subspace query answers are read back as they were written.\<close>

theorem kv_pairs_roundtrip:
  "length (encodeKVPairs ps) < 2 ^ 63 \<Longrightarrow> decodeKVPairs (encodeKVPairs ps) = Inr ps"
  by (rule decodeKVPairs_encode)

theorem kv_pairs_roundtrip_witness:
  "decodeKVPairs (encodeKVPairs [\<lparr>kv_key = [1], kv_value = [2, 3]\<rparr>]) = Inr [\<lparr>kv_key = [1], kv_value = [2, 3]\<rparr>]"
proof (rule kv_pairs_roundtrip)
  have "encodeKVPairs [\<lparr>kv_key = [1], kv_value = [2, 3]\<rparr>] = [10, 7, 10, 1, 1, 18, 2, 2, 3]" by code_simp
  then show "length (encodeKVPairs [\<lparr>kv_key = [1], kv_value = [2, 3]\<rparr>]) < 2 ^ 63" by simp
qed

text \<open>A block payload decodes exactly if it starts with the encoding of a well-formed payload.\<close>

theorem payload_canonical:
  "DecodePayload b = Inr p \<longleftrightarrow> wf_Payload p \<and> (\<exists>junk. b = Payload_Encode p @ junk)"
  by (rule DecodePayload_iff)

section \<open>Bitfield and proofs\<close>

text \<open>Setting a bit of the bitfield changes that bit only, and the count a query reports is the number
  of deposit indices whose bit is set.
\<close>

theorem bitfield_laws:
  assumes "length bf \<le> 2 ^ 29"
  shows "bitGet (bitSet bf i on) j = (if j = i then on else bitGet bf j) \<and> CountSetBits bf = card {i. bitGet bf i}"
  using bitGet_bitSet CountSetBits_bitGet [OF assms] by blast

theorem bitfield_laws_witness: "CountSetBits [5, 1] = card {i. bitGet [5, 1] i} \<and> bitGet (bitSet [5, 1] 9 True) 9"
  using bitfield_laws [of "[5, 1]" 9 True 9] by simp

text \<open>The dummy verifier accepts exactly the 18 bytes the dummy prover makes for the period, subject,
  weight and object roots of the instance; what follows them is not read.
\<close>

theorem dummy_verifier_exact:
  assumes "16 \<le> length inst" "splitInstance inst = (p, x, w, r)"
  shows "VerifyDummy pf inst = Inr () \<longleftrightarrow> length pf \<le> MaxProofBytes \<and> take 18 pf = DummyStwoProveBoundRoots p x w r"
  by (rule VerifyDummy_accepts_iff [OF assms])

theorem dummy_verifier_exact_witness:
  "VerifyDummy (DummyStwoProveBoundRoots 3 alice 10 []) (instancesForRoots 3 alice 10 []) = Inr ()"
  using dummy_verifier_exact [OF length_instancesForRoots splitInstance_for, of "DummyStwoProveBoundRoots 3 alice 10 []" 3 alice 10 "[]"]
  by (simp add: MaxProofBytes_def)

text \<open>A fold proof that is accepted and long enough to carry roots carries the three object roots the
  chain last stored.
\<close>

theorem fold_proof_carries_roots:
  assumes "VerifySameStatementFold h pf (foldPairStrings (LastObjectRoots s)) = Inr ()" "106 \<le> length pf"
  shows "take 96 (drop 10 pf) = padRoots (LastObjectRoots s)"
  by (rule fold_binds_roots [OF assms])

definition demo_fold :: bytes where
  "demo_fold = stwoMagic @ [2, 5] @ foldKind @ replicate 96 0"

theorem fold_proof_carries_roots_witness:
  "VerifySameStatementFold (demo_host\<lparr>h_stwo := \<lambda>_ _. Inr ()\<rparr>) demo_fold (foldPairStrings (LastObjectRoots NewMemStore)) = Inr () \<and>
   take 96 (drop 10 demo_fold) = padRoots (LastObjectRoots NewMemStore)"
proof -
  have "\<not> Contains demo_fold dummyMagic" "\<not> Contains demo_fold costume" "length demo_fold = 106" "take 4 demo_fold = stwoMagic"
    "demo_fold ! 4 = 2" "demo_fold ! 5 = 5" "take 4 (drop 6 demo_fold) = foldKind"
    "take 32 (drop 10 demo_fold) = replicate 32 0" "take 32 (drop 42 demo_fold) = replicate 32 0"
    "take 32 (drop 74 demo_fold) = replicate 32 0" by code_simp+
  moreover have "foldPairStrings (LastObjectRoots NewMemStore) = replicate 3 (EncodeToString (replicate 32 0))" by code_simp
  ultimately have "VerifySameStatementFold (demo_host\<lparr>h_stwo := \<lambda>_ _. Inr ()\<rparr>) demo_fold (foldPairStrings (LastObjectRoots NewMemStore)) = Inr ()"
    by (simp add: VerifySameStatementFold_def wire_simps Let_def numeral_3_eq_3)
  moreover have "106 \<le> length demo_fold" by code_simp
  ultimately show ?thesis using fold_proof_carries_roots by blast
qed



text \<open>C27. A member that leaves and joins again keeps the balance 0 its leave wrote, whatever weight the JOIN
  carries: it is an active member, but without a proven balance, so no validator update announces it.
\<close>

theorem rejoin_keeps_zero_balance:
  assumes inv: "roster_inv s" and mem: "depositIndexOf s x = Some i"
    and L: "ApplyLeave H \<lparr>vb_Period = p, vb_Subject = x\<rparr> s = Inr s1"
    and J: "ApplyJoin H \<lparr>jb_Period = q, jb_Subject = x, jb_Weight = w, jb_Proof = pf\<rparr> s1 = Inr s2"
  shows "\<lparr>pw_Subject = x, pw_Weight = 0, pw_HasProof = False\<rparr> \<in> set (DebugSubjectsFromBits s2)"
proof -
  note l = ApplyLeave_spec [OF inv L, simplified]
  have "has_room s1 x" using l(4) mem by (simp add: has_room_def)
  then have j: "roster_inv s2" "roster s2 = spec_admit x w (roster s1)"
    using ApplyJoin_spec [OF l(1) _ J] by simp_all
  have w: "sint w > 0" using J by (auto simp: ApplyJoin_def ValidateJoin_def split: if_splits)
  have "x \<in> m_subject ` set (roster s)" using roster_subjects [OF inv] mem by blast
  then obtain m where m: "m \<in> set (roster s)" "m_subject m = x" by blast
  let ?m1 = "m\<lparr>m_active := False, m_eb := Some 0\<rparr>"
  have m1: "?m1 \<in> set (roster s1)" using m l(2) by (auto simp: spec_leave_def on_member_def)
  have x1: "x \<in> m_subject ` set (roster s1)" by (rule rev_image_eqI [OF m1]) (simp add: m(2))
  have r2: "roster s2 = map (\<lambda>m. if m_subject m = x then m\<lparr>m_active := True,
        m_eb := Some (case m_eb m of None \<Rightarrow> ebFromWeight w | Some e \<Rightarrow> e)\<rparr> else m) (roster s1)"
    using x1 w by (simp add: j(2) spec_admit_def spec_enrol_def on_member_def)
  have "?m1\<lparr>m_active := True, m_eb := Some 0\<rparr> \<in> set (roster s2)"
    unfolding r2 set_map by (rule rev_image_eqI [OF m1]) (simp add: m(2))
  then have "?m1\<lparr>m_active := True, m_eb := Some 0\<rparr> \<in> set (filter m_active (roster s2))" by simp
  then show ?thesis
    unfolding DebugSubjectsFromBits_roster [OF j(1)] set_map
    by (rule rev_image_eqI) (simp add: m(2) Let_def)
qed

theorem rejoin_keeps_zero_balance_witness:
  "\<exists>s1 s2. ApplyLeave demo_hash \<lparr>vb_Period = 1, vb_Subject = alice\<rparr> demo_store = Inr s1 \<and>
     ApplyJoin demo_hash \<lparr>jb_Period = 2, jb_Subject = alice, jb_Weight = 50, jb_Proof = []\<rparr> s1 = Inr s2 \<and>
     \<lparr>pw_Subject = alice, pw_Weight = 0, pw_HasProof = False\<rparr> \<in> set (DebugSubjectsFromBits s2)"
proof -
  have ne: "alice \<noteq> []" by (simp add: alice_def)
  then obtain s1 where L: "ApplyLeave demo_hash \<lparr>vb_Period = 1, vb_Subject = alice\<rparr> demo_store = Inr s1"
    using ApplyLeave_total [of "\<lparr>vb_Period = 1, vb_Subject = alice\<rparr>"] by auto
  obtain s2 where J: "ApplyJoin demo_hash \<lparr>jb_Period = 2, jb_Subject = alice, jb_Weight = 50, jb_Proof = []\<rparr> s1 = Inr s2"
    using ne by (simp add: ApplyJoin_def ValidateJoin_def Let_def)
  have "alice \<in> m_subject ` set (roster demo_store)" by (simp add: demo_roster)
  then obtain i where "depositIndexOf demo_store alice = Some i" using roster_subjects [OF demo_inv] by blast
  from rejoin_keeps_zero_balance [OF demo_inv this L J] L J show ?thesis by blast
qed

end
